(* ===== verification/Claw_Prelude.thy ===== *)
theory Claw_Prelude
  imports Main "HOL-Library.AList" "HOL-Library.Word"
begin

text \<open>
  Shared vocabulary of the development.

  \<^item> Types: machine integers are words (\<open>u32\<close>, \<open>u64\<close>; release builds of the program wrap),
    \<open>usize\<close> lengths are \<open>nat\<close>, monotonic clock readings (\<open>Instant\<close>) and \<open>Duration\<close> values are
    \<open>nat\<close> nanoseconds, UTC timestamps are \<open>int\<close> nanoseconds, identifiers drawn from
    \<open>Uuid::new_v4\<close> are numbers that the caller supplies, a \<open>Result\<close> is a sum.
  \<^item> Strings are the bytes of a Rust \<open>str\<close>, so \<open>length\<close> is \<open>str::len\<close>.
  \<^item> A \<open>HashMap\<close> is an association list with distinct keys, in the (arbitrary) order in which the
    map is iterated; the locale \<open>hash_map\<close> states the laws its clients use.
  \<^item> \<open>json\<close> is the value type the program exchanges with tools and models.
\<close>

named_theorems claw_defs \<open>definitions that the component proofs unfold\<close>
named_theorems claw_inv \<open>preservation lemmas of the component invariants\<close>

subsection \<open>Types\<close>

type_synonym u32 = "32 word"
type_synonym u64 = "64 word"
type_synonym uuid = nat
type_synonym instant = nat
type_synonym duration = nat
type_synonym datetime = int
type_synonym ('e, 'a) result = "'e + 'a"
type_synonym ('k, 'v) hmap = "('k \<times> 'v) list"

abbreviation Ok :: "'a \<Rightarrow> ('e, 'a) result" where "Ok \<equiv> Inr"
abbreviation Err :: "'e \<Rightarrow> ('e, 'a) result" where "Err \<equiv> Inl"

definition is_ok :: "('e, 'a) result \<Rightarrow> bool" where
  "is_ok r = (case r of Inl _ \<Rightarrow> False | Inr _ \<Rightarrow> True)"

lemma is_ok_simps [simp]: "is_ok (Inr x)" "\<not> is_ok (Inl e)"
  by (simp_all add: is_ok_def)

abbreviation NANOS_PER_SEC :: nat where "NANOS_PER_SEC \<equiv> 1000000000"
abbreviation secs :: "nat \<Rightarrow> duration" where "secs n \<equiv> n * NANOS_PER_SEC"

text \<open>\<open>TimeDelta::num_seconds\<close>: whole seconds, truncated towards zero.\<close>

definition num_seconds :: "int \<Rightarrow> int" where
  "num_seconds d = sgn d * (\<bar>d\<bar> div 1000000000)"

lemma num_seconds_nonneg: "0 \<le> d \<Longrightarrow> num_seconds d = d div 1000000000"
  by (cases "d = 0") (auto simp: num_seconds_def sgn_if)

lemma num_seconds_neg: "d \<le> 0 \<Longrightarrow> num_seconds d \<le> 0"
  by (auto simp: num_seconds_def sgn_if pos_imp_zdiv_nonneg_iff)

datatype json =
    JNull
  | JBool bool
  | JNumber string
  | JString string
  | JArray "json list"
  | JObject "(string \<times> json) list"

text \<open>The accessors of \<open>serde_json::Value\<close>; the members of an object are in iteration order.\<close>

definition jget :: "json \<Rightarrow> string \<Rightarrow> json option" where
  "jget v k = (case v of JObject kvs \<Rightarrow> map_of kvs k | _ \<Rightarrow> None)"

definition as_str :: "json \<Rightarrow> string option" where
  "as_str v = (case v of JString s \<Rightarrow> Some s | _ \<Rightarrow> None)"

definition jget_str :: "json \<Rightarrow> string \<Rightarrow> string option" where
  "jget_str v k = Option.bind (jget v k) as_str"

definition unwrap_or :: "'a option \<Rightarrow> 'a \<Rightarrow> 'a" where
  "unwrap_or x d = (case x of Some v \<Rightarrow> v | None \<Rightarrow> d)"

definition as_array :: "json \<Rightarrow> json list option" where
  "as_array v = (case v of JArray vs \<Rightarrow> Some vs | _ \<Rightarrow> None)"

definition as_object :: "json \<Rightarrow> (string \<times> json) list option" where
  "as_object v = (case v of JObject kvs \<Rightarrow> Some kvs | _ \<Rightarrow> None)"

lemma as_array_Some [simp]: "as_array v = Some vs \<longleftrightarrow> v = JArray vs"
  by (auto simp: as_array_def split: json.splits)

lemma as_object_Some [simp]: "as_object v = Some kvs \<longleftrightarrow> v = JObject kvs"
  by (auto simp: as_object_def split: json.splits)

lemma as_str_Some [simp]: "as_str v = Some s \<longleftrightarrow> v = JString s"
  by (auto simp: as_str_def split: json.splits)

text \<open>Nested values are smaller: the measure of every recursion over JSON.\<close>

lemma size_map_of [termination_simp]: "map_of kvs k = Some v \<Longrightarrow> size v < size (JObject kvs)"
  by (induction kvs) (auto split: if_splits)

lemma size_member [termination_simp]: "(k, v) \<in> set kvs \<Longrightarrow> size v < size (JObject kvs)"
  by (induction kvs) auto

lemma size_item [termination_simp]: "v \<in> set vs \<Longrightarrow> size v < size (JArray vs)"
  by (induction vs) auto

lemma size_jget [termination_simp]: "jget v k = Some x \<Longrightarrow> size x < size v"
  using size_map_of by (auto simp: jget_def split: json.splits)

text \<open>A fallible step, repeated.\<close>

primrec iter_opt :: "nat \<Rightarrow> ('s \<Rightarrow> 's option) \<Rightarrow> 's \<Rightarrow> 's option" where
  "iter_opt 0 f s = Some s"
| "iter_opt (Suc n) f s = Option.bind (f s) (iter_opt n f)"

lemma iter_opt_Suc_right: "iter_opt (Suc n) f s = Option.bind (iter_opt n f s) f"
proof (induction n arbitrary: s)
  case (Suc n)
  show ?case
  proof (cases "f s")
    case (Some v)
    then have "iter_opt (Suc (Suc n)) f s = iter_opt (Suc n) f v" by simp
    also have "\<dots> = Option.bind (iter_opt n f v) f" by (rule Suc.IH)
    finally show ?thesis using Some by simp
  qed simp
next
  case 0
  show ?case by (cases "f s") simp_all
qed

lemma iter_opt_inv:
  assumes "\<And>s t. P s \<Longrightarrow> f s = Some t \<Longrightarrow> P t"
  shows "P s \<Longrightarrow> iter_opt n f s = Some t \<Longrightarrow> P t"
  by (induction n arbitrary: s) (auto split: bind_splits intro: assms)

subsection \<open>Saturating arithmetic of the machine integers\<close>

definition saturating_add :: "'a::len word \<Rightarrow> 'a word \<Rightarrow> 'a word" where
  "saturating_add a b = (if unat a + unat b < 2 ^ LENGTH('a) then a + b else - 1)"

definition saturating_sub :: "'a::len word \<Rightarrow> 'a word \<Rightarrow> 'a word" where
  "saturating_sub a b = (if a < b then 0 else a - b)"

lemma unat_plus_no_wrap:
  fixes a b :: "'a::len word"
  shows "unat a + unat b < 2 ^ LENGTH('a) \<Longrightarrow> unat (a + b) = unat a + unat b"
  by (simp add: unat_word_ariths)

lemma unat_saturating_add:
  fixes a b :: "'a::len word"
  shows "unat (saturating_add a b) = min (unat a + unat b) (2 ^ LENGTH('a) - 1)"
proof -
  have "unat (- 1 :: 'a word) = 2 ^ LENGTH('a) - 1"
    by (simp add: unsigned_minus_1_eq_mask mask_eq_exp_minus_1)
  then show ?thesis by (auto simp: saturating_add_def unat_plus_no_wrap)
qed

lemma unat_saturating_sub:
  fixes a b :: "'a::len word"
  shows "unat (saturating_sub a b) = unat a - unat b"
  by (auto simp: saturating_sub_def word_less_nat_alt unat_sub word_le_nat_alt)

subsection \<open>Byte strings\<close>

definition starts_with :: "string \<Rightarrow> string \<Rightarrow> bool" where
  "starts_with s p \<longleftrightarrow> take (length p) s = p"

definition ends_with :: "string \<Rightarrow> string \<Rightarrow> bool" where
  "ends_with s p \<longleftrightarrow> length p \<le> length s \<and> drop (length s - length p) s = p"

definition strip_prefix :: "string \<Rightarrow> string \<Rightarrow> string option" where
  "strip_prefix p s = (if starts_with s p then Some (drop (length p) s) else None)"

definition strip_suffix :: "string \<Rightarrow> string \<Rightarrow> string option" where
  "strip_suffix p s = (if ends_with s p then Some (take (length s - length p) s) else None)"

lemma starts_with_iff: "starts_with s p \<longleftrightarrow> (\<exists>t. s = p @ t)"
  unfolding starts_with_def by (metis append_eq_conv_conj append_take_drop_id)

lemma ends_with_iff: "ends_with s p \<longleftrightarrow> (\<exists>t. s = t @ p)"
proof
  assume e: "ends_with s p"
  then have "take (length s - length p) s @ p = s"
    unfolding ends_with_def by (metis append_take_drop_id)
  then show "\<exists>t. s = t @ p" by metis
qed (auto simp: ends_with_def)

lemma strip_prefix_Some_iff [simp]: "strip_prefix p s = Some t \<longleftrightarrow> s = p @ t"
  by (auto simp: strip_prefix_def starts_with_iff)

lemma strip_prefix_None_iff: "strip_prefix p s = None \<longleftrightarrow> \<not> starts_with s p"
  by (simp add: strip_prefix_def)

lemma strip_suffix_Some_iff [simp]: "strip_suffix p s = Some t \<longleftrightarrow> s = t @ p"
  by (auto simp: strip_suffix_def ends_with_iff)

text \<open>ASCII case mapping: \<open>str::to_ascii_lowercase\<close> and its upper-case twin.\<close>

definition ascii_lower_char :: "char \<Rightarrow> char" where
  "ascii_lower_char c = (let n = (of_char c :: nat) in
     if 65 \<le> n \<and> n \<le> 90 then char_of (n + 32) else c)"

definition ascii_upper_char :: "char \<Rightarrow> char" where
  "ascii_upper_char c = (let n = (of_char c :: nat) in
     if 97 \<le> n \<and> n \<le> 122 then char_of (n - 32) else c)"

definition ascii_lower :: "string \<Rightarrow> string" where "ascii_lower = map ascii_lower_char"
definition ascii_upper :: "string \<Rightarrow> string" where "ascii_upper = map ascii_upper_char"

lemma ascii_lower_char_idem: "ascii_lower_char (ascii_lower_char c) = ascii_lower_char c"
  by (simp add: ascii_lower_char_def Let_def)

lemma ascii_lower_idem [simp]: "ascii_lower (ascii_lower s) = ascii_lower s"
  by (simp add: ascii_lower_def ascii_lower_char_idem)

text \<open>\<open>str::split\<close> on one character, and \<open>join\<close>.\<close>

fun split_on :: "(char \<Rightarrow> bool) \<Rightarrow> string \<Rightarrow> string list" where
  "split_on P [] = [[]]"
| "split_on P (c # cs) =
     (if P c then [] # split_on P cs
      else case split_on P cs of [] \<Rightarrow> [[c]] | x # xs \<Rightarrow> (c # x) # xs)"

fun join_str :: "string \<Rightarrow> string list \<Rightarrow> string" where
  "join_str sep [] = []"
| "join_str sep [x] = x"
| "join_str sep (x # y # ys) = x @ sep @ join_str sep (y # ys)"

lemma split_on_not_Nil [simp]: "split_on P s \<noteq> []"
  by (induction s) (auto split: list.splits)

lemma split_on_pieces: "x \<in> set (split_on P s) \<Longrightarrow> c \<in> set x \<Longrightarrow> \<not> P c"
  by (induction s arbitrary: x) (fastforce split: list.splits if_splits)+

lemma join_split_on: "join_str [d] (split_on (\<lambda>c. c = d) s) = s"
proof (induction s)
  case (Cons c s)
  then show ?case
    by (cases "split_on (\<lambda>c. c = d) s" rule: list.exhaust)
       (auto simp: neq_Nil_conv split: list.splits, (metis append_Cons join_str.simps(2,3) neq_Nil_conv)+)
qed simp

text \<open>
  \<open>str::lines\<close>: pieces that end in a line feed, which is dropped with a preceding carriage return,
  and the rest if it is not empty.
\<close>

definition drop_cr :: "string \<Rightarrow> string" where
  "drop_cr l = (if l \<noteq> [] \<and> last l = CHR 0x0D then butlast l else l)"

definition str_lines :: "string \<Rightarrow> string list" where
  "str_lines s =
     (let ps = split_on (\<lambda>c. c = CHR 0x0A) s
      in map drop_cr (butlast ps) @ (if last ps = [] then [] else [last ps]))"

text \<open>\<open>str::contains\<close>: the pattern occurs at some offset.\<close>

fun contains_str :: "string \<Rightarrow> string \<Rightarrow> bool" where
  "contains_str [] p \<longleftrightarrow> p = []"
| "contains_str (c # cs) p \<longleftrightarrow> starts_with (c # cs) p \<or> contains_str cs p"

lemma contains_str_iff: "contains_str s p \<longleftrightarrow> (\<exists>a b. s = a @ p @ b)"
proof (induction s)
  case (Cons c cs)
  have "(\<exists>a b. c # cs = a @ p @ b) \<longleftrightarrow> (\<exists>b. c # cs = p @ b) \<or> (\<exists>a b. cs = a @ p @ b)"
    by (metis append_Cons append_Nil list.sel(3) tl_append2)
  with Cons show ?case by (simp add: starts_with_iff)
qed simp

text \<open>Decimal rendering of a number, as \<open>format!("{}", n)\<close> prints it.\<close>

fun show_nat :: "nat \<Rightarrow> string" where
  "show_nat n =
     (if n < 10 then [char_of (48 + n)] else show_nat (n div 10) @ [char_of (48 + n mod 10)])"

declare show_nat.simps [simp del]

text \<open>UTF-8 boundaries: a byte offset is a boundary unless it points at a continuation byte.\<close>

definition utf8_cont :: "char \<Rightarrow> bool" where
  "utf8_cont c \<longleftrightarrow> 128 \<le> (of_char c :: nat) \<and> (of_char c :: nat) < 192"

definition is_char_boundary :: "string \<Rightarrow> nat \<Rightarrow> bool" where
  "is_char_boundary s i \<longleftrightarrow> i = 0 \<or> i = length s \<or> (i < length s \<and> \<not> utf8_cont (s ! i))"

fun back_to_boundary :: "string \<Rightarrow> nat \<Rightarrow> nat" where
  "back_to_boundary s 0 = 0"
| "back_to_boundary s (Suc n) =
     (if is_char_boundary s (Suc n) then Suc n else back_to_boundary s n)"

lemma back_to_boundary_le: "back_to_boundary s n \<le> n"
  by (induction n) auto

lemma back_to_boundary_boundary: "is_char_boundary s (back_to_boundary s n)"
  by (induction n) (auto simp: is_char_boundary_def)

lemma back_to_boundary_greatest:
  "m \<le> n \<Longrightarrow> is_char_boundary s m \<Longrightarrow> m \<le> back_to_boundary s n"
  by (induction n) (auto simp: le_Suc_eq)

subsection \<open>Hash maps\<close>

declare map_of_eq_Some_iff [simp del]

text \<open>
  The interface of \<open>std::collections::HashMap\<close> that the components rely on: a lookup after an
  insertion or a removal, and that both keep the keys distinct.
\<close>

locale hash_map =
  fixes get :: "'m \<Rightarrow> 'k \<Rightarrow> 'v option"
    and insert :: "'k \<Rightarrow> 'v \<Rightarrow> 'm \<Rightarrow> 'm"
    and remove :: "'k \<Rightarrow> 'm \<Rightarrow> 'm"
    and wf :: "'m \<Rightarrow> bool"
  assumes get_insert: "get (insert k v m) j = (if j = k then Some v else get m j)"
    and get_remove: "get (remove k m) j = (if j = k then None else get m j)"
    and wf_insert: "wf m \<Longrightarrow> wf (insert k v m)"
    and wf_remove: "wf m \<Longrightarrow> wf (remove k m)"
begin

lemma insert_get_same: "get (insert k v m) k = Some v"
  by (simp add: get_insert)

lemma insert_frame: "j \<noteq> k \<Longrightarrow> get (insert k v m) j = get m j"
  by (simp add: get_insert)

lemma insert_insert: "get (insert k w (insert k v m)) = get (insert k w m)"
  by (auto simp: get_insert)

lemma remove_insert: "get (remove k (insert k v m)) = get (remove k m)"
  by (auto simp: get_insert get_remove)

lemma dom_insert: "dom (get (insert k v m)) = Set.insert k (dom (get m))"
  by (auto simp: get_insert dom_def)

lemma dom_remove: "dom (get (remove k m)) = dom (get m) - {k}"
  by (auto simp: get_remove dom_def split: if_splits)

end

abbreviation hm_wf :: "('k, 'v) hmap \<Rightarrow> bool" where
  "hm_wf m \<equiv> distinct (map fst m)"

interpretation hm: hash_map "map_of :: ('k, 'v) hmap \<Rightarrow> 'k \<Rightarrow> 'v option" AList.update AList.delete hm_wf
  by unfold_locales (auto simp: update_conv' delete_conv' distinct_update distinct_delete)

definition hm_count :: "('v \<Rightarrow> bool) \<Rightarrow> ('k, 'v) hmap \<Rightarrow> nat" where
  "hm_count P m = length (filter P (map snd m))"

lemma hm_count_Nil [simp]: "hm_count P [] = 0"
  by (simp add: hm_count_def)

lemma hm_count_Cons: "hm_count P ((k, v) # m) = (if P v then 1 else 0) + hm_count P m"
  by (simp add: hm_count_def)

lemma hm_count_update:
  assumes "hm_wf m"
  shows "hm_count P (AList.update k v m) + (case map_of m k of Some w \<Rightarrow> if P w then 1 else 0 | None \<Rightarrow> 0)
         = hm_count P m + (if P v then 1 else 0)"
  using assms
proof (induction m)
  case (Cons a m)
  obtain k' v' where a: "a = (k', v')" by (cases a)
  show ?case
  proof (cases "k' = k")
    case False
    with Cons a show ?thesis by (simp add: hm_count_Cons)
  qed (use a in \<open>simp add: hm_count_Cons\<close>)
qed (simp add: hm_count_Cons)

lemma hm_count_delete:
  assumes "hm_wf m"
  shows "hm_count P (AList.delete k m) + (case map_of m k of Some w \<Rightarrow> if P w then 1 else 0 | None \<Rightarrow> 0)
         = hm_count P m"
  using assms
proof (induction m)
  case (Cons a m)
  obtain k' v' where a: "a = (k', v')" by (cases a)
  show ?case
  proof (cases "k' = k")
    case True
    with Cons.prems a have "map_of m k = None" by (auto simp: map_of_eq_None_iff)
    then have "AList.delete k m = m" by (auto intro: delete_id simp: map_of_eq_None_iff)
    with True a show ?thesis by (simp add: hm_count_Cons)
  qed (use Cons a in \<open>auto simp: hm_count_Cons\<close>)
qed (simp add: hm_count_def)

lemma hm_count_mono: "(\<And>v. P v \<Longrightarrow> Q v) \<Longrightarrow> hm_count P m \<le> hm_count Q m"
  by (induction m) (auto simp: hm_count_Cons)

lemma length_update_le: "length (AList.update k v m) \<le> Suc (length m)"
  by (induction m) auto

lemma length_update_absent: "map_of m k = None \<Longrightarrow> length (AList.update k v m) = Suc (length m)"
  by (induction m) (auto split: if_splits)

lemma length_update_present: "map_of m k = Some v \<Longrightarrow> length (AList.update k w m) = length m"
  by (induction m) auto

lemma set_update_subset: "set (AList.update k v m) \<subseteq> insert (k, v) (set m)"
  by (induction m) auto

lemma set_delete_subset: "set (AList.delete k m) \<subseteq> set m"
  by (auto simp: AList.delete_eq)

lemma length_delete: "length (AList.delete k m) \<le> length m"
  by (simp add: AList.delete_eq)

lemma length_delete_present:
  "hm_wf m \<Longrightarrow> map_of m k = Some v \<Longrightarrow> Suc (length (AList.delete k m)) = length m"
  using hm_count_delete [of m "\<lambda>_. True" k] by (simp add: hm_count_def)

end
