(* ===== verification/Job_State.thy ===== *)
theory Job_State
  imports Claw_Prelude
begin

text \<open>
  The job state machine of \<open>src/context/state.rs\<close>: the states and their legal transitions, the job
  context with its transition history, token and cost budgets, stuck detection and recovery.

  \<open>Decimal\<close> amounts (crate \<open>rust_decimal\<close>) are values of a type parameter with an addition and an
  order of which nothing is assumed. The clock readings of an operation are its arguments, in the
  order in which the code takes them. Lemmas: the transition table, what every transition does to
  the history and the timestamps, the context invariant, budgets.
\<close>

subsection \<open>States\<close>

datatype JobState =
    Pending | InProgress | Completed | Submitted | Accepted | Failed | Stuck | Cancelled

definition can_transition_to :: "JobState \<Rightarrow> JobState \<Rightarrow> bool" where
  "can_transition_to self target =
     (if (self, target) = (Completed, Completed) then True
      else (self, target) \<in>
        {(Pending, InProgress), (Pending, Cancelled),
         (InProgress, Completed), (InProgress, Failed),
         (InProgress, Stuck), (InProgress, Cancelled),
         (Completed, Submitted), (Completed, Failed),
         (Submitted, Accepted), (Submitted, Failed),
         (Stuck, InProgress), (Stuck, Failed), (Stuck, Cancelled)})"

definition is_terminal :: "JobState \<Rightarrow> bool" where
  "is_terminal s \<longleftrightarrow> s \<in> {Accepted, Failed, Cancelled}"

definition is_active :: "JobState \<Rightarrow> bool" where
  "is_active s \<longleftrightarrow> \<not> is_terminal s"

definition is_parallel_blocking :: "JobState \<Rightarrow> bool" where
  "is_parallel_blocking s \<longleftrightarrow> s \<in> {Pending, InProgress, Stuck}"

fun show_job_state :: "JobState \<Rightarrow> string" where
  "show_job_state Pending = ''pending''"
| "show_job_state InProgress = ''in_progress''"
| "show_job_state Completed = ''completed''"
| "show_job_state Submitted = ''submitted''"
| "show_job_state Accepted = ''accepted''"
| "show_job_state Failed = ''failed''"
| "show_job_state Stuck = ''stuck''"
| "show_job_state Cancelled = ''cancelled''"

subsection \<open>Job contexts\<close>

record state_transition =
  st_from :: JobState
  st_to :: JobState
  st_timestamp :: datetime
  st_reason :: "string option"

record token_budget_exceeded =
  tbe_used :: u64
  tbe_limit :: u64

record 'd job_context =
  job_id :: uuid
  state :: JobState
  user_id :: string
  requester_id :: "string option"
  conversation_id :: "uuid option"
  title :: string
  description :: string
  category :: "string option"
  budget :: "'d option"
  budget_token :: "string option"
  bid_amount :: "'d option"
  estimated_cost :: "'d option"
  estimated_duration :: "duration option"
  actual_cost :: 'd
  total_tokens_used :: u64
  max_tokens :: u64
  created_at :: datetime
  started_at :: "datetime option"
  completed_at :: "datetime option"
  repair_attempts :: u32
  transitions :: "state_transition list"
  metadata :: json
  extra_env :: "(string, string) hmap"
  http_interceptor :: "nat option"
  tool_output_stash :: "(string, string) hmap"
  user_timezone :: string

definition with_user ::
  "uuid \<Rightarrow> datetime \<Rightarrow> string \<Rightarrow> string \<Rightarrow> string \<Rightarrow> 'd::zero job_context" where
  "with_user fresh now uid ttl descr =
     \<lparr>job_id = fresh, state = Pending, user_id = uid, requester_id = None, conversation_id = None,
      title = ttl, description = descr, category = None, budget = None, budget_token = None,
      bid_amount = None, estimated_cost = None, estimated_duration = None, actual_cost = 0,
      total_tokens_used = 0, max_tokens = 0, created_at = now, started_at = None,
      completed_at = None, repair_attempts = 0, transitions = [], metadata = JNull,
      extra_env = [], http_interceptor = None, tool_output_stash = [], user_timezone = ''UTC''\<rparr>"

definition new_job :: "uuid \<Rightarrow> datetime \<Rightarrow> string \<Rightarrow> string \<Rightarrow> 'd::zero job_context" where
  "new_job fresh now ttl descr = with_user fresh now ''default'' ttl descr"

definition default_job :: "uuid \<Rightarrow> datetime \<Rightarrow> 'd::zero job_context" where
  "default_job fresh now = with_user fresh now ''default'' ''Untitled'' ''No description''"

definition with_timezone :: "string \<Rightarrow> 'd job_context \<Rightarrow> 'd job_context" where
  "with_timezone tz c = c\<lparr>user_timezone := tz\<rparr>"

definition with_requester_id :: "string \<Rightarrow> 'd job_context \<Rightarrow> 'd job_context" where
  "with_requester_id rid c = c\<lparr>requester_id := Some rid\<rparr>"

abbreviation MAX_TRANSITIONS :: nat where "MAX_TRANSITIONS \<equiv> 200"

text \<open>\<open>Vec::push\<close> followed by the \<open>drain\<close> that caps the history.\<close>

definition push_transition :: "state_transition \<Rightarrow> state_transition list \<Rightarrow> state_transition list" where
  "push_transition t ts =
     (let ts' = ts @ [t] in
      if MAX_TRANSITIONS < length ts' then drop (length ts' - MAX_TRANSITIONS) ts' else ts')"

text \<open>The timestamp update: a match with a guard on its first arm.\<close>

definition stamp :: "datetime \<Rightarrow> JobState \<Rightarrow> 'd job_context \<Rightarrow> 'd job_context" where
  "stamp now ns c =
     (if ns = InProgress \<and> started_at c = None then c\<lparr>started_at := Some now\<rparr>
      else if ns \<in> {Completed, Accepted, Failed, Cancelled} then c\<lparr>completed_at := Some now\<rparr>
      else c)"

definition transition_to ::
  "datetime \<Rightarrow> datetime \<Rightarrow> JobState \<Rightarrow> string option \<Rightarrow> 'd job_context
    \<Rightarrow> (string, unit) result \<times> 'd job_context" where
  "transition_to now1 now2 new_state reason c =
     (if \<not> can_transition_to (state c) new_state
      then (Err (''Cannot transition from '' @ show_job_state (state c) @ '' to '' @ show_job_state new_state), c)
      else if state c = new_state then (Ok (), c)
      else let t = \<lparr>st_from = state c, st_to = new_state, st_timestamp = now1, st_reason = reason\<rparr>;
               c1 = c\<lparr>transitions := push_transition t (transitions c), state := new_state\<rparr>
           in (Ok (), stamp now2 new_state c1))"

definition add_cost :: "'d::plus \<Rightarrow> 'd job_context \<Rightarrow> 'd job_context" where
  "add_cost cost c = c\<lparr>actual_cost := actual_cost c + cost\<rparr>"

definition add_tokens ::
  "u64 \<Rightarrow> 'd job_context \<Rightarrow> (token_budget_exceeded, unit) result \<times> 'd job_context" where
  "add_tokens tokens c =
     (let c1 = c\<lparr>total_tokens_used := total_tokens_used c + tokens\<rparr> in
      if 0 < max_tokens c1 \<and> max_tokens c1 < total_tokens_used c1
      then (Err \<lparr>tbe_used = total_tokens_used c1, tbe_limit = max_tokens c1\<rparr>, c1)
      else (Ok (), c1))"

definition budget_exceeded :: "'d::ord job_context \<Rightarrow> bool" where
  "budget_exceeded c = (case budget c of Some b \<Rightarrow> b < actual_cost c | None \<Rightarrow> False)"

text \<open>Whole seconds since the start, up to the completion time or the current time.\<close>

definition elapsed :: "datetime \<Rightarrow> 'd job_context \<Rightarrow> nat option" where
  "elapsed now c = map_option
     (\<lambda>start. let fin = (case completed_at c of Some t \<Rightarrow> t | None \<Rightarrow> now)
              in nat (max (num_seconds (fin - start)) 0)) (started_at c)"

definition mark_stuck ::
  "datetime \<Rightarrow> datetime \<Rightarrow> string \<Rightarrow> 'd job_context \<Rightarrow> (string, unit) result \<times> 'd job_context" where
  "mark_stuck now1 now2 reason c = transition_to now1 now2 Stuck (Some reason) c"

definition attempt_recovery ::
  "datetime \<Rightarrow> datetime \<Rightarrow> 'd job_context \<Rightarrow> (string, unit) result \<times> 'd job_context" where
  "attempt_recovery now1 now2 c =
     (if state c \<noteq> Stuck then (Err ''Job is not stuck'', c)
      else transition_to now1 now2 InProgress (Some ''Recovery attempt'')
             (c\<lparr>repair_attempts := repair_attempts c + 1\<rparr>))"

lemmas job_defs [claw_defs] =
  can_transition_to_def is_terminal_def is_active_def is_parallel_blocking_def
  transition_to_def stamp_def Let_def

subsection \<open>The transition table\<close>

lemma can_transition_from_terminal: "is_terminal s \<Longrightarrow> \<not> can_transition_to s t"
  by (cases s; cases t) (auto simp: job_defs)

lemma can_transition_refl_iff: "can_transition_to s s \<longleftrightarrow> s = Completed"
  by (cases s) (auto simp: job_defs)

lemma blocking_pred: "can_transition_to s t \<Longrightarrow> is_parallel_blocking t \<Longrightarrow> is_parallel_blocking s"
  by (cases s; cases t) (auto simp: job_defs)

lemma show_job_state_inj: "show_job_state s = show_job_state t \<Longrightarrow> s = t"
  by (cases s; cases t) auto

lemma terminal_not_blocking: "is_terminal s \<Longrightarrow> \<not> is_parallel_blocking s"
  by (auto simp: job_defs)

subsection \<open>One transition\<close>

lemma transition_to_err:
  "\<not> can_transition_to (state c) ns \<Longrightarrow>
     transition_to n1 n2 ns r c =
       (Err (''Cannot transition from '' @ show_job_state (state c) @ '' to '' @ show_job_state ns), c)"
  by (simp add: transition_to_def)

lemma transition_to_ok_iff:
  "is_ok (fst (transition_to n1 n2 ns r c)) \<longleftrightarrow> can_transition_to (state c) ns"
  by (simp add: transition_to_def Let_def)

lemma state_transition_to:
  "state (snd (transition_to n1 n2 ns r c)) =
     (if can_transition_to (state c) ns then ns else state c)"
  by (auto simp: transition_to_def stamp_def Let_def)

lemma transition_to_frame [simp]:
  "job_id (snd (transition_to n1 n2 ns r c)) = job_id c"
  "user_id (snd (transition_to n1 n2 ns r c)) = user_id c"
  "total_tokens_used (snd (transition_to n1 n2 ns r c)) = total_tokens_used c"
  "max_tokens (snd (transition_to n1 n2 ns r c)) = max_tokens c"
  "actual_cost (snd (transition_to n1 n2 ns r c)) = actual_cost c"
  "budget (snd (transition_to n1 n2 ns r c)) = budget c"
  "repair_attempts (snd (transition_to n1 n2 ns r c)) = repair_attempts c"
  by (auto simp: transition_to_def stamp_def Let_def)

lemma length_push_transition: "length (push_transition t ts) \<le> max MAX_TRANSITIONS (length ts)"
  by (auto simp: push_transition_def Let_def)

lemma last_push_transition: "push_transition t ts \<noteq> [] \<and> last (push_transition t ts) = t"
  by (auto simp: push_transition_def Let_def)

lemma push_transition_suffix: "\<exists>k. push_transition t ts = drop k (ts @ [t])"
  unfolding push_transition_def Let_def by (metis drop0)

subsection \<open>The context invariant\<close>

text \<open>
  The recorded history is a chain of legal, state-changing transitions that ends in the current
  state and never holds more than the cap; a job that has run has a start time, one that has
  finished has a completion time.
\<close>

definition wf_history :: "state_transition list \<Rightarrow> JobState \<Rightarrow> bool" where
  "wf_history ts s \<longleftrightarrow>
     (\<forall>t \<in> set ts. can_transition_to (st_from t) (st_to t) \<and> st_from t \<noteq> st_to t) \<and>
     successively (\<lambda>a b. st_to a = st_from b) ts \<and>
     (ts \<noteq> [] \<longrightarrow> st_to (last ts) = s) \<and> length ts \<le> MAX_TRANSITIONS"

definition wf_job :: "'d job_context \<Rightarrow> bool" where
  "wf_job c \<longleftrightarrow> wf_history (transitions c) (state c) \<and>
     (state c \<notin> {Pending, Cancelled} \<longrightarrow> started_at c \<noteq> None) \<and>
     (state c \<notin> {Pending, InProgress, Stuck} \<longrightarrow> completed_at c \<noteq> None)"

lemma successively_drop: "successively P xs \<Longrightarrow> successively P (drop k xs)"
  by (metis append_take_drop_id successively_append_iff)

lemma wf_history_push:
  assumes h: "wf_history ts s" and t: "st_from t = s" "can_transition_to s (st_to t)" "st_to t \<noteq> s"
  shows "wf_history (push_transition t ts) (st_to t)"
proof -
  obtain k where k: "push_transition t ts = drop k (ts @ [t])"
    using push_transition_suffix by blast
  have "successively (\<lambda>a b. st_to a = st_from b) (ts @ [t])"
    using h t by (auto simp: wf_history_def successively_append_iff)
  then have "successively (\<lambda>a b. st_to a = st_from b) (push_transition t ts)"
    unfolding k by (rule successively_drop)
  moreover have "set (push_transition t ts) \<subseteq> insert t (set ts)"
    unfolding k using set_drop_subset [of k "ts @ [t]"] by auto
  moreover have "length (push_transition t ts) \<le> MAX_TRANSITIONS"
    using h length_push_transition [of t ts] by (auto simp: wf_history_def)
  ultimately show ?thesis
    using h t last_push_transition [of t ts] by (auto simp: wf_history_def)
qed

lemma wf_job_transition_to [claw_inv]:
  assumes "wf_job c"
  shows "wf_job (snd (transition_to n1 n2 ns r c))"
proof (cases "can_transition_to (state c) ns \<and> state c \<noteq> ns")
  case True
  let ?t = "\<lparr>st_from = state c, st_to = ns, st_timestamp = n1, st_reason = r\<rparr>"
  let ?d = "snd (transition_to n1 n2 ns r c)"
  have "wf_history (push_transition ?t (transitions c)) ns"
    using wf_history_push [of "transitions c" "state c" ?t] assms True by (auto simp: wf_job_def)
  then have "wf_history (transitions ?d) (state ?d)"
    using True by (auto simp: transition_to_def stamp_def Let_def)
  moreover have "state ?d \<notin> {Pending, Cancelled} \<longrightarrow> started_at ?d \<noteq> None"
    using assms True by (cases "state c"; cases ns) (auto simp: wf_job_def job_defs)
  moreover have "state ?d \<notin> {Pending, InProgress, Stuck} \<longrightarrow> completed_at ?d \<noteq> None"
    using assms True by (cases "state c"; cases ns) (auto simp: wf_job_def job_defs)
  ultimately show ?thesis by (simp add: wf_job_def)
qed (use assms in \<open>auto simp: transition_to_def\<close>)

lemma wf_job_with_user [claw_inv]: "wf_job (with_user f now u t d)"
  by (simp add: wf_job_def wf_history_def with_user_def)

lemma wf_job_frame:
  "wf_job (c\<lparr>total_tokens_used := a\<rparr>) = wf_job c" "wf_job (c\<lparr>actual_cost := b\<rparr>) = wf_job c"
  "wf_job (c\<lparr>repair_attempts := n\<rparr>) = wf_job c"
  by (simp_all add: wf_job_def)

subsection \<open>Runs of a job\<close>

text \<open>Every operation that changes a job context, as a step.\<close>

inductive job_step :: "('d::plus) job_context \<Rightarrow> 'd job_context \<Rightarrow> bool" where
  step_transition: "job_step c (snd (transition_to n1 n2 ns r c))"
| step_mark_stuck: "job_step c (snd (mark_stuck n1 n2 why c))"
| step_recover: "job_step c (snd (attempt_recovery n1 n2 c))"
| step_tokens: "job_step c (snd (add_tokens k c))"
| step_cost: "job_step c (add_cost x c)"

lemmas job_step_defs = mark_stuck_def attempt_recovery_def add_tokens_def add_cost_def

lemma wf_job_step [claw_inv]: "job_step c d \<Longrightarrow> wf_job c \<Longrightarrow> wf_job d"
  by (induction rule: job_step.induct)
     (auto simp: job_step_defs Let_def wf_job_frame intro!: wf_job_transition_to)

lemma job_step_blocking:
  "job_step c d \<Longrightarrow> is_parallel_blocking (state d) \<Longrightarrow> is_parallel_blocking (state c)"
  by (induction rule: job_step.induct)
     (auto simp: job_step_defs Let_def state_transition_to is_parallel_blocking_def
       split: if_splits dest: blocking_pred [unfolded is_parallel_blocking_def])

lemma job_step_terminal:
  "job_step c d \<Longrightarrow> is_terminal (state c) \<Longrightarrow>
     state d = state c \<and> transitions d = transitions c \<and>
     started_at d = started_at c \<and> completed_at d = completed_at c"
  by (induction rule: job_step.induct)
     (auto simp: job_step_defs Let_def transition_to_err can_transition_from_terminal is_terminal_def)

text \<open>
  A job that has been created and then driven by any sequence of operations has a transition
  history that is an unbroken chain of legal transitions ending in its current state, of at most
  200 entries, and carries a start time once it has run and a completion time once it has finished.
\<close>

theorem job_history_chain:
  assumes "job_step\<^sup>*\<^sup>* (with_user f now u t d) c"
  shows "wf_job c"
  using assms by (induction rule: rtranclp_induct) (auto intro: claw_inv)

theorem job_history_chain_witness:
  "wf_job (snd (transition_to 5 6 InProgress None (with_user 1 0 ''u'' ''t'' ''d'' :: int job_context)))"
  by (rule job_history_chain [of 1 0 "''u''" "''t''" "''d''"])
     (rule r_into_rtranclp, rule step_transition)

text \<open>
  Terminal states absorb: once a job is accepted, failed or cancelled, no sequence of
  operations changes its state, its history or its timestamps.
\<close>

theorem job_terminal_absorbing:
  assumes "job_step\<^sup>*\<^sup>* c d" and "is_terminal (state c)"
  shows "state d = state c \<and> transitions d = transitions c \<and>
    started_at d = started_at c \<and> completed_at d = completed_at c"
  using assms by (induction rule: rtranclp_induct) (auto dest!: job_step_terminal)

theorem job_terminal_absorbing_witness:
  "state (snd (attempt_recovery 7 8
      ((with_user 1 0 ''u'' ''t'' ''d'' :: int job_context)\<lparr>state := Failed\<rparr>))) = Failed"
  using job_terminal_absorbing [OF r_into_rtranclp, OF step_recover,
      of "(with_user 1 0 ''u'' ''t'' ''d'' :: int job_context)\<lparr>state := Failed\<rparr>" 7 8]
  by (simp add: is_terminal_def)

text \<open>
  The token budget: as long as the 64-bit counter does not overflow, recording tokens adds
  them exactly, and it reports the budget as exceeded exactly when a limit is configured and the
  new total is above it.
\<close>

theorem add_tokens_budget:
  assumes "unat (total_tokens_used c) + unat k < 2 ^ 64"
  shows "unat (total_tokens_used (snd (add_tokens k c))) = unat (total_tokens_used c) + unat k \<and>
    fst (add_tokens k c) =
      (if max_tokens c \<noteq> 0 \<and> unat (max_tokens c) < unat (total_tokens_used c) + unat k
       then Err \<lparr>tbe_used = total_tokens_used c + k, tbe_limit = max_tokens c\<rparr> else Ok ())"
  using assms
  by (auto simp: add_tokens_def Let_def unat_plus_no_wrap word_less_nat_alt unat_eq_zero)

theorem add_tokens_budget_witness:
  "fst (add_tokens 60 ((with_user 1 0 ''u'' ''t'' ''d'' :: int job_context)
      \<lparr>total_tokens_used := 50, max_tokens := 100\<rparr>))
   = Err \<lparr>tbe_used = 110, tbe_limit = 100\<rparr>"
  using add_tokens_budget
    [of "(with_user 1 0 ''u'' ''t'' ''d'' :: int job_context)\<lparr>total_tokens_used := 50, max_tokens := 100\<rparr>" 60]
  by simp

end
