(* ===== verification/Chat_Message.thy ===== *)
theory Chat_Message
  imports Claw_Prelude
begin

text \<open>
  The conversation vocabulary of \<open>src/llm/provider.rs\<close>: roles, multimodal parts, tool calls, chat
  messages and their constructors.
\<close>

datatype Role = System | User | Assistant | Tool

record image_url =
  iu_url :: string
  iu_detail :: "string option"

datatype content_part = Text string | ImageUrl image_url

record tool_call =
  tc_id :: string
  tc_name :: string
  tc_arguments :: json

record chat_message =
  role :: Role
  content :: string
  content_parts :: "content_part list"
  tool_call_id :: "string option"
  msg_name :: "string option"
  tool_calls :: "tool_call list option"

definition system_msg :: "string \<Rightarrow> chat_message" where
  "system_msg s = \<lparr>role = System, content = s, content_parts = [], tool_call_id = None,
     msg_name = None, tool_calls = None\<rparr>"

definition user_msg :: "string \<Rightarrow> chat_message" where
  "user_msg s = \<lparr>role = User, content = s, content_parts = [], tool_call_id = None,
     msg_name = None, tool_calls = None\<rparr>"

definition user_with_parts :: "string \<Rightarrow> content_part list \<Rightarrow> chat_message" where
  "user_with_parts s ps = \<lparr>role = User, content = s, content_parts = ps, tool_call_id = None,
     msg_name = None, tool_calls = None\<rparr>"

definition assistant_msg :: "string \<Rightarrow> chat_message" where
  "assistant_msg s = \<lparr>role = Assistant, content = s, content_parts = [], tool_call_id = None,
     msg_name = None, tool_calls = None\<rparr>"

definition assistant_with_tool_calls :: "string option \<Rightarrow> tool_call list \<Rightarrow> chat_message" where
  "assistant_with_tool_calls s tcs =
     \<lparr>role = Assistant, content = (case s of Some t \<Rightarrow> t | None \<Rightarrow> []), content_parts = [],
      tool_call_id = None, msg_name = None,
      tool_calls = (if tcs = [] then None else Some tcs)\<rparr>"

definition tool_result :: "string \<Rightarrow> string \<Rightarrow> string \<Rightarrow> chat_message" where
  "tool_result tid nm s = \<lparr>role = Tool, content = s, content_parts = [], tool_call_id = Some tid,
     msg_name = Some nm, tool_calls = None\<rparr>"

record tool_definition =
  td_name :: string
  td_description :: string
  td_parameters :: json

lemmas msg_defs [claw_defs] =
  system_msg_def user_msg_def user_with_parts_def assistant_msg_def
  assistant_with_tool_calls_def tool_result_def

end
