(* ===== verification/Job_Memory.thy ===== *)
theory Job_Memory
  imports Chat_Message
begin

text \<open>
  Per-job memory of \<open>src/context/memory.rs\<close>: action records, the bounded conversation, action
  sequence numbers and the totals over recorded actions. \<open>serde_json::to_string_pretty\<close> is a
  parameter of \<open>succeed\<close>. Lemmas: the trimming loop terminates within the bound, keeps a leading
  system message and the newest messages; sequence numbers are consecutive.
\<close>

subsection \<open>Action records\<close>

record 'd action_record =
  ar_id :: uuid
  sequence :: u32
  tool_name :: string
  input :: json
  output_raw :: "string option"
  output_sanitized :: "json option"
  sanitization_warnings :: "string list"
  cost :: "'d option"
  ar_duration :: duration
  success :: bool
  ar_error :: "string option"
  executed_at :: datetime

definition new_action :: "uuid \<Rightarrow> datetime \<Rightarrow> u32 \<Rightarrow> string \<Rightarrow> json \<Rightarrow> 'd action_record" where
  "new_action fresh now sq nm inp =
     \<lparr>ar_id = fresh, sequence = sq, tool_name = nm, input = inp, output_raw = None,
      output_sanitized = None, sanitization_warnings = [], cost = None, ar_duration = 0,
      success = False, ar_error = None, executed_at = now\<rparr>"

definition succeed ::
  "(json \<Rightarrow> string option) \<Rightarrow> string option \<Rightarrow> json \<Rightarrow> duration \<Rightarrow> 'd action_record \<Rightarrow> 'd action_record" where
  "succeed to_string_pretty sanitized raw dur a =
     a\<lparr>success := True,
       output_raw := Some (case to_string_pretty raw of Some s \<Rightarrow> s | None \<Rightarrow> []),
       output_sanitized := map_option JString sanitized,
       ar_duration := dur\<rparr>"

definition fail_action :: "string \<Rightarrow> duration \<Rightarrow> 'd action_record \<Rightarrow> 'd action_record" where
  "fail_action err dur a = a\<lparr>success := False, ar_error := Some err, ar_duration := dur\<rparr>"

definition with_warnings :: "string list \<Rightarrow> 'd action_record \<Rightarrow> 'd action_record" where
  "with_warnings ws a = a\<lparr>sanitization_warnings := ws\<rparr>"

definition with_cost :: "'d \<Rightarrow> 'd action_record \<Rightarrow> 'd action_record" where
  "with_cost x a = a\<lparr>cost := Some x\<rparr>"

subsection \<open>The bounded conversation\<close>

record conversation_memory =
  messages :: "chat_message list"
  max_messages :: nat

definition new_conversation :: "nat \<Rightarrow> conversation_memory" where
  "new_conversation n = \<lparr>messages = [], max_messages = n\<rparr>"

text \<open>The \<open>while\<close> loop of \<open>ConversationMemory::add\<close>: drop the oldest message that is not a leading
  system message until the bound holds, or only the system message is left.\<close>

function trim_messages :: "nat \<Rightarrow> chat_message list \<Rightarrow> chat_message list" where
  "trim_messages mx ms =
     (if mx < length ms then
        (case ms of
           [] \<Rightarrow> ms
         | m # rest \<Rightarrow>
             if role m = System
             then (if 1 < length ms then trim_messages mx (m # tl rest) else ms)
             else trim_messages mx rest)
      else ms)"
  by pat_completeness auto
termination
  by (relation "measure (\<lambda>(mx, ms). length ms)") auto

declare trim_messages.simps [simp del]

definition conv_add :: "chat_message \<Rightarrow> conversation_memory \<Rightarrow> conversation_memory" where
  "conv_add msg c = c\<lparr>messages := trim_messages (max_messages c) (messages c @ [msg])\<rparr>"

definition last_n :: "nat \<Rightarrow> conversation_memory \<Rightarrow> chat_message list" where
  "last_n n c = drop (length (messages c) - n) (messages c)"

definition clear_conversation :: "conversation_memory \<Rightarrow> conversation_memory" where
  "clear_conversation c = c\<lparr>messages := []\<rparr>"

definition conv_len :: "conversation_memory \<Rightarrow> nat" where
  "conv_len c = length (messages c)"

definition conv_is_empty :: "conversation_memory \<Rightarrow> bool" where
  "conv_is_empty c \<longleftrightarrow> messages c = []"

subsection \<open>Job memory\<close>

record 'd memory =
  mem_job_id :: uuid
  conversation :: conversation_memory
  actions :: "'d action_record list"
  next_sequence :: u32

definition new_memory :: "uuid \<Rightarrow> 'd memory" where
  "new_memory jid = \<lparr>mem_job_id = jid, conversation = new_conversation 100, actions = [], next_sequence = 0\<rparr>"

definition add_message :: "chat_message \<Rightarrow> 'd memory \<Rightarrow> 'd memory" where
  "add_message msg m = m\<lparr>conversation := conv_add msg (conversation m)\<rparr>"

definition create_action ::
  "uuid \<Rightarrow> datetime \<Rightarrow> string \<Rightarrow> json \<Rightarrow> 'd memory \<Rightarrow> 'd action_record \<times> 'd memory" where
  "create_action fresh now nm inp m =
     (let sq = next_sequence m in
      (new_action fresh now sq nm inp, m\<lparr>next_sequence := next_sequence m + 1\<rparr>))"

definition record_action :: "'d action_record \<Rightarrow> 'd memory \<Rightarrow> 'd memory" where
  "record_action a m = m\<lparr>actions := actions m @ [a]\<rparr>"

definition total_cost :: "('d::{zero,plus}) memory \<Rightarrow> 'd" where
  "total_cost m = foldl (\<lambda>acc c. acc + c) 0 (List.map_filter cost (actions m))"

definition total_duration :: "'d memory \<Rightarrow> duration" where
  "total_duration m = foldl (\<lambda>acc a. acc + ar_duration a) 0 (actions m)"

definition successful_actions :: "'d memory \<Rightarrow> nat" where
  "successful_actions m = length (filter success (actions m))"

definition failed_actions :: "'d memory \<Rightarrow> nat" where
  "failed_actions m = length (filter (\<lambda>a. \<not> success a) (actions m))"

definition last_action :: "'d memory \<Rightarrow> 'd action_record option" where
  "last_action m = (if actions m = [] then None else Some (last (actions m)))"

definition actions_by_tool :: "string \<Rightarrow> 'd memory \<Rightarrow> 'd action_record list" where
  "actions_by_tool nm m = filter (\<lambda>a. tool_name a = nm) (actions m)"

subsection \<open>The trimming loop\<close>

lemma trim_messages_short: "length ms \<le> mx \<Longrightarrow> trim_messages mx ms = ms"
  by (simp add: trim_messages.simps)

lemma trim_messages_user:
  "mx < length ms \<Longrightarrow> ms = m # rest \<Longrightarrow> role m \<noteq> System \<Longrightarrow> trim_messages mx ms = trim_messages mx rest"
  by (simp add: trim_messages.simps [of mx "m # rest"])

lemma trim_messages_system:
  "mx < length (m # rest) \<Longrightarrow> role m = System \<Longrightarrow>
     trim_messages mx (m # rest) = m # drop (Suc (length rest) - max 1 mx) rest"
proof (induction rest)
  case Nil
  then show ?case by (simp add: trim_messages.simps [of 0 "[m]"])
next
  case (Cons x rest)
  have unf: "trim_messages mx (m # x # rest) = trim_messages mx (m # rest)"
    using Cons.prems by (simp add: trim_messages.simps [of mx "m # x # rest"])
  show ?case
  proof (cases "mx < length (m # rest)")
    case True
    with Cons unf have "trim_messages mx (m # x # rest) = m # drop (Suc (length rest) - max 1 mx) rest"
      by simp
    moreover have "Suc (Suc (length rest)) - max 1 mx = Suc (Suc (length rest) - max 1 mx)"
      using True by auto
    ultimately show ?thesis by simp
  next
    case False
    with Cons.prems have "mx = Suc (length rest)" by simp
    with unf show ?thesis by (simp add: trim_messages_short max_def)
  qed
qed

lemma trim_messages_length: "length (trim_messages mx ms) \<le> max 1 mx"
proof (induction ms)
  case (Cons m rest)
  then show ?case
    by (cases "mx < length (m # rest)"; cases "role m = System")
       (auto simp: trim_messages_system trim_messages_user trim_messages_short)
qed (simp add: trim_messages_short)

lemma trim_messages_last:
  assumes "2 \<le> mx" "ms \<noteq> []"
  shows "trim_messages mx ms \<noteq> [] \<and> last (trim_messages mx ms) = last ms"
  using assms
proof (induction ms)
  case (Cons m rest)
  show ?case
  proof (cases "mx < length (m # rest)")
    case True
    with Cons.prems have "rest \<noteq> []" by auto
    moreover have "Suc (length rest) - max 1 mx < length rest" using True Cons.prems by auto
    ultimately show ?thesis using Cons True
      by (cases "role m = System") (auto simp: trim_messages_system trim_messages_user last_drop)
  qed (simp add: trim_messages_short)
qed simp

text \<open>
  Adding a message to a conversation with room for at least two messages keeps it within its
  bound, always retains the new message as the last one, and never evicts a leading system message.
\<close>

theorem conversation_add_bounded:
  assumes "2 \<le> max_messages c"
  shows "length (messages (conv_add msg c)) \<le> max_messages c \<and>
    messages (conv_add msg c) \<noteq> [] \<and> last (messages (conv_add msg c)) = msg \<and>
    (\<forall>m rest. messages c = m # rest \<longrightarrow> role m = System \<longrightarrow> hd (messages (conv_add msg c)) = m)"
proof -
  let ?ms = "messages c @ [msg]"
  have "hd (trim_messages (max_messages c) ?ms) = m"
    if "messages c = m # rest" "role m = System" for m rest
    using that trim_messages_system [of "max_messages c" m "rest @ [msg]"]
      trim_messages_short [of ?ms "max_messages c"]
    by (cases "max_messages c < length ?ms") auto
  moreover have "length (trim_messages (max_messages c) ?ms) \<le> max_messages c"
    using trim_messages_length [of "max_messages c" ?ms] assms by simp
  ultimately show ?thesis
    using trim_messages_last [of "max_messages c" ?ms] assms by (simp add: conv_add_def)
qed

theorem conversation_add_bounded_witness:
  "let c = \<lparr>messages = [system_msg ''s'', user_msg ''a''], max_messages = 2\<rparr>
   in last (messages (conv_add (user_msg ''b'') c)) = user_msg ''b'' \<and>
      hd (messages (conv_add (user_msg ''b'') c)) = system_msg ''s''"
  using conversation_add_bounded
    [of "\<lparr>messages = [system_msg ''s'', user_msg ''a''], max_messages = 2\<rparr>" "user_msg ''b''"]
  by (simp add: Let_def system_msg_def)

subsection \<open>Sequence numbers\<close>

text \<open>Creating actions one after the other, for a list of tool names.\<close>

fun create_actions :: "string list \<Rightarrow> 'd memory \<Rightarrow> 'd action_record list \<times> 'd memory" where
  "create_actions [] m = ([], m)"
| "create_actions (nm # nms) m =
     (let (a, m1) = create_action 0 0 nm JNull m; (as, m2) = create_actions nms m1 in (a # as, m2))"

lemma create_actions_sequence:
  "map sequence (fst (create_actions nms m)) = map (\<lambda>i. next_sequence m + of_nat i) [0..<length nms]"
proof (induction nms arbitrary: m)
  case (Cons nm nms)
  have "[0..<length (nm # nms)] = 0 # map Suc [0..<length nms]"
    by (simp add: upt_conv_Cons map_Suc_upt del: upt_Suc)
  then show ?case
    using Cons [of "m\<lparr>next_sequence := next_sequence m + 1\<rparr>"]
    by (auto simp: create_action_def new_action_def Let_def split_beta add.assoc)
qed simp

text \<open>
  The actions a fresh job memory creates carry the sequence numbers 0, 1, 2, \<dots>, which are
  pairwise distinct as long as fewer than 2^32 actions are created.
\<close>

theorem action_sequence_distinct:
  assumes "length nms < 2 ^ 32"
  shows "map (unat \<circ> sequence) (fst (create_actions nms (new_memory jid :: 'd memory))) = [0..<length nms] \<and>
    distinct (map sequence (fst (create_actions nms (new_memory jid :: 'd memory))))"
proof -
  let ?as = "fst (create_actions nms (new_memory jid :: 'd memory))"
  have s: "map sequence ?as = map of_nat [0..<length nms]"
    by (simp add: create_actions_sequence new_memory_def)
  have "map unat (map sequence ?as) = [0..<length nms]"
    unfolding s using assms by (auto simp: unat_of_nat intro!: nth_equalityI)
  moreover from this have "distinct (map sequence ?as)"
    by (metis distinct_map distinct_upt)
  ultimately show ?thesis by simp
qed

theorem action_sequence_distinct_witness:
  "distinct (map sequence (fst (create_actions [''a'', ''b''] (new_memory 7 :: int memory))))"
proof -
  have "length [''a'', ''b''] < 2 ^ 32" by simp
  from action_sequence_distinct [OF this] show ?thesis by blast
qed

end
