(* ===== verification/Context_Manager.thy ===== *)
theory Context_Manager
  imports Job_State Job_Memory
begin

text \<open>
  The job registry of \<open>src/context/manager.rs\<close>: a map of job contexts, a map of job memories and the
  limit on jobs that hold an execution slot. The two maps have separate locks, so an insertion and
  a removal are each two atomic phases (\<open>insert_phase\<close> then \<open>memory_phase\<close>; \<open>remove_phase\<close> then
  \<open>remove_memory_phase\<close>); the sequential operations compose the phases, and the step relation
  \<open>cm_step\<close> interleaves the phases of concurrent callers. Lemmas: the slot limit holds under every
  interleaving, the two maps agree when no call is in flight and calls do not overlap, the
  summaries count every job once.
\<close>

datatype JobError =
    NotFound uuid
  | InvalidTransition uuid string string
  | JobFailed uuid string
  | JobStuck uuid duration
  | MaxJobsExceeded nat
  | ContextError uuid string

record 'd context_manager =
  contexts :: "(uuid, 'd job_context) hmap"
  memories :: "(uuid, 'd memory) hmap"
  max_jobs :: nat

definition new_manager :: "nat \<Rightarrow> 'd context_manager" where
  "new_manager n = \<lparr>contexts = [], memories = [], max_jobs = n\<rparr>"

definition default_manager :: "'d context_manager" where
  "default_manager = new_manager 10"

definition parallel_count :: "'d context_manager \<Rightarrow> nat" where
  "parallel_count m = hm_count (\<lambda>c. is_parallel_blocking (state c)) (contexts m)"

text \<open>First phase of \<open>insert_context\<close>, under the write lock of the contexts.\<close>

definition insert_phase :: "'d job_context \<Rightarrow> 'd context_manager \<Rightarrow> (JobError, uuid) result \<times> 'd context_manager" where
  "insert_phase c m =
     (if max_jobs m \<le> parallel_count m then (Err (MaxJobsExceeded (max_jobs m)), m)
      else (Ok (job_id c), m\<lparr>contexts := AList.update (job_id c) c (contexts m)\<rparr>))"

text \<open>Second phase, under the write lock of the memories.\<close>

definition memory_phase :: "uuid \<Rightarrow> 'd context_manager \<Rightarrow> 'd context_manager" where
  "memory_phase jid m = m\<lparr>memories := AList.update jid (new_memory jid) (memories m)\<rparr>"

definition insert_context :: "'d job_context \<Rightarrow> 'd context_manager \<Rightarrow> (JobError, unit) result \<times> 'd context_manager" where
  "insert_context c m =
     (case insert_phase c m of
        (Inl e, m1) \<Rightarrow> (Err e, m1)
      | (Inr jid, m1) \<Rightarrow> (Ok (), memory_phase jid m1))"

definition create_job_for_user ::
  "uuid \<Rightarrow> datetime \<Rightarrow> string \<Rightarrow> string \<Rightarrow> string \<Rightarrow> ('d::zero) context_manager
    \<Rightarrow> (JobError, uuid) result \<times> 'd context_manager" where
  "create_job_for_user fresh now uid ttl descr m =
     (let c = with_user fresh now uid ttl descr; jid = job_id c in
      case insert_context c m of
        (Inl e, m1) \<Rightarrow> (Err e, m1)
      | (Inr _, m1) \<Rightarrow> (Ok jid, m1))"

definition create_job ::
  "uuid \<Rightarrow> datetime \<Rightarrow> string \<Rightarrow> string \<Rightarrow> ('d::zero) context_manager
    \<Rightarrow> (JobError, uuid) result \<times> 'd context_manager" where
  "create_job fresh now ttl descr m = create_job_for_user fresh now ''default'' ttl descr m"

definition sandbox_context ::
  "uuid \<Rightarrow> uuid \<Rightarrow> datetime \<Rightarrow> datetime \<Rightarrow> string \<Rightarrow> string \<Rightarrow> string \<Rightarrow> ('d::zero) job_context" where
  "sandbox_context jid fresh now1 now2 uid ttl descr =
     (with_user fresh now1 uid ttl descr)\<lparr>job_id := jid, state := InProgress, started_at := Some now2\<rparr>"

definition register_sandbox_job ::
  "uuid \<Rightarrow> uuid \<Rightarrow> datetime \<Rightarrow> datetime \<Rightarrow> string \<Rightarrow> string \<Rightarrow> string \<Rightarrow> ('d::zero) context_manager
    \<Rightarrow> (JobError, unit) result \<times> 'd context_manager" where
  "register_sandbox_job jid fresh now1 now2 uid ttl descr m =
     insert_context (sandbox_context jid fresh now1 now2 uid ttl descr) m"

definition get_context :: "uuid \<Rightarrow> 'd context_manager \<Rightarrow> (JobError, 'd job_context) result" where
  "get_context jid m = (case map_of (contexts m) jid of Some c \<Rightarrow> Ok c | None \<Rightarrow> Err (NotFound jid))"

text \<open>The closure of \<open>update_context\<close> returns a value and the changed context.\<close>

definition update_context ::
  "uuid \<Rightarrow> ('d job_context \<Rightarrow> 'r \<times> 'd job_context) \<Rightarrow> 'd context_manager
    \<Rightarrow> (JobError, 'r) result \<times> 'd context_manager" where
  "update_context jid f m =
     (case map_of (contexts m) jid of
        None \<Rightarrow> (Err (NotFound jid), m)
      | Some c \<Rightarrow> let (r, c') = f c in (Ok r, m\<lparr>contexts := AList.update jid c' (contexts m)\<rparr>))"

definition update_context_and_get ::
  "uuid \<Rightarrow> ('d job_context \<Rightarrow> 'd job_context) \<Rightarrow> 'd context_manager
    \<Rightarrow> (JobError, 'd job_context) result \<times> 'd context_manager" where
  "update_context_and_get jid f m =
     (case map_of (contexts m) jid of
        None \<Rightarrow> (Err (NotFound jid), m)
      | Some c \<Rightarrow> (Ok (f c), m\<lparr>contexts := AList.update jid (f c) (contexts m)\<rparr>))"

definition get_memory :: "uuid \<Rightarrow> 'd context_manager \<Rightarrow> (JobError, 'd memory) result" where
  "get_memory jid m = (case map_of (memories m) jid of Some x \<Rightarrow> Ok x | None \<Rightarrow> Err (NotFound jid))"

definition update_memory ::
  "uuid \<Rightarrow> ('d memory \<Rightarrow> 'r \<times> 'd memory) \<Rightarrow> 'd context_manager
    \<Rightarrow> (JobError, 'r) result \<times> 'd context_manager" where
  "update_memory jid f m =
     (case map_of (memories m) jid of
        None \<Rightarrow> (Err (NotFound jid), m)
      | Some x \<Rightarrow> let (r, x') = f x in (Ok r, m\<lparr>memories := AList.update jid x' (memories m)\<rparr>))"

definition active_jobs :: "'d context_manager \<Rightarrow> uuid list" where
  "active_jobs m = map fst (filter (\<lambda>(_, c). is_active (state c)) (contexts m))"

definition all_jobs :: "'d context_manager \<Rightarrow> uuid list" where
  "all_jobs m = map fst (contexts m)"

definition active_jobs_for :: "string \<Rightarrow> 'd context_manager \<Rightarrow> uuid list" where
  "active_jobs_for uid m =
     map fst (filter (\<lambda>(_, c). user_id c = uid \<and> is_active (state c)) (contexts m))"

definition all_jobs_for :: "string \<Rightarrow> 'd context_manager \<Rightarrow> uuid list" where
  "all_jobs_for uid m = map fst (filter (\<lambda>(_, c). user_id c = uid) (contexts m))"

definition active_count :: "'d context_manager \<Rightarrow> nat" where
  "active_count m = hm_count (\<lambda>c. is_active (state c)) (contexts m)"

text \<open>The two phases of \<open>remove_job\<close>, each under one write lock.\<close>

definition remove_phase :: "uuid \<Rightarrow> 'd context_manager \<Rightarrow> (JobError, 'd job_context) result \<times> 'd context_manager" where
  "remove_phase jid m =
     (case map_of (contexts m) jid of
        None \<Rightarrow> (Err (NotFound jid), m)
      | Some c \<Rightarrow> (Ok c, m\<lparr>contexts := AList.delete jid (contexts m)\<rparr>))"

definition remove_memory_phase :: "uuid \<Rightarrow> 'd context_manager \<Rightarrow> (JobError, 'd memory) result \<times> 'd context_manager" where
  "remove_memory_phase jid m =
     (case map_of (memories m) jid of
        None \<Rightarrow> (Err (NotFound jid), m)
      | Some x \<Rightarrow> (Ok x, m\<lparr>memories := AList.delete jid (memories m)\<rparr>))"

definition remove_job ::
  "uuid \<Rightarrow> 'd context_manager \<Rightarrow> (JobError, 'd job_context \<times> 'd memory) result \<times> 'd context_manager" where
  "remove_job jid m =
     (case remove_phase jid m of
        (Inl e, m1) \<Rightarrow> (Err e, m1)
      | (Inr c, m1) \<Rightarrow>
          (case remove_memory_phase jid m1 of
             (Inl e, m2) \<Rightarrow> (Err e, m2)
           | (Inr x, m2) \<Rightarrow> (Ok (c, x), m2)))"

definition looks_stuck :: "datetime \<Rightarrow> duration option \<Rightarrow> 'd job_context \<Rightarrow> bool" where
  "looks_stuck now threshold c =
     (if state c = Stuck then True
      else case (threshold, started_at c) of
        (Some th, Some started) \<Rightarrow>
          state c = InProgress \<and> th div NANOS_PER_SEC < nat (max (num_seconds (now - started)) 0)
      | _ \<Rightarrow> False)"

definition find_stuck_jobs_with_threshold :: "datetime \<Rightarrow> duration option \<Rightarrow> 'd context_manager \<Rightarrow> uuid list" where
  "find_stuck_jobs_with_threshold now th m = map fst (filter (\<lambda>(_, c). looks_stuck now th c) (contexts m))"

definition find_stuck_jobs :: "datetime \<Rightarrow> 'd context_manager \<Rightarrow> uuid list" where
  "find_stuck_jobs now m = find_stuck_jobs_with_threshold now None m"

subsection \<open>Summaries\<close>

record context_summary =
  total :: nat
  n_pending :: nat
  n_in_progress :: nat
  n_completed :: nat
  n_submitted :: nat
  n_accepted :: nat
  n_failed :: nat
  n_stuck :: nat
  n_cancelled :: nat

definition empty_summary :: context_summary where
  "empty_summary = \<lparr>total = 0, n_pending = 0, n_in_progress = 0, n_completed = 0, n_submitted = 0,
     n_accepted = 0, n_failed = 0, n_stuck = 0, n_cancelled = 0\<rparr>"

fun count_state :: "JobState \<Rightarrow> context_summary \<Rightarrow> context_summary" where
  "count_state Pending s = s\<lparr>n_pending := n_pending s + 1\<rparr>"
| "count_state InProgress s = s\<lparr>n_in_progress := n_in_progress s + 1\<rparr>"
| "count_state Completed s = s\<lparr>n_completed := n_completed s + 1\<rparr>"
| "count_state Submitted s = s\<lparr>n_submitted := n_submitted s + 1\<rparr>"
| "count_state Accepted s = s\<lparr>n_accepted := n_accepted s + 1\<rparr>"
| "count_state Failed s = s\<lparr>n_failed := n_failed s + 1\<rparr>"
| "count_state Stuck s = s\<lparr>n_stuck := n_stuck s + 1\<rparr>"
| "count_state Cancelled s = s\<lparr>n_cancelled := n_cancelled s + 1\<rparr>"

definition count_states :: "'d job_context list \<Rightarrow> context_summary" where
  "count_states cs = foldl (\<lambda>s c. count_state (state c) s) empty_summary cs"

definition summary :: "'d context_manager \<Rightarrow> context_summary" where
  "summary m = (count_states (map snd (contexts m)))\<lparr>total := length (contexts m)\<rparr>"

definition buckets :: "context_summary \<Rightarrow> nat" where
  "buckets s = n_pending s + n_in_progress s + n_completed s + n_submitted s + n_accepted s
     + n_failed s + n_stuck s + n_cancelled s"

definition summary_for :: "string \<Rightarrow> 'd context_manager \<Rightarrow> context_summary" where
  "summary_for uid m =
     (let s = count_states (filter (\<lambda>c. user_id c = uid) (map snd (contexts m)))
      in s\<lparr>total := buckets s\<rparr>)"

lemmas cm_defs [claw_defs] =
  insert_phase_def memory_phase_def insert_context_def remove_phase_def remove_memory_phase_def
  remove_job_def update_context_def update_context_and_get_def update_memory_def

subsection \<open>The slot limit under interleaving\<close>

text \<open>
  The registry invariant: distinct keys, every context well formed and stored under its own
  identifier, and no more slot-holding jobs than the limit.
\<close>

definition cm_wf :: "'d context_manager \<Rightarrow> bool" where
  "cm_wf m \<longleftrightarrow> hm_wf (contexts m) \<and> hm_wf (memories m) \<and>
     (\<forall>jid c. map_of (contexts m) jid = Some c \<longrightarrow> job_id c = jid \<and> wf_job c) \<and>
     parallel_count m \<le> max_jobs m"

text \<open>What a concurrent caller still has to do after it released the first lock.\<close>

datatype pending = PendMemory uuid | PendRemove uuid

inductive fresh_context :: "('d::zero) job_context \<Rightarrow> bool" where
  fresh_user: "fresh_context (with_user f now u t d)"
| fresh_sandbox: "fresh_context (sandbox_context jid f n1 n2 u t d)"

inductive cm_step ::
  "('d::{zero,plus}) context_manager \<times> pending list \<Rightarrow> 'd context_manager \<times> pending list \<Rightarrow> bool" where
  cm_insert: "fresh_context c \<Longrightarrow> insert_phase c m = (Ok jid, m') \<Longrightarrow> cm_step (m, ps) (m', PendMemory jid # ps)"
| cm_insert_full: "fresh_context c \<Longrightarrow> insert_phase c m = (Err e, m') \<Longrightarrow> cm_step (m, ps) (m', ps)"
| cm_memory: "PendMemory jid \<in> set ps \<Longrightarrow> cm_step (m, ps) (memory_phase jid m, remove1 (PendMemory jid) ps)"
| cm_remove: "remove_phase jid m = (Ok c, m') \<Longrightarrow> cm_step (m, ps) (m', PendRemove jid # ps)"
| cm_remove_memory: "PendRemove jid \<in> set ps \<Longrightarrow>
    cm_step (m, ps) (snd (remove_memory_phase jid m), remove1 (PendRemove jid) ps)"
| cm_update: "map_of (contexts m) jid = Some c \<Longrightarrow> job_step c d \<Longrightarrow>
    cm_step (m, ps) (snd (update_context jid (\<lambda>_. ((), d)) m), ps)"
| cm_update_memory: "cm_step (m, ps) (snd (update_memory jid (\<lambda>x. ((), g x)) m), ps)"

lemma fresh_context_wf: "fresh_context c \<Longrightarrow> wf_job c"
  by (induction rule: fresh_context.induct)
     (auto intro: wf_job_with_user simp: wf_job_def wf_history_def sandbox_context_def with_user_def)

lemma cm_wf_new: "cm_wf (new_manager n)"
  by (simp add: cm_wf_def new_manager_def parallel_count_def)

lemma cm_wf_set_context:
  assumes "cm_wf m" "wf_job c"
    and slot: "is_parallel_blocking (state c) \<longrightarrow> parallel_count m < max_jobs m \<or>
      (\<exists>c0. map_of (contexts m) (job_id c) = Some c0 \<and> is_parallel_blocking (state c0))"
  shows "cm_wf (m\<lparr>contexts := AList.update (job_id c) c (contexts m)\<rparr>)"
proof -
  have "hm_count (\<lambda>c. is_parallel_blocking (state c)) (AList.update (job_id c) c (contexts m)) \<le> max_jobs m"
    using hm_count_update [of "contexts m" "\<lambda>c. is_parallel_blocking (state c)" "job_id c" c] assms
    by (auto simp: cm_wf_def parallel_count_def split: option.splits if_splits)
  with assms show ?thesis
    by (auto simp: cm_wf_def parallel_count_def distinct_update update_conv')
qed

lemma cm_wf_memories: "cm_wf m \<Longrightarrow> hm_wf ms \<Longrightarrow> cm_wf (m\<lparr>memories := ms\<rparr>)"
  by (simp add: cm_wf_def parallel_count_def)

lemma cm_wf_delete_context: "cm_wf m \<Longrightarrow> cm_wf (m\<lparr>contexts := AList.delete jid (contexts m)\<rparr>)"
  using hm_count_delete [of "contexts m" "\<lambda>c. is_parallel_blocking (state c)" jid]
  by (auto simp: cm_wf_def parallel_count_def distinct_delete delete_conv' split: if_splits)

lemma insert_phase_wf [claw_inv]:
  "cm_wf m \<Longrightarrow> wf_job c \<Longrightarrow> cm_wf (snd (insert_phase c m))"
  by (auto simp: insert_phase_def intro!: cm_wf_set_context)

lemma memory_phase_wf [claw_inv]: "cm_wf m \<Longrightarrow> cm_wf (memory_phase jid m)"
  by (auto simp: memory_phase_def distinct_update cm_wf_def parallel_count_def)

lemma remove_phase_wf [claw_inv]: "cm_wf m \<Longrightarrow> cm_wf (snd (remove_phase jid m))"
  by (auto simp: remove_phase_def cm_wf_delete_context split: option.split)

lemma remove_memory_phase_wf [claw_inv]: "cm_wf m \<Longrightarrow> cm_wf (snd (remove_memory_phase jid m))"
  by (auto simp: remove_memory_phase_def distinct_delete cm_wf_def parallel_count_def split: option.split)

lemma job_step_job_id: "job_step c d \<Longrightarrow> job_id d = job_id c"
  by (induction rule: job_step.induct) (auto simp: job_step_defs Let_def)

lemma update_context_wf [claw_inv]:
  assumes "cm_wf m" "map_of (contexts m) jid = Some c" "job_step c d"
  shows "cm_wf (snd (update_context jid (\<lambda>_. (r, d)) m))"
proof -
  have "job_id d = jid" "wf_job d"
    using assms job_step_job_id wf_job_step by (fastforce simp: cm_wf_def)+
  moreover have "is_parallel_blocking (state d) \<longrightarrow> is_parallel_blocking (state c)"
    using job_step_blocking assms(3) by blast
  ultimately show ?thesis
    using cm_wf_set_context [of m d] assms by (auto simp: update_context_def)
qed

lemma update_memory_wf [claw_inv]: "cm_wf m \<Longrightarrow> cm_wf (snd (update_memory jid g m))"
  by (auto simp: update_memory_def Let_def split_beta distinct_update cm_wf_def parallel_count_def
      split: option.split)

lemma cm_step_wf: "cm_step x y \<Longrightarrow> cm_wf (fst x) \<Longrightarrow> cm_wf (fst y)"
  by (induction rule: cm_step.induct)
     (auto intro: claw_inv fresh_context_wf dest: insert_phase_wf [OF _ fresh_context_wf] remove_phase_wf,
      (metis claw_inv fresh_context_wf snd_conv)+)

lemma cm_step_max_jobs: "cm_step x y \<Longrightarrow> max_jobs (fst y) = max_jobs (fst x)"
  by (induction rule: cm_step.induct)
     (auto simp: cm_defs Let_def split_beta split: if_splits option.splits)

text \<open>
  C1: The job limit is never exceeded: whatever way concurrent callers interleave the phases of job
  creation, sandbox registration, removal and context updates, the number of jobs that hold an
  execution slot (pending, in progress or stuck) never exceeds the limit the manager was created
  with, and every stored context keeps the job invariant under its own identifier.
\<close>

theorem slot_limit_interleaved:
  assumes "cm_step\<^sup>*\<^sup>* (new_manager n, []) (m, ps)"
  shows "parallel_count m \<le> n \<and>
    (\<forall>jid c. map_of (contexts m) jid = Some c \<longrightarrow> job_id c = jid \<and> wf_job c)"
proof -
  have "cm_wf (fst y) \<and> max_jobs (fst y) = n" if "cm_step\<^sup>*\<^sup>* (new_manager n, []) y" for y
    using that
    by (induction rule: rtranclp_induct)
       (auto simp: cm_wf_new new_manager_def cm_step_max_jobs
         intro: cm_step_wf cm_wf_new [unfolded new_manager_def])
  from this [OF assms] show ?thesis by (auto simp: cm_wf_def)
qed

theorem slot_limit_interleaved_witness:
  "parallel_count (snd (insert_phase (with_user 1 0 ''u'' ''t'' ''d'') (new_manager 1 :: int context_manager))) \<le> 1"
proof -
  let ?m = "new_manager 1 :: int context_manager"
  let ?c = "with_user 1 0 ''u'' ''t'' ''d'' :: int job_context"
  have "insert_phase ?c ?m = (Ok 1, snd (insert_phase ?c ?m))"
    by (simp add: insert_phase_def new_manager_def parallel_count_def with_user_def)
  then have "cm_step (?m, []) (snd (insert_phase ?c ?m), [PendMemory 1])"
    by (rule cm_insert [OF fresh_user])
  then have "cm_step\<^sup>*\<^sup>* (?m, []) (snd (insert_phase ?c ?m), [PendMemory 1])" by blast
  from slot_limit_interleaved [OF this] show ?thesis by blast
qed

text \<open>
  The two maps can come apart under concurrency: a removal that runs between the two phases of
  a creation finds the context but not the memory, so it reports an error although it has removed
  the context, and the creation then stores a memory for a job that no longer exists. With no call
  in flight, that memory is left behind.
\<close>

theorem concurrent_remove_orphans_memory:
  "\<exists>m. cm_step\<^sup>*\<^sup>* (new_manager 1 :: int context_manager, []) (m, []) \<and>
    map_of (contexts m) 1 = None \<and> map_of (memories m) 1 \<noteq> None"
proof -
  let ?c = "with_user 1 0 ''u'' ''t'' ''d'' :: int job_context"
  let ?m0 = "new_manager 1 :: int context_manager"
  let ?m1 = "?m0\<lparr>contexts := [(1, ?c)]\<rparr>"
  let ?m3 = "memory_phase 1 ?m0"
  have "insert_phase ?c ?m0 = (Ok 1, ?m1)"
    by (simp add: insert_phase_def new_manager_def parallel_count_def with_user_def)
  then have a: "cm_step (?m0, []) (?m1, [PendMemory 1])" by (rule cm_insert [OF fresh_user])
  have "remove_phase 1 ?m1 = (Ok ?c, ?m0)" by (simp add: remove_phase_def new_manager_def)
  then have b: "cm_step (?m1, [PendMemory 1]) (?m0, [PendRemove 1, PendMemory 1])" by (rule cm_remove)
  have c: "cm_step (?m0, [PendRemove 1, PendMemory 1]) (?m0, [PendMemory 1])"
    using cm_remove_memory [of 1 "[PendRemove 1, PendMemory 1]" ?m0]
    by (simp add: remove_memory_phase_def new_manager_def)
  have d: "cm_step (?m0, [PendMemory 1]) (?m3, [])"
    using cm_memory [of 1 "[PendMemory 1]" ?m0] by simp
  from a b c d have "cm_step\<^sup>*\<^sup>* (?m0, []) (?m3, [])"
    by (meson converse_rtranclp_into_rtranclp rtranclp.rtrancl_refl)
  then show ?thesis by (intro exI [of _ ?m3]) (simp add: memory_phase_def new_manager_def)
qed

subsection \<open>Sequential use\<close>

text \<open>Complete operations, one after the other.\<close>

inductive cm_op :: "('d::{zero,plus}) context_manager \<Rightarrow> 'd context_manager \<Rightarrow> bool" where
  op_create: "cm_op m (snd (create_job_for_user f now u t d m))"
| op_sandbox: "cm_op m (snd (register_sandbox_job jid f n1 n2 u t d m))"
| op_remove: "cm_op m (snd (remove_job jid m))"
| op_update: "(\<And>c. job_step c (g c)) \<Longrightarrow> cm_op m (snd (update_context_and_get jid g m))"
| op_update_memory: "cm_op m (snd (update_memory jid (\<lambda>x. ((), h x)) m))"

definition maps_agree :: "'d context_manager \<Rightarrow> bool" where
  "maps_agree m \<longleftrightarrow> dom (map_of (contexts m)) = dom (map_of (memories m))"

lemma maps_agree_new: "maps_agree (new_manager n)"
  by (simp add: maps_agree_def new_manager_def)

lemma insert_context_agree: "maps_agree m \<Longrightarrow> maps_agree (snd (insert_context c m))"
  by (simp add: maps_agree_def insert_context_def insert_phase_def memory_phase_def hm.dom_insert)

lemma remove_job_agree: "maps_agree m \<Longrightarrow> maps_agree (snd (remove_job jid m))"
  by (auto simp: maps_agree_def cm_defs hm.dom_remove split: option.splits)

lemma cm_op_agree: "cm_op m m' \<Longrightarrow> maps_agree m \<Longrightarrow> maps_agree m'"
proof (induction rule: cm_op.induct)
  case (op_create m f now u t d)
  then show ?case
    using insert_context_agree [of m "with_user f now u t d"]
    by (auto simp: create_job_for_user_def Let_def split: prod.splits sum.splits)
next
  case (op_update g m jid)
  then show ?case
    by (auto simp: maps_agree_def update_context_and_get_def hm.dom_insert split: option.splits)
next
  case (op_update_memory m jid h)
  then show ?case
    by (auto simp: maps_agree_def update_memory_def hm.dom_insert Let_def split: option.splits)
qed (auto simp: register_sandbox_job_def intro: insert_context_agree remove_job_agree)

text \<open>
  Used by one caller at a time, the registry keeps one memory per job and no other: after any
  sequence of operations the two maps have the same keys, so removing a job succeeds exactly when
  the job is present, and afterwards neither map knows it.
\<close>

theorem sequential_maps_agree:
  assumes "cm_op\<^sup>*\<^sup>* (new_manager n) m"
  shows "(is_ok (fst (remove_job jid m)) \<longleftrightarrow> map_of (contexts m) jid \<noteq> None) \<and>
    map_of (contexts (snd (remove_job jid m))) jid = None \<and>
    map_of (memories (snd (remove_job jid m))) jid = None"
proof -
  from assms have "maps_agree m"
    by (induction rule: rtranclp_induct) (auto intro: cm_op_agree maps_agree_new)
  then have "map_of (contexts m) jid = None \<longleftrightarrow> map_of (memories m) jid = None"
    unfolding maps_agree_def by (metis domIff)
  then show ?thesis
    by (auto simp: cm_defs delete_conv' split: option.splits)
qed

theorem sequential_maps_agree_witness:
  "map_of (memories (snd (remove_job 3 (snd (create_job_for_user 3 0 ''u'' ''t'' ''d''
      (new_manager 2 :: int context_manager)))))) 3 = None"
  using sequential_maps_agree [OF r_into_rtranclp, OF op_create] by blast

subsection \<open>Stuck detection and summaries\<close>

lemma in_filtered_keys:
  "hm_wf al \<Longrightarrow> k \<in> set (map fst (filter (\<lambda>(_, v). P v) al)) \<longleftrightarrow> (\<exists>v. map_of al k = Some v \<and> P v)"
  by (force simp: map_of_eq_Some_iff)

lemma looks_stuck_iff:
  "looks_stuck now th c \<longleftrightarrow> state c = Stuck \<or>
     (state c = InProgress \<and> (\<exists>t s. th = Some t \<and> started_at c = Some s \<and>
        int (t div NANOS_PER_SEC) < num_seconds (now - s)))"
  by (auto simp: looks_stuck_def zless_nat_eq_int_zless split: option.splits)

text \<open>
  Stuck detection reports exactly the jobs whose state is stuck and, when a threshold is given,
  the running jobs whose whole seconds since the first start exceed the threshold's whole seconds.
\<close>

theorem find_stuck_exact:
  assumes "cm_wf m"
  shows "jid \<in> set (find_stuck_jobs_with_threshold now th m) \<longleftrightarrow>
    (\<exists>c. map_of (contexts m) jid = Some c \<and>
       (state c = Stuck \<or>
        (state c = InProgress \<and> (\<exists>t s. th = Some t \<and> started_at c = Some s \<and>
           int (t div NANOS_PER_SEC) < num_seconds (now - s)))))"
proof -
  have "hm_wf (contexts m)" using assms by (simp add: cm_wf_def)
  then show ?thesis
    by (simp add: find_stuck_jobs_with_threshold_def in_filtered_keys looks_stuck_iff del: set_map)
qed

theorem find_stuck_exact_witness:
  "1 \<in> set (find_stuck_jobs_with_threshold 9000000000 (Some (secs 5))
     ((new_manager 2 :: int context_manager)\<lparr>contexts :=
        [(1, sandbox_context 1 2 0 0 ''u'' ''t'' ''d'')]\<rparr>))"
proof -
  let ?m = "(new_manager 2 :: int context_manager)\<lparr>contexts := [(1, sandbox_context 1 2 0 0 ''u'' ''t'' ''d'')]\<rparr>"
  have "cm_wf ?m"
    using fresh_context_wf [OF fresh_sandbox [of 1 2 0 0 "''u''" "''t''" "''d''"]]
    by (auto simp: cm_wf_def new_manager_def parallel_count_def hm_count_Cons sandbox_context_def)
  from find_stuck_exact [OF this, of 1 9000000000 "Some (secs 5)"] show ?thesis
    by (simp add: new_manager_def sandbox_context_def num_seconds_def)
qed

lemma buckets_count_state: "buckets (count_state s acc) = Suc (buckets acc)"
  by (cases s) (simp_all add: buckets_def)

lemma count_states_fold:
  "buckets (foldl (\<lambda>s c. count_state (state c) s) acc cs) = buckets acc + length cs \<and>
   n_pending (foldl (\<lambda>s c. count_state (state c) s) acc cs)
     + n_in_progress (foldl (\<lambda>s c. count_state (state c) s) acc cs)
     + n_stuck (foldl (\<lambda>s c. count_state (state c) s) acc cs)
   = n_pending acc + n_in_progress acc + n_stuck acc + length (filter (\<lambda>c. is_parallel_blocking (state c)) cs)"
proof (induction cs arbitrary: acc)
  case (Cons c cs)
  have "n_pending (count_state s acc) + n_in_progress (count_state s acc) + n_stuck (count_state s acc)
      = n_pending acc + n_in_progress acc + n_stuck acc + (if is_parallel_blocking s then 1 else 0)" for s
    by (cases s) (auto simp: is_parallel_blocking_def)
  with Cons [of "count_state (state c) acc"] show ?case by (simp add: buckets_count_state)
qed (simp add: buckets_def)

text \<open>
  The summary counts every job exactly once: its eight state counters add up to its total, the
  total is the number of jobs, and the pending, in-progress and stuck counters add up to the number
  of occupied slots. The per-user summary's total is the number of that user's jobs.
\<close>

theorem summary_counts:
  "buckets (summary m) = total (summary m) \<and> total (summary m) = length (all_jobs m) \<and>
   n_pending (summary m) + n_in_progress (summary m) + n_stuck (summary m) = parallel_count m \<and>
   total (summary_for uid m) = length (all_jobs_for uid m)"
proof -
  have b: "buckets (s\<lparr>total := k\<rparr>) = buckets s" for s :: context_summary and k
    by (simp add: buckets_def)
  have "length (all_jobs_for uid m) = length (filter (\<lambda>c. user_id c = uid) (map snd (contexts m)))"
    by (simp add: all_jobs_for_def filter_map comp_def case_prod_unfold)
  then show ?thesis
    using count_states_fold [of empty_summary "map snd (contexts m)"]
      count_states_fold [of empty_summary "filter (\<lambda>c. user_id c = uid) (map snd (contexts m))"]
    by (simp add: summary_def summary_for_def count_states_def b Let_def all_jobs_def
        parallel_count_def hm_count_def empty_summary_def buckets_def)
qed

end
