(* ===== verification/Session_Thread.thy ===== *)
theory Session_Thread
  imports Chat_Message
begin

text \<open>
  Sessions, threads and turns of \<open>src/agent/session.rs\<close>, with \<open>truncate_preview\<close> of
  \<open>src/channels/web/util.rs\<close>. Fresh identifiers and clock readings are arguments (the readings that
  the restore loop takes are a sequence \<open>clk\<close>); the textual form of a non-string JSON value
  (\<open>Value::to_string\<close> of \<open>serde_json\<close>) is the parameter \<open>js\<close>. Lemmas: the thread invariant under
  every operation, the round trip between a thread and the message list the model sees, the bound
  on previews, the session's active thread.
\<close>

subsection \<open>Previews\<close>

definition truncate_preview :: "string \<Rightarrow> nat \<Rightarrow> string" where
  "truncate_preview s max_bytes =
     (if length s \<le> max_bytes then s
      else let fin = back_to_boundary s max_bytes;
               res = take fin s @ ''...''
           in if starts_with s ''<tool_output'' \<and> \<not> ends_with res ''</tool_output>''
              then res @ [CHR 0x0A] @ ''</tool_output>'' else res)"

subsection \<open>Turns\<close>

datatype TurnState = TurnProcessing | TurnCompleted | TurnFailed | TurnInterrupted

record turn_tool_call =
  ttc_name :: string
  ttc_parameters :: json
  ttc_result :: "json option"
  ttc_error :: "string option"

record turn =
  turn_number :: nat
  user_input :: string
  response :: "string option"
  turn_calls :: "turn_tool_call list"
  turn_state :: TurnState
  turn_started_at :: datetime
  turn_completed_at :: "datetime option"
  turn_error :: "string option"
  image_content_parts :: "content_part list"

definition new_turn :: "datetime \<Rightarrow> nat \<Rightarrow> string \<Rightarrow> turn" where
  "new_turn now n inp =
     \<lparr>turn_number = n, user_input = inp, response = None, turn_calls = [], turn_state = TurnProcessing,
      turn_started_at = now, turn_completed_at = None, turn_error = None, image_content_parts = []\<rparr>"

definition complete :: "datetime \<Rightarrow> string \<Rightarrow> turn \<Rightarrow> turn" where
  "complete now resp t = t\<lparr>response := Some resp, turn_state := TurnCompleted,
     turn_completed_at := Some now, image_content_parts := []\<rparr>"

definition fail_turn_state :: "datetime \<Rightarrow> string \<Rightarrow> turn \<Rightarrow> turn" where
  "fail_turn_state now err t = t\<lparr>turn_error := Some err, turn_state := TurnFailed,
     turn_completed_at := Some now, image_content_parts := []\<rparr>"

definition interrupt_turn :: "datetime \<Rightarrow> turn \<Rightarrow> turn" where
  "interrupt_turn now t = t\<lparr>turn_state := TurnInterrupted, turn_completed_at := Some now,
     image_content_parts := []\<rparr>"

definition new_call :: "string \<Rightarrow> json \<Rightarrow> turn_tool_call" where
  "new_call nm params = \<lparr>ttc_name = nm, ttc_parameters = params, ttc_result = None, ttc_error = None\<rparr>"

definition record_tool_call :: "string \<Rightarrow> json \<Rightarrow> turn \<Rightarrow> turn" where
  "record_tool_call nm params t = t\<lparr>turn_calls := turn_calls t @ [new_call nm params]\<rparr>"

text \<open>\<open>if let Some(x) = xs.last_mut()\<close>: change the last element, if there is one.\<close>

definition update_last :: "('a \<Rightarrow> 'a) \<Rightarrow> 'a list \<Rightarrow> 'a list" where
  "update_last f xs = (if xs = [] then [] else butlast xs @ [f (last xs)])"

definition record_tool_result :: "json \<Rightarrow> turn \<Rightarrow> turn" where
  "record_tool_result r t = t\<lparr>turn_calls := update_last (\<lambda>c. c\<lparr>ttc_result := Some r\<rparr>) (turn_calls t)\<rparr>"

definition record_tool_error :: "string \<Rightarrow> turn \<Rightarrow> turn" where
  "record_tool_error e t = t\<lparr>turn_calls := update_last (\<lambda>c. c\<lparr>ttc_error := Some e\<rparr>) (turn_calls t)\<rparr>"

subsection \<open>Threads\<close>

datatype ThreadState = Idle | Processing | AwaitingApproval | ThreadCompleted | Interrupted

record pending_auth =
  pa_extension_name :: string
  pa_created_at :: datetime

definition is_expired :: "datetime \<Rightarrow> pending_auth \<Rightarrow> bool" where
  "is_expired now p \<longleftrightarrow> now - pa_created_at p > 300 * 1000000000"

record pending_approval =
  request_id :: uuid
  pap_tool_name :: string
  parameters :: json
  display_parameters :: json
  pap_description :: string
  pap_tool_call_id :: string
  context_messages :: "chat_message list"
  deferred_tool_calls :: "tool_call list"
  pap_user_timezone :: "string option"
  allow_always :: bool

text \<open>How the loop of a turn ends (\<open>agent/dispatcher.rs\<close>).\<close>

datatype AgenticLoopResult = AgentResponse string | AgentNeedApproval pending_approval

record thread =
  thread_id :: uuid
  session_id :: uuid
  thread_state :: ThreadState
  turns :: "turn list"
  thread_created_at :: datetime
  updated_at :: datetime
  thread_metadata :: json
  pending_approval :: "pending_approval option"
  pending_auth :: "pending_auth option"

definition with_id :: "datetime \<Rightarrow> uuid \<Rightarrow> uuid \<Rightarrow> thread" where
  "with_id now i sid =
     \<lparr>thread_id = i, session_id = sid, thread_state = Idle, turns = [], thread_created_at = now,
      updated_at = now, thread_metadata = JNull, pending_approval = None, pending_auth = None\<rparr>"

definition new_thread :: "datetime \<Rightarrow> uuid \<Rightarrow> uuid \<Rightarrow> thread" where
  "new_thread now fresh sid =
     \<lparr>thread_id = fresh, session_id = sid, thread_state = Idle, turns = [], thread_created_at = now,
      updated_at = now, thread_metadata = JNull, pending_approval = None, pending_auth = None\<rparr>"

definition thread_turn_number :: "thread \<Rightarrow> nat" where
  "thread_turn_number th = length (turns th) + 1"

definition start_turn :: "datetime \<Rightarrow> datetime \<Rightarrow> string \<Rightarrow> thread \<Rightarrow> thread" where
  "start_turn now1 now2 inp th =
     th\<lparr>turns := turns th @ [new_turn now1 (length (turns th)) inp],
        thread_state := Processing, updated_at := now2\<rparr>"

definition complete_turn :: "datetime \<Rightarrow> datetime \<Rightarrow> string \<Rightarrow> thread \<Rightarrow> thread" where
  "complete_turn now1 now2 resp th =
     th\<lparr>turns := update_last (complete now1 resp) (turns th), thread_state := Idle, updated_at := now2\<rparr>"

definition fail_turn :: "datetime \<Rightarrow> datetime \<Rightarrow> string \<Rightarrow> thread \<Rightarrow> thread" where
  "fail_turn now1 now2 err th =
     th\<lparr>turns := update_last (fail_turn_state now1 err) (turns th), thread_state := Idle, updated_at := now2\<rparr>"

definition await_approval :: "datetime \<Rightarrow> pending_approval \<Rightarrow> thread \<Rightarrow> thread" where
  "await_approval now p th =
     th\<lparr>thread_state := AwaitingApproval, pending_approval := Some p, updated_at := now\<rparr>"

definition take_pending_approval :: "thread \<Rightarrow> pending_approval option \<times> thread" where
  "take_pending_approval th = (pending_approval th, th\<lparr>pending_approval := None\<rparr>)"

definition clear_pending_approval :: "datetime \<Rightarrow> thread \<Rightarrow> thread" where
  "clear_pending_approval now th =
     th\<lparr>pending_approval := None, thread_state := Idle, updated_at := now\<rparr>"

definition enter_auth_mode :: "datetime \<Rightarrow> datetime \<Rightarrow> string \<Rightarrow> thread \<Rightarrow> thread" where
  "enter_auth_mode now1 now2 ext th =
     th\<lparr>pending_auth := Some \<lparr>pa_extension_name = ext, pa_created_at = now1\<rparr>, updated_at := now2\<rparr>"

definition take_pending_auth :: "thread \<Rightarrow> pending_auth option \<times> thread" where
  "take_pending_auth th = (pending_auth th, th\<lparr>pending_auth := None\<rparr>)"

definition interrupt :: "datetime \<Rightarrow> datetime \<Rightarrow> thread \<Rightarrow> thread" where
  "interrupt now1 now2 th =
     th\<lparr>turns := update_last (interrupt_turn now1) (turns th), thread_state := Interrupted, updated_at := now2\<rparr>"

definition resume :: "datetime \<Rightarrow> thread \<Rightarrow> thread" where
  "resume now th =
     (if thread_state th = Interrupted then th\<lparr>thread_state := Idle, updated_at := now\<rparr> else th)"

subsection \<open>From a thread to messages\<close>

definition call_id :: "nat \<Rightarrow> nat \<Rightarrow> string" where
  "call_id n i = ''turn'' @ show_nat n @ ''_'' @ show_nat i"

definition value_text :: "(json \<Rightarrow> string) \<Rightarrow> json \<Rightarrow> string" where
  "value_text js v = (case v of JString s \<Rightarrow> s | other \<Rightarrow> js other)"

definition call_content :: "(json \<Rightarrow> string) \<Rightarrow> turn_tool_call \<Rightarrow> string" where
  "call_content js tc =
     (case ttc_error tc of
        Some err \<Rightarrow> truncate_preview err 1000
      | None \<Rightarrow> (case ttc_result tc of
          Some res \<Rightarrow> truncate_preview (value_text js res) 1000
        | None \<Rightarrow> ''OK''))"

definition tool_messages :: "(json \<Rightarrow> string) \<Rightarrow> turn \<Rightarrow> chat_message list" where
  "tool_messages js t =
     (if turn_calls t = [] then []
      else assistant_with_tool_calls None
             (map (\<lambda>(i, tc). \<lparr>tc_id = call_id (turn_number t) i, tc_name = ttc_name tc,
                               tc_arguments = ttc_parameters tc\<rparr>)
                (List.enumerate 0 (turn_calls t)))
           # map (\<lambda>(i, tc). tool_result (call_id (turn_number t) i) (ttc_name tc) (call_content js tc))
                (List.enumerate 0 (turn_calls t)))"

definition turn_messages :: "(json \<Rightarrow> string) \<Rightarrow> turn \<Rightarrow> chat_message list" where
  "turn_messages js t =
     (if image_content_parts t = [] then user_msg (user_input t)
      else user_with_parts (user_input t) (image_content_parts t))
     # tool_messages js t
     @ (case response t of Some r \<Rightarrow> [assistant_msg r] | None \<Rightarrow> [])"

definition thread_messages :: "(json \<Rightarrow> string) \<Rightarrow> thread \<Rightarrow> chat_message list" where
  "thread_messages js th = concat (map (turn_messages js) (turns th))"

definition truncate_turns :: "nat \<Rightarrow> thread \<Rightarrow> thread" where
  "truncate_turns keep th =
     (if keep < length (turns th)
      then th\<lparr>turns := map (\<lambda>(i, t). t\<lparr>turn_number := i\<rparr>)
                (List.enumerate 0 (drop (length (turns th) - keep) (turns th)))\<rparr>
      else th)"

subsection \<open>From messages back to a thread\<close>

text \<open>The innermost loop: tool results are stored by position, starting at this batch's first call.\<close>

fun consume_results ::
  "nat \<Rightarrow> turn_tool_call list \<Rightarrow> chat_message list \<Rightarrow> turn_tool_call list \<times> chat_message list" where
  "consume_results idx calls [] = (calls, [])"
| "consume_results idx calls (m # ms) =
     (if role m \<noteq> Tool then (calls, m # ms)
      else consume_results (Suc idx)
             (if idx < length calls
              then calls[idx := (calls ! idx)\<lparr>ttc_result := Some (JString (content m))\<rparr>] else calls) ms)"

lemma consume_results_length: "length (snd (consume_results idx calls ms)) \<le> length ms"
  by (induction idx calls ms rule: consume_results.induct) auto

text \<open>The calls of one assistant message, recorded in order.\<close>

definition record_calls :: "tool_call list \<Rightarrow> turn \<Rightarrow> turn" where
  "record_calls tcs t = foldl (\<lambda>u tc. record_tool_call (tc_name tc) (tc_arguments tc) u) t tcs"

definition consume_batch :: "tool_call list \<Rightarrow> chat_message list \<Rightarrow> turn \<Rightarrow> turn \<times> chat_message list" where
  "consume_batch tcs rest t =
     (let base = length (turn_calls t);
          t1 = record_calls tcs t;
          (calls, rest') = consume_results base (turn_calls t1) rest
      in (t1\<lparr>turn_calls := calls\<rparr>, rest'))"

lemma consume_batch_length: "length (snd (consume_batch tcs rest t)) \<le> length rest"
  using consume_results_length by (simp add: consume_batch_def Let_def split_beta)

text \<open>The middle loop: batches of an assistant message with tool calls and its results.\<close>

definition batch_head :: "chat_message list \<Rightarrow> (tool_call list \<times> chat_message list) option" where
  "batch_head ms =
     (case ms of
        [] \<Rightarrow> None
      | m # rest \<Rightarrow> if role m = Assistant then map_option (\<lambda>tcs. (tcs, rest)) (tool_calls m) else None)"

lemma batch_head_length: "batch_head ms = Some (tcs, rest) \<Longrightarrow> length rest < length ms"
  by (auto simp: batch_head_def split: list.splits if_splits)

function consume_calls :: "turn \<Rightarrow> chat_message list \<Rightarrow> turn \<times> chat_message list" where
  "consume_calls t ms =
     (case batch_head ms of
        None \<Rightarrow> (t, ms)
      | Some (tcs, rest) \<Rightarrow>
          consume_calls (fst (consume_batch tcs rest t)) (snd (consume_batch tcs rest t)))"
  by pat_completeness auto
termination
proof (relation "measure (\<lambda>(t, ms). length ms)", goal_cases)
  case (2 t ms x tcs rest)
  then show ?case
    using batch_head_length [of ms tcs rest] consume_batch_length [of tcs rest t]
    by (simp add: case_prod_unfold)
qed simp

declare consume_calls.simps [simp del]

lemma consume_calls_length: "length (snd (consume_calls t ms)) \<le> length ms"
proof (induction t ms rule: consume_calls.induct)
  case (1 t ms)
  show ?case
  proof (cases "batch_head ms")
    case (Some p)
    obtain tcs rest where p: "p = (tcs, rest)" by (cases p)
    let ?b = "consume_batch tcs rest t"
    have "length (snd (consume_calls (fst ?b) (snd ?b))) \<le> length (snd ?b)"
      by (rule "1.IH" [OF Some p [symmetric]])
    also have "\<dots> \<le> length ms"
      using batch_head_length [of ms tcs rest] consume_batch_length [of tcs rest t] Some p by simp
    finally show ?thesis using Some p by (simp add: consume_calls.simps [of t ms])
  qed (simp add: consume_calls.simps [of t ms])
qed

text \<open>The check for a final assistant response of the turn.\<close>

definition final_response :: "datetime \<Rightarrow> turn \<Rightarrow> chat_message list \<Rightarrow> turn \<times> chat_message list" where
  "final_response now t ms =
     (case ms of
        [] \<Rightarrow> (t, [])
      | m # rest \<Rightarrow> if role m = Assistant \<and> tool_calls m = None then (complete now (content m) t, rest) else (t, ms))"

lemma final_response_length: "length (snd (final_response now t ms)) \<le> length ms"
  by (auto simp: final_response_def split: list.split)

text \<open>The outer loop of \<open>restore_from_messages\<close>; turn \<open>n\<close> reads the clock at \<open>2 n\<close> and \<open>2 n + 1\<close>.\<close>

definition restore_one :: "(nat \<Rightarrow> datetime) \<Rightarrow> nat \<Rightarrow> chat_message \<Rightarrow> chat_message list \<Rightarrow> turn \<times> chat_message list" where
  "restore_one clk n m rest =
     (let (t1, r1) = consume_calls (new_turn (clk (2 * n)) n (content m)) rest
      in final_response (clk (2 * n + 1)) t1 r1)"

lemma restore_one_length: "length (snd (restore_one clk n m rest)) \<le> length rest"
  unfolding restore_one_def Let_def split_beta
  using order_trans [OF final_response_length consume_calls_length] by blast

function restore_turns :: "(nat \<Rightarrow> datetime) \<Rightarrow> nat \<Rightarrow> chat_message list \<Rightarrow> turn list" where
  "restore_turns clk n [] = []"
| "restore_turns clk n (m # rest) =
     (if role m = User
      then fst (restore_one clk n m rest) # restore_turns clk (n + 1) (snd (restore_one clk n m rest))
      else restore_turns clk n rest)"
  by pat_completeness auto
termination
  by (relation "measure (\<lambda>(clk, n, ms). length ms)") (auto simp: less_Suc_eq_le restore_one_length)

definition restore_from_messages :: "(nat \<Rightarrow> datetime) \<Rightarrow> datetime \<Rightarrow> chat_message list \<Rightarrow> thread \<Rightarrow> thread" where
  "restore_from_messages clk now ms th =
     th\<lparr>turns := restore_turns clk 0 ms, thread_state := Idle, updated_at := now\<rparr>"

subsection \<open>Sessions\<close>

record session =
  sess_id :: uuid
  sess_user_id :: string
  active_thread_id :: "uuid option"
  threads :: "(uuid, thread) hmap"
  sess_created_at :: datetime
  last_active_at :: datetime
  sess_metadata :: json
  auto_approved_tools :: "string list"

definition new_session :: "uuid \<Rightarrow> datetime \<Rightarrow> string \<Rightarrow> session" where
  "new_session fresh now uid =
     \<lparr>sess_id = fresh, sess_user_id = uid, active_thread_id = None, threads = [], sess_created_at = now,
      last_active_at = now, sess_metadata = JNull, auto_approved_tools = []\<rparr>"

definition is_tool_auto_approved :: "session \<Rightarrow> string \<Rightarrow> bool" where
  "is_tool_auto_approved s nm \<longleftrightarrow> nm \<in> set (auto_approved_tools s)"

definition auto_approve_tool :: "string \<Rightarrow> session \<Rightarrow> session" where
  "auto_approve_tool nm s = s\<lparr>auto_approved_tools := List.insert nm (auto_approved_tools s)\<rparr>"

text \<open>\<open>create_thread\<close> returns the entry of the new thread; \<open>or_insert\<close> keeps an entry that is there.\<close>

definition create_thread :: "uuid \<Rightarrow> datetime \<Rightarrow> datetime \<Rightarrow> session \<Rightarrow> thread \<times> session" where
  "create_thread fresh now1 now2 s =
     (let th = new_thread now1 fresh (sess_id s);
          s1 = s\<lparr>active_thread_id := Some fresh, last_active_at := now2\<rparr>
      in case map_of (threads s1) fresh of
           Some old \<Rightarrow> (old, s1)
         | None \<Rightarrow> (th, s1\<lparr>threads := AList.update fresh th (threads s1)\<rparr>))"

definition active_thread :: "session \<Rightarrow> thread option" where
  "active_thread s = Option.bind (active_thread_id s) (map_of (threads s))"

definition get_or_create_thread :: "uuid \<Rightarrow> datetime \<Rightarrow> datetime \<Rightarrow> session \<Rightarrow> thread \<times> session" where
  "get_or_create_thread fresh now1 now2 s =
     (case active_thread_id s of
        None \<Rightarrow> create_thread fresh now1 now2 s
      | Some i \<Rightarrow> (case map_of (threads s) i of
          Some th \<Rightarrow> (th, s)
        | None \<Rightarrow> create_thread fresh now1 now2 s))"

definition switch_thread :: "uuid \<Rightarrow> datetime \<Rightarrow> session \<Rightarrow> bool \<times> session" where
  "switch_thread i now s =
     (if map_of (threads s) i \<noteq> None
      then (True, s\<lparr>active_thread_id := Some i, last_active_at := now\<rparr>) else (False, s))"

subsection \<open>Previews are bounded and closed\<close>

text \<open>
  A preview is the text itself when it fits; otherwise it is a prefix of the text cut at a
  character boundary at or before the byte budget, followed by an ellipsis, at most 18 bytes over
  the budget; and a preview of a complete \<open>tool_output\<close> element is always closed.
\<close>

theorem truncate_preview_spec:
  "length (truncate_preview s n) \<le> max (length s) (n + 18) \<and>
   (n < length s \<longrightarrow> length (truncate_preview s n) \<le> n + 18 \<and>
     (\<exists>k suffix. k \<le> n \<and> is_char_boundary s k \<and> (\<forall>j. k < j \<and> j \<le> n \<longrightarrow> \<not> is_char_boundary s j) \<and>
        truncate_preview s n = take k s @ ''...'' @ suffix)) \<and>
   (starts_with s ''<tool_output'' \<longrightarrow> ends_with s ''</tool_output>'' \<longrightarrow>
      ends_with (truncate_preview s n) ''</tool_output>'')"
proof -
  let ?k = "back_to_boundary s n"
  have close: "ends_with (xs @ [CHR 0x0A] @ ''</tool_output>'') ''</tool_output>''" for xs
    by (simp add: ends_with_def)
  have "\<forall>j. ?k < j \<and> j \<le> n \<longrightarrow> \<not> is_char_boundary s j"
    using back_to_boundary_greatest by (metis not_le)
  moreover have "\<exists>suffix. truncate_preview s n = take ?k s @ ''...'' @ suffix" if "n < length s"
    using that by (auto simp: truncate_preview_def Let_def)
  moreover have "length (truncate_preview s n) \<le> n + 18" if "n < length s"
    using that back_to_boundary_le [of s n] by (simp add: truncate_preview_def Let_def min_def)
  moreover have "length (truncate_preview s n) \<le> max (length s) (n + 18)"
    using calculation(3) by (cases "n < length s") (auto simp: truncate_preview_def [of s n])
  moreover have "starts_with s ''<tool_output'' \<longrightarrow> ends_with s ''</tool_output>'' \<longrightarrow>
      ends_with (truncate_preview s n) ''</tool_output>''"
    using close [of "take ?k s @ ''...''"]
    by (simp add: truncate_preview_def Let_def del: append_assoc)
  ultimately show ?thesis
    using back_to_boundary_boundary back_to_boundary_le by blast
qed

theorem truncate_preview_spec_witness:
  "length (truncate_preview ''hello world'' 5) \<le> 23"
  using truncate_preview_spec [of "''hello world''" 5] by simp

lemma back_to_boundary_id: "is_char_boundary s n \<Longrightarrow> back_to_boundary s n = n"
  by (cases n) auto

definition ascii_text :: "string \<Rightarrow> bool" where
  "ascii_text s \<longleftrightarrow> (\<forall>c \<in> set s. \<not> utf8_cont c)"

lemma ascii_boundary: "ascii_text s \<Longrightarrow> n < length s \<Longrightarrow> back_to_boundary s n = n"
  by (rule back_to_boundary_id) (simp add: ascii_text_def is_char_boundary_def)

definition closed_preview :: "bool \<Rightarrow> string \<Rightarrow> string" where
  "closed_preview tagged res =
     (if tagged \<and> \<not> ends_with res ''</tool_output>'' then res @ [CHR 0x0A] @ ''</tool_output>'' else res)"

lemma closed_preview_prefix: "\<exists>suf. closed_preview b (xs @ ys) = xs @ ys @ suf"
  by (simp add: closed_preview_def)

lemma truncate_preview_cut:
  assumes "n < length s" "back_to_boundary s n = n"
  shows "truncate_preview s n = closed_preview (starts_with s ''<tool_output'') (take n s @ ''...'')"
  using assms by (simp add: truncate_preview_def closed_preview_def Let_def)

lemma truncate_preview_idem:
  assumes "ascii_text s" "12 \<le> n"
  shows "truncate_preview (truncate_preview s n) n = truncate_preview s n"
proof (cases "n < length s")
  case True
  define r where "r = truncate_preview s n"
  have eq: "r = closed_preview (starts_with s ''<tool_output'') (take n s @ ''...'')"
    unfolding r_def by (rule truncate_preview_cut [OF True ascii_boundary [OF assms(1) True]])
  then obtain suf where r: "r = take n s @ ''...'' @ suf" using closed_preview_prefix by metis
  have len: "length (take n s) = n" using True by simp
  have "\<not> utf8_cont CHR ''.''" by (simp add: utf8_cont_def)
  then have b: "back_to_boundary r n = n"
    using len r by (intro back_to_boundary_id) (simp add: is_char_boundary_def nth_append)
  have *: "take n r = take n s" "n < length r" using r len by simp_all
  have "starts_with r ''<tool_output'' = starts_with s ''<tool_output''"
    using r len assms(2) by (simp add: starts_with_def)
  with truncate_preview_cut [OF *(2) b] * eq have "truncate_preview r n = r" by metis
  then show ?thesis by (simp only: r_def)
qed (simp add: truncate_preview_def)

subsection \<open>Restoring a thread from its own messages\<close>

text \<open>What a restored turn keeps of a call and of a turn.\<close>

definition replayed :: "(json \<Rightarrow> string) \<Rightarrow> turn_tool_call \<Rightarrow> turn_tool_call" where
  "replayed js tc = \<lparr>ttc_name = ttc_name tc, ttc_parameters = ttc_parameters tc,
     ttc_result = Some (JString (call_content js tc)), ttc_error = None\<rparr>"

definition replay :: "(nat \<Rightarrow> datetime) \<Rightarrow> (json \<Rightarrow> string) \<Rightarrow> nat \<Rightarrow> turn \<Rightarrow> turn" where
  "replay clk js n t =
     (let t1 = (new_turn (clk (2 * n)) n (user_input t))\<lparr>turn_calls := map (replayed js) (turn_calls t)\<rparr>
      in case response t of Some r \<Rightarrow> complete (clk (2 * n + 1)) r t1 | None \<Rightarrow> t1)"

lemma record_calls_eq:
  "record_calls tcs t = t\<lparr>turn_calls := turn_calls t @ map (\<lambda>tc. new_call (tc_name tc) (tc_arguments tc)) tcs\<rparr>"
  by (induction tcs arbitrary: t) (simp_all add: record_calls_def record_tool_call_def)

lemma consume_results_all:
  assumes "length rs = length calls" "\<forall>m \<in> set rs. role m = Tool" "rest = [] \<or> role (hd rest) \<noteq> Tool"
  shows "consume_results (length pre) (pre @ calls) (rs @ rest) =
    (pre @ map2 (\<lambda>c m. c\<lparr>ttc_result := Some (JString (content m))\<rparr>) calls rs, rest)"
  using assms
proof (induction rs arbitrary: pre calls)
  case Nil
  then show ?case by (cases rest) auto
next
  case (Cons m rs)
  then obtain c cs where c: "calls = c # cs" by (cases calls) auto
  let ?c = "c\<lparr>ttc_result := Some (JString (content m))\<rparr>"
  have "consume_results (length pre) (pre @ calls) ((m # rs) @ rest)
      = consume_results (length (pre @ [?c])) ((pre @ [?c]) @ cs) (rs @ rest)"
    using Cons.prems c by (simp add: list_update_append)
  also have "\<dots> = ((pre @ [?c]) @ map2 (\<lambda>c m. c\<lparr>ttc_result := Some (JString (content m))\<rparr>) cs rs, rest)"
    using Cons.prems c by (intro Cons.IH) auto
  finally show ?case by (simp add: c)
qed

lemma consume_calls_none: "batch_head ms = None \<Longrightarrow> consume_calls t ms = (t, ms)"
  by (simp add: consume_calls.simps)

lemma replay_calls:
  "map2 (\<lambda>c m. c\<lparr>ttc_result := Some (JString (content m))\<rparr>)
     (map (\<lambda>tc. new_call (tc_name tc) (tc_arguments tc))
        (map (\<lambda>(i, tc). \<lparr>tc_id = call_id k i, tc_name = ttc_name tc, tc_arguments = ttc_parameters tc\<rparr>)
           (List.enumerate n calls)))
     (map (\<lambda>(i, tc). tool_result (call_id k i) (ttc_name tc) (call_content js tc)) (List.enumerate n calls))
   = map (replayed js) calls"
  by (induction calls arbitrary: n) (simp_all add: new_call_def replayed_def tool_result_def)

lemma consume_calls_tool_messages:
  assumes "turn_calls u = []" "batch_head rest = None" "rest = [] \<or> role (hd rest) \<noteq> Tool"
  shows "consume_calls u (tool_messages js t @ rest) = (u\<lparr>turn_calls := map (replayed js) (turn_calls t)\<rparr>, rest)"
proof (cases "turn_calls t = []")
  case True
  then show ?thesis using assms by (simp add: tool_messages_def consume_calls_none)
next
  case False
  let ?e = "List.enumerate 0 (turn_calls t)"
  let ?tcs = "map (\<lambda>(i, tc). \<lparr>tc_id = call_id (turn_number t) i, tc_name = ttc_name tc,
                               tc_arguments = ttc_parameters tc\<rparr>) ?e"
  let ?rs = "map (\<lambda>(i, tc). tool_result (call_id (turn_number t) i) (ttc_name tc) (call_content js tc)) ?e"
  have ne: "?tcs \<noteq> []" using False by (cases "turn_calls t") auto
  have head: "batch_head (tool_messages js t @ rest) = Some (?tcs, ?rs @ rest)"
    using False ne by (simp add: tool_messages_def batch_head_def assistant_with_tool_calls_def)
  have "consume_results (length ([] :: turn_tool_call list))
      ([] @ map (\<lambda>tc. new_call (tc_name tc) (tc_arguments tc)) ?tcs) (?rs @ rest)
      = ([] @ map2 (\<lambda>c m. c\<lparr>ttc_result := Some (JString (content m))\<rparr>)
          (map (\<lambda>tc. new_call (tc_name tc) (tc_arguments tc)) ?tcs) ?rs, rest)"
    by (rule consume_results_all) (use assms in \<open>auto simp: tool_result_def\<close>)
  then have "consume_batch ?tcs (?rs @ rest) u = (u\<lparr>turn_calls := map (replayed js) (turn_calls t)\<rparr>, rest)"
    using assms(1) replay_calls [of "turn_number t" 0 "turn_calls t" js]
    by (simp add: consume_batch_def record_calls_eq Let_def)
  with head show ?thesis
    using assms by (simp add: consume_calls.simps [of u] consume_calls_none)
qed

lemma batch_head_user: "rest = [] \<or> role (hd rest) = User \<Longrightarrow> batch_head rest = None"
  by (cases rest) (auto simp: batch_head_def)

lemma final_response_user:
  "rest = [] \<or> role (hd rest) = User \<Longrightarrow> final_response now u rest = (u, rest)"
  by (cases rest) (auto simp: final_response_def)

lemma final_response_assistant [simp]:
  "final_response now u (assistant_msg r # rest) = (complete now r u, rest)"
  by (simp add: final_response_def assistant_msg_def)

lemma restore_one_turn:
  assumes "rest = [] \<or> role (hd rest) = User"
  shows "restore_one clk n m (tool_messages js t @ (case response t of Some r \<Rightarrow> [assistant_msg r] | None \<Rightarrow> []) @ rest)
    = (replay clk js n (t\<lparr>user_input := content m\<rparr>), rest)"
proof -
  let ?r = "(case response t of Some r \<Rightarrow> [assistant_msg r] | None \<Rightarrow> []) @ rest"
  have "batch_head ?r = None" "?r = [] \<or> role (hd ?r) \<noteq> Tool"
    using assms batch_head_user [OF assms]
    by (auto simp: batch_head_def assistant_msg_def split: option.split)
  from consume_calls_tool_messages [OF _ this]
  have "consume_calls (new_turn (clk (2 * n)) n (content m)) (tool_messages js t @ ?r) =
     ((new_turn (clk (2 * n)) n (content m))\<lparr>turn_calls := map (replayed js) (turn_calls t)\<rparr>, ?r)"
    by (simp add: new_turn_def)
  then show ?thesis
    using final_response_user [OF assms]
    by (cases "response t") (simp_all add: restore_one_def replay_def new_turn_def Let_def)
qed

lemma concat_turns_head:
  "concat (map (turn_messages js) ts) = [] \<or> role (hd (concat (map (turn_messages js) ts))) = User"
  by (cases ts) (auto simp: turn_messages_def user_msg_def user_with_parts_def)

lemma restore_turns_messages:
  "restore_turns clk n (concat (map (turn_messages js) ts)) = map (\<lambda>(i, t). replay clk js i t) (List.enumerate n ts)"
proof (induction ts arbitrary: n)
  case (Cons t ts)
  let ?m = "if image_content_parts t = [] then user_msg (user_input t)
            else user_with_parts (user_input t) (image_content_parts t)"
  let ?rest = "concat (map (turn_messages js) ts)"
  have m: "role ?m = User" "content ?m = user_input t" by (simp_all add: user_msg_def user_with_parts_def)
  have "concat (map (turn_messages js) (t # ts)) =
      ?m # tool_messages js t @ (case response t of Some r \<Rightarrow> [assistant_msg r] | None \<Rightarrow> []) @ ?rest"
    by (simp add: turn_messages_def)
  moreover have "t\<lparr>user_input := content ?m\<rparr> = t" using m(2) by simp
  ultimately show ?case
    using restore_one_turn [OF concat_turns_head, of clk n ?m js t js ts] m(1) Cons.IH [of "Suc n"]
    by simp
qed simp

lemma replay_views:
  "turn_number (replay clk js n t) = n" "user_input (replay clk js n t) = user_input t"
  "response (replay clk js n t) = response t" "image_content_parts (replay clk js n t) = []"
  "turn_calls (replay clk js n t) = map (replayed js) (turn_calls t)"
  by (simp_all add: replay_def new_turn_def complete_def Let_def split: option.split)

lemma restored_turns:
  "turns (restore_from_messages clk now (thread_messages js th) th') =
     map (\<lambda>(i, t). replay clk js i t) (List.enumerate 0 (turns th))"
  by (simp add: restore_from_messages_def thread_messages_def restore_turns_messages)

lemma map_enumerate_snd: "(\<And>i t. f (g i t) = h t) \<Longrightarrow> map (f \<circ> (\<lambda>(i, t). g i t)) (List.enumerate n xs) = map h xs"
  by (induction xs arbitrary: n) auto

lemma upt_plus_Suc: "[n..<Suc (n + k)] = n # [Suc n..<Suc (n + k)]"
  by (simp add: upt_conv_Cons del: upt_Suc)

lemma map_enumerate_fst: "(\<And>i t. f (g i t) = i) \<Longrightarrow> map (f \<circ> (\<lambda>(i, t). g i t)) (List.enumerate n xs) = [n..<n + length xs]"
  by (induction xs arbitrary: n) (simp_all add: upt_plus_Suc del: upt_Suc)

text \<open>
  C11: Restoring a thread from the message list another thread shows to the model keeps, turn by
  turn and in order, the user input, the response, and the name, parameters and shown result of
  every tool call; the turns are numbered from zero and the thread is idle. No tool result is
  attached to the wrong call and no message is lost or merged into another turn.
\<close>

theorem restore_messages_roundtrip:
  "let r = restore_from_messages clk now (thread_messages js th) th' in
   map turn_number (turns r) = [0..<length (turns th)] \<and>
   map user_input (turns r) = map user_input (turns th) \<and>
   map response (turns r) = map response (turns th) \<and>
   map (\<lambda>t. map (\<lambda>c. (ttc_name c, ttc_parameters c)) (turn_calls t)) (turns r) =
     map (\<lambda>t. map (\<lambda>c. (ttc_name c, ttc_parameters c)) (turn_calls t)) (turns th) \<and>
   map (\<lambda>t. map ttc_result (turn_calls t)) (turns r) =
     map (\<lambda>t. map (\<lambda>c. Some (JString (call_content js c))) (turn_calls t)) (turns th) \<and>
   thread_state r = Idle"
  unfolding Let_def restored_turns map_map
  by (intro conjI map_enumerate_snd map_enumerate_fst [where n = 0, simplified])
     (simp_all add: replay_views replayed_def restore_from_messages_def o_def)

text \<open>The text a call would show, before it is cut.\<close>

definition raw_content :: "(json \<Rightarrow> string) \<Rightarrow> turn_tool_call \<Rightarrow> string" where
  "raw_content js tc =
     (case ttc_error tc of Some err \<Rightarrow> err
      | None \<Rightarrow> (case ttc_result tc of Some res \<Rightarrow> value_text js res | None \<Rightarrow> ''OK''))"

lemma call_content_raw: "call_content js tc = truncate_preview (raw_content js tc) 1000"
  by (simp add: call_content_def raw_content_def truncate_preview_def split: option.split)

lemma call_content_replayed:
  "ascii_text (raw_content js tc) \<Longrightarrow> call_content js (replayed js tc) = call_content js tc"
  by (simp add: call_content_raw [of js "replayed js tc"])
     (simp add: raw_content_def replayed_def value_text_def call_content_raw truncate_preview_idem)

lemma replayed_name [simp]: "ttc_name (replayed js c) = ttc_name c" "ttc_parameters (replayed js c) = ttc_parameters c"
  by (simp_all add: replayed_def)

lemma turn_messages_replay:
  assumes "image_content_parts t = []" "\<forall>c \<in> set (turn_calls t). ascii_text (raw_content js c)"
  shows "turn_messages js (replay clk js (turn_number t) t) = turn_messages js t"
proof -
  have "map (\<lambda>(i, tc). tool_result (call_id k i) (ttc_name tc) (call_content js tc)) (List.enumerate n (map (replayed js) cs))
      = map (\<lambda>(i, tc). tool_result (call_id k i) (ttc_name tc) (call_content js tc)) (List.enumerate n cs)"
    if "\<forall>c \<in> set cs. ascii_text (raw_content js c)" for cs k n
    using that by (induction cs arbitrary: n) (auto simp: call_content_replayed)
  moreover have "map (\<lambda>(i, tc). \<lparr>tc_id = call_id k i, tc_name = ttc_name tc, tc_arguments = ttc_parameters tc\<rparr>)
        (List.enumerate n (map (replayed js) cs))
      = map (\<lambda>(i, tc). \<lparr>tc_id = call_id k i, tc_name = ttc_name tc, tc_arguments = ttc_parameters tc\<rparr>)
        (List.enumerate n cs)" for cs k n
    by (induction cs arbitrary: n) auto
  ultimately show ?thesis
    using assms by (simp add: turn_messages_def tool_messages_def replay_views)
qed

lemma messages_replay_all:
  assumes "map turn_number ts = [n..<n + length ts]"
    "\<forall>t \<in> set ts. image_content_parts t = [] \<and> (\<forall>c \<in> set (turn_calls t). ascii_text (raw_content js c))"
  shows "map (turn_messages js) (map (\<lambda>(i, t). replay clk js i t) (List.enumerate n ts)) = map (turn_messages js) ts"
  using assms
proof (induction ts arbitrary: n)
  case (Cons t ts)
  then have "turn_number t = n" "map turn_number ts = [Suc n..<Suc n + length ts]" 
    by (simp_all add: upt_plus_Suc del: upt_Suc)
  with Cons show ?case using turn_messages_replay [of t js clk] by simp
qed simp

text \<open>
  For a thread with well-numbered turns, no attached images and ASCII tool texts, the message
  list is a fixed point of restoring: the model sees the same conversation, with the same call
  identifiers and the same truncated tool results, after any number of reloads.
\<close>

theorem restore_messages_fixpoint:
  assumes "map turn_number (turns th) = [0..<length (turns th)]"
    and "\<forall>t \<in> set (turns th). image_content_parts t = [] \<and>
           (\<forall>c \<in> set (turn_calls t). ascii_text (raw_content js c))"
  shows "thread_messages js (restore_from_messages clk now (thread_messages js th) th') = thread_messages js th"
  using messages_replay_all [of "turns th" 0 js clk] assms
  unfolding thread_messages_def [of js "restore_from_messages _ _ _ _"] restored_turns
  by (simp add: thread_messages_def)

definition demo_thread :: thread where
  "demo_thread = (new_thread 0 1 2)\<lparr>turns :=
     [complete 3 ''done'' (record_tool_result (JString ''ok'') (record_tool_call ''ls'' JNull (new_turn 1 0 ''list''))),
      new_turn 5 1 ''next'']\<rparr>"

theorem restore_messages_fixpoint_witness:
  "thread_messages (\<lambda>_. []) (restore_from_messages int 9 (thread_messages (\<lambda>_. []) demo_thread) demo_thread)
     = thread_messages (\<lambda>_. []) demo_thread"
  by (rule restore_messages_fixpoint)
     (simp_all add: demo_thread_def complete_def record_tool_result_def record_tool_call_def new_turn_def
        update_last_def new_call_def raw_content_def value_text_def ascii_text_def utf8_cont_def)

subsection \<open>The thread invariant\<close>

definition wf_turn :: "turn \<Rightarrow> bool" where
  "wf_turn t \<longleftrightarrow>
     (case turn_state t of
        TurnProcessing \<Rightarrow> response t = None \<and> turn_completed_at t = None \<and> turn_error t = None
      | TurnCompleted \<Rightarrow> response t \<noteq> None \<and> turn_completed_at t \<noteq> None \<and> image_content_parts t = []
      | TurnFailed \<Rightarrow> turn_error t \<noteq> None \<and> turn_completed_at t \<noteq> None \<and> image_content_parts t = []
      | TurnInterrupted \<Rightarrow> turn_completed_at t \<noteq> None \<and> image_content_parts t = [])"

definition wf_thread :: "thread \<Rightarrow> bool" where
  "wf_thread th \<longleftrightarrow> map turn_number (turns th) = [0..<length (turns th)] \<and> (\<forall>t \<in> set (turns th). wf_turn t)"

text \<open>
  Everything the agent does to a thread. A turn is started together with the image parts of the
  user's message; the recording operations work on the last turn.
\<close>

inductive thread_step :: "thread \<Rightarrow> thread \<Rightarrow> bool" where
  start: "thread_step th ((start_turn n1 n2 inp th)\<lparr>turns :=
     update_last (\<lambda>t. t\<lparr>image_content_parts := parts\<rparr>) (turns (start_turn n1 n2 inp th))\<rparr>)"
| finish: "thread_step th (complete_turn n1 n2 resp th)"
| failed: "thread_step th (fail_turn n1 n2 err th)"
| await: "thread_step th (await_approval now p th)"
| take_approval: "thread_step th (snd (take_pending_approval th))"
| clear_approval: "thread_step th (clear_pending_approval now th)"
| enter_auth: "thread_step th (enter_auth_mode n1 n2 ext th)"
| take_auth: "thread_step th (snd (take_pending_auth th))"
| interrupt: "thread_step th (interrupt n1 n2 th)"
| resume: "thread_step th (resume now th)"
| truncate: "thread_step th (truncate_turns keep th)"
| restored: "thread_step th (restore_from_messages clk now ms th)"
| call: "thread_step th (th\<lparr>turns := update_last (record_tool_call nm params) (turns th)\<rparr>)"
| result: "thread_step th (th\<lparr>turns := update_last (record_tool_result r) (turns th)\<rparr>)"
| error: "thread_step th (th\<lparr>turns := update_last (record_tool_error e) (turns th)\<rparr>)"

definition wf_turns :: "turn list \<Rightarrow> bool" where
  "wf_turns ts \<longleftrightarrow> map turn_number ts = [0..<length ts] \<and> (\<forall>t \<in> set ts. wf_turn t)"

lemma wf_thread_turns: "wf_thread th \<longleftrightarrow> wf_turns (turns th)"
  by (simp add: wf_thread_def wf_turns_def)

lemma wf_turns_update_last:
  assumes "wf_turns ts" "\<And>t. wf_turn t \<Longrightarrow> wf_turn (f t)" "\<And>t. turn_number (f t) = turn_number t"
  shows "wf_turns (update_last f ts)"
proof (cases ts rule: rev_cases)
  case (snoc ys y)
  then show ?thesis using assms by (auto simp: wf_turns_def update_last_def)
qed (simp add: update_last_def wf_turns_def)

lemma wf_turn_ops [claw_inv]:
  "wf_turn (complete now r t)" "wf_turn (fail_turn_state now err t)" "wf_turn (interrupt_turn now t)"
  "wf_turn (record_tool_call nm params t) = wf_turn t" "wf_turn (record_tool_result v t) = wf_turn t"
  "wf_turn (record_tool_error err t) = wf_turn t" "wf_turn (new_turn now n inp)"
  "wf_turn (t\<lparr>turn_number := n\<rparr>) = wf_turn t" "wf_turn (t\<lparr>turn_calls := cs\<rparr>) = wf_turn t"
  by (simp_all add: wf_turn_def complete_def fail_turn_state_def interrupt_turn_def record_tool_call_def
      record_tool_result_def record_tool_error_def new_turn_def cong: TurnState.case_cong)

lemma turn_number_new: "turn_number ((new_turn now n inp)\<lparr>turn_calls := cs\<rparr>) = n"
  by (simp add: new_turn_def)

lemma turn_number_ops [claw_inv]:
  "turn_number (complete now r t) = turn_number t" "turn_number (fail_turn_state now err t) = turn_number t"
  "turn_number (interrupt_turn now t) = turn_number t" "turn_number (record_tool_call nm params t) = turn_number t"
  "turn_number (record_tool_result v t) = turn_number t" "turn_number (record_tool_error err t) = turn_number t"
  by (simp_all add: complete_def fail_turn_state_def interrupt_turn_def record_tool_call_def
      record_tool_result_def record_tool_error_def)

lemma wf_start:
  "wf_turns ts \<Longrightarrow> wf_turns (update_last (\<lambda>t. t\<lparr>image_content_parts := ps\<rparr>) (ts @ [new_turn now (length ts) inp]))"
  by (auto simp: wf_turns_def update_last_def new_turn_def wf_turn_def)

lemma wf_truncate: "wf_turns ts \<Longrightarrow> wf_turns (map (\<lambda>(i, t). t\<lparr>turn_number := i\<rparr>) (List.enumerate 0 (drop k ts)))"
  unfolding wf_turns_def
  by (auto simp: map_enumerate_fst [where n = 0, simplified] wf_turn_ops in_set_enumerate_eq dest: in_set_dropD)

lemma consume_batch_views:
  "\<exists>cs. fst (consume_batch tcs rest t) = t\<lparr>turn_calls := cs\<rparr>"
  by (auto simp: consume_batch_def record_calls_eq Let_def split: prod.split)

lemma consume_calls_views: "\<exists>cs. fst (consume_calls t ms) = t\<lparr>turn_calls := cs\<rparr>"
proof (induction t ms rule: consume_calls.induct)
  case (1 t ms)
  show ?case
  proof (cases "batch_head ms")
    case None
    then have "fst (consume_calls t ms) = t\<lparr>turn_calls := turn_calls t\<rparr>" by (simp add: consume_calls_none)
    then show ?thesis by blast
  next
    case (Some p)
    obtain tcs rest where p: "p = (tcs, rest)" by (cases p)
    obtain cs where "fst (consume_batch tcs rest t) = t\<lparr>turn_calls := cs\<rparr>" using consume_batch_views by blast
    with "1.IH" [OF Some p [symmetric]] Some p show ?thesis by (auto simp: consume_calls.simps [of t ms])
  qed
qed

lemma restore_one_wf:
  "wf_turn (fst (restore_one clk n m rest))" "turn_number (fst (restore_one clk n m rest)) = n"
proof -
  obtain cs where cs: "fst (consume_calls (new_turn (clk (2 * n)) n (content m)) rest)
      = (new_turn (clk (2 * n)) n (content m))\<lparr>turn_calls := cs\<rparr>"
    using consume_calls_views by blast
  then show "wf_turn (fst (restore_one clk n m rest))" "turn_number (fst (restore_one clk n m rest)) = n"
    by (auto simp: restore_one_def final_response_def case_prod_unfold Let_def claw_inv turn_number_new
        split: list.split)
qed

lemma restore_turns_wf:
  "map turn_number (restore_turns clk n ms) = [n..<n + length (restore_turns clk n ms)] \<and>
   (\<forall>t \<in> set (restore_turns clk n ms). wf_turn t)"
  by (induction clk n ms rule: restore_turns.induct) (simp_all add: restore_one_wf upt_plus_Suc del: upt_Suc)

lemma thread_step_wf: "thread_step th th' \<Longrightarrow> wf_thread th \<Longrightarrow> wf_thread th'"
proof (induction rule: thread_step.induct)
  case (truncate th keep)
  then show ?case by (simp add: wf_thread_turns truncate_turns_def wf_truncate)
next
  case (restored th clk now ms)
  show ?case using restore_turns_wf [of clk 0 ms]
    by (simp add: wf_thread_turns restore_from_messages_def wf_turns_def)
qed (auto simp: wf_thread_turns start_turn_def complete_turn_def fail_turn_def await_approval_def
    take_pending_approval_def clear_pending_approval_def enter_auth_mode_def take_pending_auth_def
    interrupt_def resume_def wf_start claw_inv intro!: wf_turns_update_last)

text \<open>
  C31: However a thread is used, its turns are numbered by their position, a running turn has
  neither response, error nor completion time, a completed turn has its response, a failed turn
  its error, and every turn that is no longer running is stamped and holds no image data.
\<close>

theorem thread_invariant:
  assumes "thread_step\<^sup>*\<^sup>* (new_thread now i sid) th"
  shows "wf_thread th"
  using assms
proof (induction rule: rtranclp_induct)
  case base
  show ?case by (simp add: wf_thread_def new_thread_def)
qed (rule thread_step_wf)

theorem thread_invariant_witness:
  "wf_thread (complete_turn 1 2 ''done'' (new_thread 0 1 2))"
  by (rule thread_invariant [OF r_into_rtranclp, OF finish])

subsection \<open>The active thread of a session\<close>

definition wf_session :: "session \<Rightarrow> bool" where
  "wf_session s \<longleftrightarrow> hm_wf (threads s) \<and>
     (\<forall>i th. map_of (threads s) i = Some th \<longrightarrow> thread_id th = i \<and> session_id th = sess_id s) \<and>
     (\<forall>i. active_thread_id s = Some i \<longrightarrow> i \<in> dom (map_of (threads s)))"

lemma wf_new_session: "wf_session (new_session fresh now uid)"
  by (simp add: wf_session_def new_session_def)

lemma create_thread_wf: "wf_session s \<Longrightarrow> wf_session (snd (create_thread fresh n1 n2 s))"
  by (auto simp: wf_session_def create_thread_def new_thread_def Let_def update_conv' split: option.splits if_splits)
     (auto simp: distinct_update)

text \<open>
  In a well-formed session, asking for the current thread returns the thread that is then
  active and stored, without changing the session when there is one already; a second request
  returns the same thread and changes nothing; and switching succeeds exactly for stored threads.
\<close>

theorem get_or_create_thread_spec:
  assumes "wf_session s" "get_or_create_thread fresh n1 n2 s = (th, s')"
  shows "wf_session s' \<and> active_thread s' = Some th \<and>
    get_or_create_thread fresh' m1 m2 s' = (th, s') \<and>
    (active_thread s \<noteq> None \<longrightarrow> s' = s) \<and>
    (active_thread s = None \<longrightarrow> active_thread_id s' = Some fresh) \<and>
    (fst (switch_thread i now s) \<longleftrightarrow> i \<in> dom (map_of (threads s))) \<and>
    wf_session (snd (switch_thread i now s))"
proof -
  have "wf_session s'"
    using assms create_thread_wf [OF assms(1), of fresh n1 n2]
    by (auto simp: get_or_create_thread_def split: option.splits)
  moreover have "wf_session (snd (switch_thread i now s))"
    using assms(1) by (auto simp: switch_thread_def wf_session_def)
  ultimately show ?thesis
    using assms(2)
    by (auto simp: get_or_create_thread_def create_thread_def active_thread_def switch_thread_def
        Let_def update_conv' split: option.splits)
qed

theorem get_or_create_thread_spec_witness:
  "active_thread (snd (get_or_create_thread 5 1 2 (new_session 3 0 ''u''))) = Some (new_thread 1 5 3)"
  using get_or_create_thread_spec [OF wf_new_session, of 5 1 2 3 0 "''u''" "new_thread 1 5 3"
      "snd (get_or_create_thread 5 1 2 (new_session 3 0 ''u''))"]
  by (simp add: get_or_create_thread_def create_thread_def new_session_def Let_def)

end
