(* ===== verification/Undo_Manager.thy ===== *)
theory Undo_Manager
  imports Chat_Message
begin

text \<open>
  The undo manager of \<open>src/agent/undo.rs\<close>: checkpoints, the bounded undo stack (oldest first), the
  redo stack (newest last) and the operations on them. The identifiers that \<open>Checkpoint::new\<close>
  draws are arguments. The locale \<open>reversible_history\<close> states what a client relies on when it walks
  back and forth (redo undoes undo, and neither loses steps); it is interpreted on the manager
  together with the client's current snapshot.
\<close>

record checkpoint =
  cp_id :: uuid
  cp_turn_number :: nat
  cp_messages :: "chat_message list"
  cp_description :: string

record undo_manager =
  undo_stack :: "checkpoint list"
  redo_stack :: "checkpoint list"
  max_checkpoints :: nat

definition new_checkpoint :: "uuid \<Rightarrow> nat \<Rightarrow> chat_message list \<Rightarrow> string \<Rightarrow> checkpoint" where
  "new_checkpoint fresh n ms descr =
     \<lparr>cp_id = fresh, cp_turn_number = n, cp_messages = ms, cp_description = descr\<rparr>"

definition new_undo_manager :: undo_manager where
  "new_undo_manager = \<lparr>undo_stack = [], redo_stack = [], max_checkpoints = 20\<rparr>"

text \<open>The loop of \<open>push_undo\<close>: pop from the front while the stack is over the limit.\<close>

fun pop_front_over :: "nat \<Rightarrow> 'a list \<Rightarrow> 'a list" where
  "pop_front_over mx [] = []"
| "pop_front_over mx (x # xs) = (if mx < length (x # xs) then pop_front_over mx xs else x # xs)"

definition push_undo :: "checkpoint \<Rightarrow> undo_manager \<Rightarrow> undo_manager" where
  "push_undo cp m = m\<lparr>undo_stack := pop_front_over (max_checkpoints m) (undo_stack m @ [cp])\<rparr>"

definition checkpoint_op :: "uuid \<Rightarrow> nat \<Rightarrow> chat_message list \<Rightarrow> string \<Rightarrow> undo_manager \<Rightarrow> undo_manager" where
  "checkpoint_op fresh n ms descr m = push_undo (new_checkpoint fresh n ms descr) (m\<lparr>redo_stack := []\<rparr>)"

definition undo_op :: "uuid \<Rightarrow> nat \<Rightarrow> chat_message list \<Rightarrow> undo_manager \<Rightarrow> checkpoint option \<times> undo_manager" where
  "undo_op fresh n ms m =
     (if undo_stack m = [] then (None, m)
      else let cur = new_checkpoint fresh n ms (''Turn '' @ show_nat n);
               m1 = m\<lparr>redo_stack := redo_stack m @ [cur]\<rparr>
           in (Some (last (undo_stack m1)), m1\<lparr>undo_stack := butlast (undo_stack m1)\<rparr>))"

definition redo_op :: "uuid \<Rightarrow> nat \<Rightarrow> chat_message list \<Rightarrow> undo_manager \<Rightarrow> checkpoint option \<times> undo_manager" where
  "redo_op fresh n ms m =
     (if redo_stack m = [] then (None, m)
      else let cur = new_checkpoint fresh n ms (''Turn '' @ show_nat n);
               m1 = push_undo cur m
           in (Some (last (redo_stack m1)), m1\<lparr>redo_stack := butlast (redo_stack m1)\<rparr>))"

definition can_undo :: "undo_manager \<Rightarrow> bool" where "can_undo m \<longleftrightarrow> undo_stack m \<noteq> []"
definition can_redo :: "undo_manager \<Rightarrow> bool" where "can_redo m \<longleftrightarrow> redo_stack m \<noteq> []"
definition undo_count :: "undo_manager \<Rightarrow> nat" where "undo_count m = length (undo_stack m)"
definition redo_count :: "undo_manager \<Rightarrow> nat" where "redo_count m = length (redo_stack m)"

definition clear_undo :: "undo_manager \<Rightarrow> undo_manager" where
  "clear_undo m = m\<lparr>undo_stack := [], redo_stack := []\<rparr>"

text \<open>\<open>Iterator::position\<close> of the first checkpoint with the given identifier.\<close>

fun position :: "uuid \<Rightarrow> checkpoint list \<Rightarrow> nat option" where
  "position i [] = None"
| "position i (c # cs) = (if cp_id c = i then Some 0 else map_option Suc (position i cs))"

definition restore :: "uuid \<Rightarrow> undo_manager \<Rightarrow> checkpoint option \<times> undo_manager" where
  "restore i m =
     (case position i (undo_stack m) of
        None \<Rightarrow> (None, m)
      | Some pos \<Rightarrow>
          let m1 = m\<lparr>redo_stack := [], undo_stack := take (pos + 1) (undo_stack m)\<rparr>
          in (if undo_stack m1 = [] then (None, m1)
              else (Some (last (undo_stack m1)), m1\<lparr>undo_stack := butlast (undo_stack m1)\<rparr>)))"

lemmas undo_defs [claw_defs] =
  push_undo_def checkpoint_op_def undo_op_def redo_op_def clear_undo_def Let_def

subsection \<open>The bound\<close>

lemma pop_front_over_eq: "pop_front_over mx xs = drop (length xs - mx) xs"
  by (induction xs) (auto simp: Suc_diff_le)

text \<open>
  Every reachable manager holds at most \<open>max_checkpoints\<close> checkpoints over both stacks, so a redo
  never pushes an old checkpoint out.
\<close>

definition undo_wf :: "undo_manager \<Rightarrow> bool" where
  "undo_wf m \<longleftrightarrow> undo_count m + redo_count m \<le> max_checkpoints m"

lemma undo_wf_new [claw_inv]: "undo_wf new_undo_manager"
  by (simp add: undo_wf_def new_undo_manager_def undo_count_def redo_count_def)

lemma undo_wf_checkpoint [claw_inv]: "undo_wf (checkpoint_op f n ms d m)"
  by (simp add: undo_wf_def undo_defs pop_front_over_eq undo_count_def redo_count_def)

lemma undo_wf_undo [claw_inv]: "undo_wf m \<Longrightarrow> undo_wf (snd (undo_op f n ms m))"
  by (cases "undo_stack m" rule: rev_cases)
     (auto simp: undo_wf_def undo_defs undo_count_def redo_count_def)

lemma redo_no_trim:
  assumes "undo_wf m" "redo_stack m \<noteq> []"
  shows "redo_op f n ms m =
    (Some (last (redo_stack m)),
     m\<lparr>undo_stack := undo_stack m @ [new_checkpoint f n ms (''Turn '' @ show_nat n)],
       redo_stack := butlast (redo_stack m)\<rparr>)"
  using assms by (cases "redo_stack m" rule: rev_cases)
    (auto simp: undo_wf_def undo_defs undo_count_def redo_count_def pop_front_over_eq)

lemma undo_wf_redo [claw_inv]: "undo_wf m \<Longrightarrow> undo_wf (snd (redo_op f n ms m))"
  by (cases "redo_stack m" rule: rev_cases)
     (auto simp: redo_no_trim undo_wf_def undo_count_def redo_count_def, simp add: redo_op_def)

lemma position_Some: "position i cs = Some k \<Longrightarrow> k < length cs \<and> cp_id (cs ! k) = i"
  by (induction cs arbitrary: k) (auto split: if_splits)

lemma position_None: "position i cs = None \<longleftrightarrow> (\<forall>c \<in> set cs. cp_id c \<noteq> i)"
  by (induction cs) auto

lemma position_first: "position i cs = Some k \<Longrightarrow> j < k \<Longrightarrow> cp_id (cs ! j) \<noteq> i"
proof (induction cs arbitrary: k j)
  case (Cons c cs)
  then show ?case by (cases j) (auto split: if_splits)
qed simp

lemma restore_found:
  assumes "position i (undo_stack m) = Some k"
  shows "restore i m = (Some (undo_stack m ! k), m\<lparr>redo_stack := [], undo_stack := take k (undo_stack m)\<rparr>)"
proof -
  from assms have k: "k < length (undo_stack m)" using position_Some by blast
  then have "take (Suc k) (undo_stack m) = take k (undo_stack m) @ [undo_stack m ! k]"
    by (simp add: take_Suc_conv_app_nth)
  with k assms show ?thesis by (simp add: restore_def Let_def)
qed

lemma undo_wf_restore [claw_inv]: "undo_wf m \<Longrightarrow> undo_wf (snd (restore i m))"
  using restore_found [of i m]
  by (cases "position i (undo_stack m)") (auto simp: restore_def undo_wf_def undo_count_def redo_count_def)

lemma undo_wf_clear [claw_inv]: "undo_wf (clear_undo m)"
  by (simp add: undo_wf_def clear_undo_def undo_count_def redo_count_def)

subsection \<open>Walking back and forth\<close>

text \<open>
  The contract of a reversible history: a state, a step back and a step forward, each of which may
  be unavailable. Whenever a step back is possible, a step forward is possible afterwards and leads
  to an equivalent state.
\<close>

locale reversible_history =
  fixes bwd :: "'s \<Rightarrow> 's option"
    and fwd :: "'s \<Rightarrow> 's option"
    and eqv :: "'s \<Rightarrow> 's \<Rightarrow> bool"
    and inv :: "'s \<Rightarrow> bool"
  assumes eqv_refl: "eqv s s"
    and eqv_sym: "eqv s t \<Longrightarrow> eqv t s"
    and eqv_trans: "eqv s t \<Longrightarrow> eqv t u \<Longrightarrow> eqv s u"
    and inv_back: "inv s \<Longrightarrow> bwd s = Some t \<Longrightarrow> inv t"
    and inv_forth: "inv s \<Longrightarrow> fwd s = Some t \<Longrightarrow> inv t"
    and forth_back: "inv s \<Longrightarrow> bwd s = Some t \<Longrightarrow> \<exists>u. fwd t = Some u \<and> eqv u s"
    and forth_cong: "inv s \<Longrightarrow> inv t \<Longrightarrow> eqv s t \<Longrightarrow> fwd s = Some u \<Longrightarrow> \<exists>v. fwd t = Some v \<and> eqv v u"
begin

lemma forths_backs:
  "inv s \<Longrightarrow> iter_opt n bwd s = Some t \<Longrightarrow> \<exists>u. iter_opt n fwd t = Some u \<and> eqv u s"
proof (induction n arbitrary: s)
  case (Suc n)
  then obtain s1 where s1: "bwd s = Some s1" "iter_opt n bwd s1 = Some t" by (auto split: bind_splits)
  then have i: "inv s1" using Suc.prems inv_back by blast
  then obtain u where u: "iter_opt n fwd t = Some u" "eqv u s1" using Suc.IH s1 by blast
  have "inv t" using iter_opt_inv [of inv bwd] inv_back i s1 by blast
  then have "inv u" using iter_opt_inv [of inv fwd] inv_forth u by blast
  obtain w where w: "fwd s1 = Some w" "eqv w s" using forth_back Suc.prems s1 by blast
  from forth_cong [OF i \<open>inv u\<close> eqv_sym [OF u(2)] w(1)] obtain v where "fwd u = Some v" "eqv v w"
    by blast
  with u w show ?case using eqv_trans by (auto simp: iter_opt_Suc_right simp del: iter_opt.simps)
qed (auto intro: eqv_refl)

end

text \<open>
  The client's side: it holds a current snapshot (turn number and messages), hands it to the
  manager and continues from the checkpoint it gets back.
\<close>

type_synonym snapshot = "nat \<times> chat_message list"

definition snap :: "checkpoint \<Rightarrow> snapshot" where
  "snap cp = (cp_turn_number cp, cp_messages cp)"

definition walk_undo :: "uuid \<Rightarrow> snapshot \<times> undo_manager \<Rightarrow> (snapshot \<times> undo_manager) option" where
  "walk_undo f = (\<lambda>((n, ms), m). case undo_op f n ms m of
     (Some cp, m') \<Rightarrow> Some (snap cp, m') | (None, _) \<Rightarrow> None)"

definition walk_redo :: "uuid \<Rightarrow> snapshot \<times> undo_manager \<Rightarrow> (snapshot \<times> undo_manager) option" where
  "walk_redo f = (\<lambda>((n, ms), m). case redo_op f n ms m of
     (Some cp, m') \<Rightarrow> Some (snap cp, m') | (None, _) \<Rightarrow> None)"

definition same_history :: "snapshot \<times> undo_manager \<Rightarrow> snapshot \<times> undo_manager \<Rightarrow> bool" where
  "same_history = (\<lambda>(a, m) (b, k). a = b \<and> map snap (undo_stack m) = map snap (undo_stack k) \<and>
     map snap (redo_stack m) = map snap (redo_stack k) \<and> max_checkpoints m = max_checkpoints k)"

lemma snap_new_checkpoint [simp]: "snap (new_checkpoint f n ms d) = (n, ms)"
  by (simp add: snap_def new_checkpoint_def)

lemma walk_undo_Some:
  "walk_undo f ((n, ms), m) = Some t \<longleftrightarrow>
     undo_stack m \<noteq> [] \<and> t = (snap (last (undo_stack m)),
       m\<lparr>undo_stack := butlast (undo_stack m),
         redo_stack := redo_stack m @ [new_checkpoint f n ms (''Turn '' @ show_nat n)]\<rparr>)"
  by (auto simp: walk_undo_def undo_op_def Let_def)

lemma walk_redo_Some:
  "undo_wf m \<Longrightarrow> walk_redo f ((n, ms), m) = Some t \<longleftrightarrow>
     redo_stack m \<noteq> [] \<and> t = (snap (last (redo_stack m)),
       m\<lparr>undo_stack := undo_stack m @ [new_checkpoint f n ms (''Turn '' @ show_nat n)],
         redo_stack := butlast (redo_stack m)\<rparr>)"
  by (cases "redo_stack m = []") (auto simp: walk_redo_def redo_no_trim, simp add: redo_op_def)

lemma walk_redo_cong:
  assumes "undo_wf m" "undo_wf k" "same_history ((n, ms), m) (b, k)" "walk_redo f ((n, ms), m) = Some u"
  shows "\<exists>v. walk_redo f (b, k) = Some v \<and> same_history v u"
proof -
  from assms have r: "redo_stack m \<noteq> []" "redo_stack k \<noteq> []" "b = (n, ms)"
    by (auto simp: same_history_def walk_redo_Some)
  have "map snap (redo_stack m) = map snap (redo_stack k)"
    using assms(3) by (simp add: same_history_def)
  with r have "snap (last (redo_stack m)) = snap (last (redo_stack k))"
    using last_map [of "redo_stack m" snap] last_map [of "redo_stack k" snap] by simp
  with r assms show ?thesis
    by (auto simp: same_history_def walk_redo_Some map_butlast)
qed

lemma walk_undo_wf: "undo_wf m \<Longrightarrow> walk_undo f (cur, m) = Some (cur', m') \<Longrightarrow> undo_wf m'"
  using undo_wf_undo [of m f "fst cur" "snd cur"]
  by (cases cur) (auto simp: walk_undo_def split: prod.splits option.splits)

lemma walk_redo_wf: "undo_wf m \<Longrightarrow> walk_redo f (cur, m) = Some (cur', m') \<Longrightarrow> undo_wf m'"
  using undo_wf_redo [of m f "fst cur" "snd cur"]
  by (cases cur) (auto simp: walk_redo_def split: prod.splits option.splits)

lemma walk_redo_after_undo:
  assumes wf: "undo_wf m" and u: "walk_undo i (cur, m) = Some t"
  shows "\<exists>u. walk_redo j t = Some u \<and> same_history u (cur, m)"
proof -
  obtain n ms where cur: "cur = (n, ms)" by (cases cur)
  with u obtain us c where us: "undo_stack m = us @ [c]"
    by (cases "undo_stack m" rule: rev_cases) (auto simp: walk_undo_Some)
  let ?k = "m\<lparr>undo_stack := us, redo_stack := redo_stack m @ [new_checkpoint i n ms (''Turn '' @ show_nat n)]\<rparr>"
  have t: "t = ((cp_turn_number c, cp_messages c), ?k)"
    using u cur us by (simp add: walk_undo_Some snap_def)
  have "undo_wf ?k" using walk_undo_wf wf u t by blast
  then show ?thesis
    unfolding t by (simp add: walk_redo_Some same_history_def us cur) (simp add: snap_def)
qed

interpretation um: reversible_history "walk_undo i" "walk_redo j" same_history "\<lambda>(_, m). undo_wf m" for i j
proof (unfold_locales, goal_cases)
  case (4 s t)
  then show ?case using walk_undo_wf by (cases s; cases t) auto
next
  case (5 s t)
  then show ?case using walk_redo_wf by (cases s; cases t) auto
next
  case (6 s t)
  then show ?case using walk_redo_after_undo by (cases s) auto
next
  case (7 s t u)
  then show ?case using walk_redo_cong by (cases s; cases "fst s"; cases t) auto
qed (auto simp: same_history_def)

text \<open>
  C13: Undo and redo are inverse: when \<open>n\<close> undos in a row succeed, \<open>n\<close> redos in a row succeed
  afterwards and bring the client back to the snapshot it started from, with the same undo and redo
  histories (up to the identifiers and labels of re-saved checkpoints).
\<close>

theorem undo_redo_roundtrip:
  assumes "undo_wf m" and "iter_opt n (walk_undo i) (cur, m) = Some t"
  shows "\<exists>m'. iter_opt n (walk_redo j) t = Some (cur, m') \<and>
    map snap (undo_stack m') = map snap (undo_stack m) \<and>
    map snap (redo_stack m') = map snap (redo_stack m)"
  using um.forths_backs [of "(cur, m)" n i t j] assms by (auto simp: same_history_def)

theorem undo_redo_roundtrip_witness:
  "\<exists>m'. iter_opt 2 (walk_redo 9) ((1, []), \<lparr>undo_stack = [], redo_stack =
       [new_checkpoint 5 3 [user_msg ''b''] ''Turn 3'', new_checkpoint 5 2 [user_msg ''a''] ''Turn 2''],
       max_checkpoints = 20\<rparr>) = Some ((3, [user_msg ''b'']), m')"
proof -
  let ?m = "\<lparr>undo_stack = [new_checkpoint 1 1 [] ''x'', new_checkpoint 2 2 [user_msg ''a''] ''y''],
             redo_stack = [], max_checkpoints = 20\<rparr>"
  have "undo_wf ?m" by (simp add: undo_wf_def undo_count_def redo_count_def)
  moreover have "iter_opt 2 (walk_undo 5) ((3, [user_msg ''b'']), ?m) =
     Some ((1, []), \<lparr>undo_stack = [], redo_stack =
       [new_checkpoint 5 3 [user_msg ''b''] ''Turn 3'', new_checkpoint 5 2 [user_msg ''a''] ''Turn 2''],
       max_checkpoints = 20\<rparr>)"
    by code_simp
  ultimately show ?thesis using undo_redo_roundtrip by blast
qed

subsection \<open>Every use of the manager\<close>

inductive undo_step :: "undo_manager \<Rightarrow> undo_manager \<Rightarrow> bool" where
  us_checkpoint: "undo_step m (checkpoint_op f n ms d m)"
| us_undo: "undo_step m (snd (undo_op f n ms m))"
| us_redo: "undo_step m (snd (redo_op f n ms m))"
| us_restore: "undo_step m (snd (restore i m))"
| us_clear: "undo_step m (clear_undo m)"

lemma undo_step_wf: "undo_step m k \<Longrightarrow> undo_wf m \<Longrightarrow> undo_wf k"
  by (induction rule: undo_step.induct) (auto intro: claw_inv)

lemma max_checkpoints_const [simp]:
  "max_checkpoints (push_undo cp m) = max_checkpoints m"
  "max_checkpoints (snd (restore i m)) = max_checkpoints m"
  by (auto simp: push_undo_def restore_def Let_def split: option.splits)

lemma undo_step_max: "undo_step m k \<Longrightarrow> max_checkpoints k = max_checkpoints m"
  by (induction rule: undo_step.induct) (auto simp: checkpoint_op_def undo_op_def redo_op_def clear_undo_def Let_def)

text \<open>
  However a manager is used, it never holds more than twenty checkpoints over both stacks, and
  an undo or a redo only moves a checkpoint between the stacks: the sum of the two counts stays the
  same.
\<close>

theorem undo_history_bounded:
  assumes "undo_step\<^sup>*\<^sup>* new_undo_manager m"
  shows "undo_count m + redo_count m \<le> 20 \<and>
    undo_count (snd (undo_op f n ms m)) + redo_count (snd (undo_op f n ms m)) = undo_count m + redo_count m \<and>
    undo_count (snd (redo_op f n ms m)) + redo_count (snd (redo_op f n ms m)) = undo_count m + redo_count m"
proof -
  from assms have m: "undo_wf m \<and> max_checkpoints m = 20"
  proof (induction rule: rtranclp_induct)
    case base
    then show ?case by (auto intro: undo_wf_new simp: new_undo_manager_def [THEN arg_cong [of _ _ max_checkpoints]])
  next
    case (step y z)
    then show ?case using undo_step_wf undo_step_max by metis
  qed
  have "undo_count (snd (undo_op f n ms m)) + redo_count (snd (undo_op f n ms m)) = undo_count m + redo_count m"
    by (cases "undo_stack m" rule: rev_cases) (auto simp: undo_op_def Let_def undo_count_def redo_count_def)
  moreover have "undo_count (snd (redo_op f n ms m)) + redo_count (snd (redo_op f n ms m)) = undo_count m + redo_count m"
    using m redo_no_trim [of m f n ms]
    by (cases "redo_stack m" rule: rev_cases) (auto simp: undo_count_def redo_count_def, simp add: redo_op_def)
  ultimately show ?thesis using m by (simp add: undo_wf_def)
qed

theorem undo_history_bounded_witness:
  "undo_count (checkpoint_op 1 1 [] ''d'' new_undo_manager) + redo_count (checkpoint_op 1 1 [] ''d'' new_undo_manager) \<le> 20"
  using undo_history_bounded [OF r_into_rtranclp, OF us_checkpoint] by blast

text \<open>
  Resuming from a checkpoint returns the oldest checkpoint with that identifier, drops it and
  everything saved after it, empties the redo history, and leaves the older checkpoints untouched;
  with an unknown identifier nothing changes.
\<close>

theorem restore_spec:
  "restore i m =
     (case position i (undo_stack m) of
        None \<Rightarrow> (None, m)
      | Some k \<Rightarrow> (Some (undo_stack m ! k), m\<lparr>redo_stack := [], undo_stack := take k (undo_stack m)\<rparr>)) \<and>
   (position i (undo_stack m) = None \<longleftrightarrow> (\<forall>c \<in> set (undo_stack m). cp_id c \<noteq> i)) \<and>
   (\<forall>k. position i (undo_stack m) = Some k \<longrightarrow>
      k < length (undo_stack m) \<and> cp_id (undo_stack m ! k) = i \<and> (\<forall>j<k. cp_id (undo_stack m ! j) \<noteq> i))"
proof -
  have none: "position i (undo_stack m) = None \<longleftrightarrow> (\<forall>c \<in> set (undo_stack m). cp_id c \<noteq> i)"
    by (rule position_None)
  show ?thesis
  proof (cases "position i (undo_stack m)")
    case None
    with none show ?thesis by (simp add: restore_def)
  next
    case (Some k)
    with none have "\<not> (\<forall>c \<in> set (undo_stack m). cp_id c \<noteq> i)" by simp
    with Some show ?thesis
      using position_first [of i "undo_stack m" k] position_Some [OF Some] by (simp add: restore_found)
  qed
qed

theorem restore_spec_witness:
  "fst (restore 2 \<lparr>undo_stack = [new_checkpoint 1 1 [] ''x'', new_checkpoint 2 2 [] ''y''],
     redo_stack = [], max_checkpoints = 20\<rparr>) = Some (new_checkpoint 2 2 [] ''y'')"
  using restore_spec [of 2 "\<lparr>undo_stack = [new_checkpoint 1 1 [] ''x'', new_checkpoint 2 2 [] ''y''],
     redo_stack = [], max_checkpoints = 20\<rparr>"]
  by (simp add: new_checkpoint_def)

end
