(* ===== verification/Session_Manager.thy ===== *)
theory Session_Manager
  imports Session_Thread Undo_Manager
begin

text \<open>
  The session manager of \<open>src/agent/session_manager.rs\<close>. Sessions and undo managers are shared
  behind \<open>Arc<Mutex<_>>\<close>; the model keeps them in two stores and a reference is an index into its
  store, so that a session a caller still holds outlives its entry in the map. \<open>Uuid::parse_str\<close>
  and \<open>Uuid::to_string\<close> are the parameters \<open>parse\<close> and \<open>render\<close>; fresh identifiers and clock
  readings are arguments. The lifecycle hooks are fire-and-forget and not part of the state.
  Lemmas: resolving is stable and isolates channel scopes, pruning removes exactly the sessions
  whose stamp is old, and that stamp does not follow the use of a session.
\<close>

record thread_key =
  tk_user_id :: string
  tk_channel :: string
  external_thread_id :: "string option"

record session_manager =
  sessions :: "(string, nat) hmap"
  thread_map :: "(thread_key, uuid) hmap"
  undo_managers :: "(uuid, nat) hmap"
  session_store :: "session list"
  undo_store :: "undo_manager list"

definition new_session_manager :: session_manager where
  "new_session_manager =
     \<lparr>sessions = [], thread_map = [], undo_managers = [], session_store = [], undo_store = []\<rparr>"

text \<open>Locking a shared session (undo manager) and changing it.\<close>

definition upd_session :: "nat \<Rightarrow> (session \<Rightarrow> session) \<Rightarrow> session_manager \<Rightarrow> session_manager" where
  "upd_session r f m = m\<lparr>session_store := (session_store m)[r := f (session_store m ! r)]\<rparr>"

definition upd_undo :: "nat \<Rightarrow> (undo_manager \<Rightarrow> undo_manager) \<Rightarrow> session_manager \<Rightarrow> session_manager" where
  "upd_undo u f m = m\<lparr>undo_store := (undo_store m)[u := f (undo_store m ! u)]\<rparr>"

text \<open>The part under the write lock checks again for a session that appeared in between.\<close>

definition create_session_locked :: "uuid \<Rightarrow> datetime \<Rightarrow> string \<Rightarrow> session_manager \<Rightarrow> nat \<times> session_manager" where
  "create_session_locked fresh now uid m =
     (case map_of (sessions m) uid of
        Some r \<Rightarrow> (r, m)
      | None \<Rightarrow> (length (session_store m),
          m\<lparr>session_store := session_store m @ [new_session fresh now uid],
            sessions := AList.update uid (length (session_store m)) (sessions m)\<rparr>))"

definition get_or_create_session :: "uuid \<Rightarrow> datetime \<Rightarrow> string \<Rightarrow> session_manager \<Rightarrow> nat \<times> session_manager" where
  "get_or_create_session fresh now uid m =
     (case map_of (sessions m) uid of Some r \<Rightarrow> (r, m) | None \<Rightarrow> create_session_locked fresh now uid m)"

text \<open>The entry API on the undo managers: keep the entry that is there.\<close>

definition ensure_undo :: "uuid \<Rightarrow> session_manager \<Rightarrow> session_manager" where
  "ensure_undo t m =
     (case map_of (undo_managers m) t of
        Some _ \<Rightarrow> m
      | None \<Rightarrow> m\<lparr>undo_store := undo_store m @ [new_undo_manager],
                  undo_managers := AList.update t (length (undo_store m)) (undo_managers m)\<rparr>)"

definition insert_undo :: "uuid \<Rightarrow> session_manager \<Rightarrow> session_manager" where
  "insert_undo t m = m\<lparr>undo_store := undo_store m @ [new_undo_manager],
     undo_managers := AList.update t (length (undo_store m)) (undo_managers m)\<rparr>"

definition insert_mapping :: "thread_key \<Rightarrow> uuid \<Rightarrow> session_manager \<Rightarrow> session_manager" where
  "insert_mapping key t m = m\<lparr>thread_map := AList.update key t (thread_map m)\<rparr>"

definition is_mapped :: "uuid \<Rightarrow> session_manager \<Rightarrow> bool" where
  "is_mapped t m \<longleftrightarrow> t \<in> set (map snd (thread_map m))"

definition has_thread :: "nat \<Rightarrow> uuid \<Rightarrow> session_manager \<Rightarrow> bool" where
  "has_thread r t m \<longleftrightarrow> map_of (threads (session_store m ! r)) t \<noteq> None"

text \<open>The three stages of \<open>resolve_thread\<close>: a live mapping, adoption, a new thread.\<close>

definition resolve_mapped :: "thread_key \<Rightarrow> nat \<Rightarrow> session_manager \<Rightarrow> uuid option" where
  "resolve_mapped key r m =
     (case map_of (thread_map m) key of
        Some t \<Rightarrow> if has_thread r t m then Some t else None
      | None \<Rightarrow> None)"

definition adopt_candidate :: "(string \<Rightarrow> uuid option) \<Rightarrow> string option \<Rightarrow> nat \<Rightarrow> session_manager \<Rightarrow> uuid option" where
  "adopt_candidate parse ext r m =
     (case Option.bind ext parse of
        None \<Rightarrow> None
      | Some u \<Rightarrow> if \<not> is_mapped u m \<and> has_thread r u m then Some u else None)"

definition adopt_write :: "thread_key \<Rightarrow> uuid \<Rightarrow> session_manager \<Rightarrow> session_manager option" where
  "adopt_write key u m = (if \<not> is_mapped u m then Some (ensure_undo u (insert_mapping key u m)) else None)"

definition resolve_new :: "uuid \<Rightarrow> datetime \<Rightarrow> datetime \<Rightarrow> thread_key \<Rightarrow> nat \<Rightarrow> session_manager \<Rightarrow> uuid \<times> session_manager" where
  "resolve_new fresh n1 n2 key r m =
     (let (th, s) = create_thread fresh n1 n2 (session_store m ! r);
          t = thread_id th
      in (t, insert_undo t (insert_mapping key t (upd_session r (\<lambda>_. s) m))))"

definition resolve_thread ::
  "(string \<Rightarrow> uuid option) \<Rightarrow> uuid \<Rightarrow> uuid \<Rightarrow> datetime \<Rightarrow> datetime \<Rightarrow> datetime \<Rightarrow> string \<Rightarrow> string \<Rightarrow> string option
     \<Rightarrow> session_manager \<Rightarrow> (nat \<times> uuid) \<times> session_manager" where
  "resolve_thread parse fresh_s fresh_t n0 n1 n2 uid chan ext m =
     (let (r, m1) = get_or_create_session fresh_s n0 uid m;
          key = \<lparr>tk_user_id = uid, tk_channel = chan, external_thread_id = ext\<rparr>;
          create = (let (t, m2) = resolve_new fresh_t n1 n2 key r m1 in ((r, t), m2))
      in case resolve_mapped key r m1 of
           Some t \<Rightarrow> ((r, t), m1)
         | None \<Rightarrow> (case adopt_candidate parse ext r m1 of
             Some u \<Rightarrow> (case adopt_write key u m1 of Some m2 \<Rightarrow> ((r, u), m2) | None \<Rightarrow> create)
           | None \<Rightarrow> create))"

definition register_thread :: "(uuid \<Rightarrow> string) \<Rightarrow> string \<Rightarrow> string \<Rightarrow> uuid \<Rightarrow> nat \<Rightarrow> session_manager \<Rightarrow> session_manager" where
  "register_thread render uid chan t r m =
     (let key = \<lparr>tk_user_id = uid, tk_channel = chan, external_thread_id = Some (render t)\<rparr>;
          m1 = ensure_undo t (insert_mapping key t m)
      in case map_of (sessions m1) uid of
           Some _ \<Rightarrow> m1
         | None \<Rightarrow> m1\<lparr>sessions := AList.update uid r (sessions m1)\<rparr>)"

definition get_undo_manager :: "uuid \<Rightarrow> session_manager \<Rightarrow> nat \<times> session_manager" where
  "get_undo_manager t m =
     (case map_of (undo_managers m) t of
        Some u \<Rightarrow> (u, m)
      | None \<Rightarrow> (case map_of (undo_managers m) t of
          Some u \<Rightarrow> (u, m)
        | None \<Rightarrow> (length (undo_store m), insert_undo t m)))"

subsection \<open>Pruning\<close>

text \<open>
  \<open>held1\<close> and \<open>held2\<close> are the sessions whose lock is taken during the two read passes, where
  \<open>try_lock\<close> fails. The cutoff uses whole seconds of the idle limit.
\<close>

definition cutoff :: "datetime \<Rightarrow> duration \<Rightarrow> datetime" where
  "cutoff now max_idle = now - int (max_idle div 1000000000) * 1000000000"

definition stale_users :: "datetime \<Rightarrow> nat set \<Rightarrow> session_manager \<Rightarrow> string list" where
  "stale_users limit held1 m =
     map fst (filter (\<lambda>(uid, r). r \<notin> held1 \<and> last_active_at (session_store m ! r) < limit) (sessions m))"

definition stale_thread_ids :: "string list \<Rightarrow> nat set \<Rightarrow> session_manager \<Rightarrow> uuid list" where
  "stale_thread_ids users held2 m =
     concat (map (\<lambda>uid. case map_of (sessions m) uid of
         Some r \<Rightarrow> if r \<notin> held2 then map fst (threads (session_store m ! r)) else []
       | None \<Rightarrow> []) users)"

definition prune_stale_sessions ::
  "datetime \<Rightarrow> duration \<Rightarrow> nat set \<Rightarrow> nat set \<Rightarrow> session_manager \<Rightarrow> nat \<times> session_manager" where
  "prune_stale_sessions now max_idle held1 held2 m =
     (let users = stale_users (cutoff now max_idle) held1 m in
      if users = [] then (0, m)
      else let ids = stale_thread_ids users held2 m;
               ss = fold AList.delete users (sessions m)
           in (length (sessions m) - length ss,
               m\<lparr>sessions := ss,
                 thread_map := filter (\<lambda>(key, _). tk_user_id key \<notin> set users) (thread_map m),
                 undo_managers := fold AList.delete ids (undo_managers m)\<rparr>))"

subsection \<open>The invariant\<close>

definition sm_wf :: "session_manager \<Rightarrow> bool" where
  "sm_wf m \<longleftrightarrow> hm_wf (sessions m) \<and> hm_wf (thread_map m) \<and> hm_wf (undo_managers m) \<and>
     (\<forall>uid r. map_of (sessions m) uid = Some r \<longrightarrow> r < length (session_store m) \<and> sess_user_id (session_store m ! r) = uid) \<and>
     (\<forall>s \<in> set (session_store m). wf_session s) \<and>
     (\<forall>t \<in> set (map snd (thread_map m)). map_of (undo_managers m) t \<noteq> None) \<and>
     (\<forall>t u. map_of (undo_managers m) t = Some u \<longrightarrow> u < length (undo_store m))"

text \<open>Channel isolation: no thread is reached under two keys.\<close>

definition isolated :: "session_manager \<Rightarrow> bool" where
  "isolated m \<longleftrightarrow> distinct (map snd (thread_map m))"

definition unused_id :: "uuid \<Rightarrow> session_manager \<Rightarrow> bool" where
  "unused_id t m \<longleftrightarrow> \<not> is_mapped t m \<and> (\<forall>s \<in> set (session_store m). map_of (threads s) t = None)"

lemma sm_wf_new: "sm_wf new_session_manager \<and> isolated new_session_manager"
  by (simp add: sm_wf_def isolated_def new_session_manager_def)

lemma values_update: "set (map snd (AList.update k v xs)) \<subseteq> insert v (set (map snd xs))"
  by (induction xs) auto

lemma distinct_values_update:
  "distinct (map snd xs) \<Longrightarrow> v \<notin> set (map snd xs) \<Longrightarrow> distinct (map snd (AList.update k v xs))"
proof (induction xs)
  case (Cons x xs)
  then show ?case using values_update [of k v xs] by (cases x) auto
qed simp

lemma sess_user_id_new [simp]: "sess_user_id (new_session fresh now uid) = uid"
  by (simp add: new_session_def)

lemma sm_wf_session:
  assumes "sm_wf m"
  shows "sm_wf (snd (get_or_create_session fs now uid m))"
    "thread_map (snd (get_or_create_session fs now uid m)) = thread_map m"
    "map_of (sessions (snd (get_or_create_session fs now uid m))) uid = Some (fst (get_or_create_session fs now uid m))"
  using assms
  by (auto simp: get_or_create_session_def create_session_locked_def sm_wf_def nth_append wf_new_session
      distinct_update update_conv' less_Suc_eq split: option.splits if_splits)

lemma sm_wf_mapping:
  assumes "sm_wf m" "map_of (undo_managers m) t \<noteq> None"
  shows "sm_wf (insert_mapping key t m)"
proof -
  have "\<forall>u \<in> set (map snd (AList.update key t (thread_map m))). map_of (undo_managers m) u \<noteq> None"
    using assms values_update [of key t "thread_map m"] unfolding sm_wf_def by blast
  with assms show ?thesis by (simp add: sm_wf_def insert_mapping_def distinct_update)
qed

lemma sm_wf_undo: "sm_wf m \<Longrightarrow> sm_wf (insert_undo t m)" "sm_wf m \<Longrightarrow> sm_wf (ensure_undo t m)"
  by (auto simp: sm_wf_def insert_undo_def ensure_undo_def distinct_update update_conv' less_Suc_eq
      split: option.splits)

lemma ensure_undo_commute: "ensure_undo t (insert_mapping key t m) = insert_mapping key t (ensure_undo t m)"
  by (auto simp: ensure_undo_def insert_mapping_def split: option.split)

lemma insert_undo_commute: "insert_undo t (insert_mapping key t m) = insert_mapping key t (insert_undo t m)"
  by (simp add: insert_undo_def insert_mapping_def)

lemma undo_present:
  "map_of (undo_managers (ensure_undo t m)) t \<noteq> None" "map_of (undo_managers (insert_undo t m)) t \<noteq> None"
  by (auto simp: ensure_undo_def insert_undo_def update_conv' split: option.split)

lemma sm_wf_upd_session:
  assumes "sm_wf m" "wf_session s" "r < length (session_store m)" "sess_user_id s = sess_user_id (session_store m ! r)"
  shows "sm_wf (upd_session r (\<lambda>_. s) m)"
  using assms by (auto simp: sm_wf_def upd_session_def nth_list_update dest: set_update_subset_insert [THEN subsetD])

lemma sm_wf_store: "sm_wf m \<Longrightarrow> map_of (sessions m) uid = Some r \<Longrightarrow>
    r < length (session_store m) \<and> wf_session (session_store m ! r) \<and> sess_user_id (session_store m ! r) = uid"
  by (auto simp: sm_wf_def)

lemma create_thread_fresh:
  assumes "map_of (threads s) fresh = None"
  shows "create_thread fresh n1 n2 s = (new_thread n1 fresh (sess_id s),
    s\<lparr>active_thread_id := Some fresh, last_active_at := n2,
      threads := AList.update fresh (new_thread n1 fresh (sess_id s)) (threads s)\<rparr>)"
  using assms by (simp add: create_thread_def Let_def)

lemma resolve_new_spec:
  assumes "sm_wf m" "isolated m" "map_of (sessions m) uid = Some r" "unused_id fresh m"
    and "resolve_new fresh n1 n2 key r m = (t, m')"
  shows "t = fresh \<and> sm_wf m' \<and> isolated m' \<and> map_of (thread_map m') key = Some t \<and> has_thread r t m' \<and>
    sessions m' = sessions m"
proof -
  let ?s = "session_store m ! r"
  define s' where "s' = snd (create_thread fresh n1 n2 ?s)"
  have r: "r < length (session_store m)" "wf_session ?s" using sm_wf_store [OF assms(1,3)] by auto
  with assms(4) have none: "map_of (threads ?s) fresh = None" by (auto simp: unused_id_def)
  have wf': "wf_session s'" unfolding s'_def by (rule create_thread_wf [OF r(2)])
  have s': "sess_user_id s' = sess_user_id ?s" "map_of (threads s') fresh \<noteq> None"
    unfolding s'_def create_thread_fresh [OF none] by (simp_all add: update_conv')
  have t: "t = fresh" and m': "m' = insert_mapping key t (insert_undo t (upd_session r (\<lambda>_. s') m))"
    using assms(5) none
    by (auto simp: resolve_new_def s'_def create_thread_fresh new_thread_def insert_undo_commute)
  have "sm_wf m'"
    unfolding m' by (intro sm_wf_mapping sm_wf_undo sm_wf_upd_session undo_present wf' s' assms r)
  moreover have "isolated m'"
    using assms(2,4) distinct_values_update [of "thread_map m" fresh key]
    by (simp add: m' t isolated_def insert_mapping_def insert_undo_def upd_session_def unused_id_def is_mapped_def)
  ultimately show ?thesis
    using s' r t by (simp add: m' insert_mapping_def insert_undo_def upd_session_def has_thread_def update_conv')
qed

lemma adopt_write_spec:
  assumes "sm_wf m" "isolated m" "adopt_write key u m = Some m'"
  shows "sm_wf m' \<and> isolated m' \<and> map_of (thread_map m') key = Some u \<and>
    session_store m' = session_store m \<and> sessions m' = sessions m"
proof -
  have u: "\<not> is_mapped u m" and m': "m' = insert_mapping key u (ensure_undo u m)"
    using assms(3) by (auto simp: adopt_write_def ensure_undo_commute split: if_splits)
  have "sm_wf m'" unfolding m' by (intro sm_wf_mapping sm_wf_undo undo_present assms)
  moreover have "isolated m'"
    using assms(2) u distinct_values_update [of "thread_map m" u key]
    by (auto simp: m' isolated_def insert_mapping_def ensure_undo_def is_mapped_def split: option.split)
  ultimately show ?thesis
    by (auto simp: m' insert_mapping_def ensure_undo_def update_conv' split: option.split)
qed

lemma unused_get_or_create: "unused_id t m \<Longrightarrow> unused_id t (snd (get_or_create_session fs now uid m))"
  by (auto simp: unused_id_def is_mapped_def get_or_create_session_def create_session_locked_def
      new_session_def split: option.split)

lemma isolated_key: "isolated m \<Longrightarrow> map_of (thread_map m) k = Some t \<Longrightarrow> map_of (thread_map m) k' = Some t \<Longrightarrow> k = k'"
  unfolding isolated_def by (metis distinct_map inj_onD map_of_SomeD prod.inject snd_conv)

lemma resolve_thread_cases:
  assumes "get_or_create_session fs n0 uid m = (r1, m1)"
    and "resolve_thread parse fs fresh_t n0 n1 n2 uid chan ext m = ((r, t), m')"
  defines "key \<equiv> \<lparr>tk_user_id = uid, tk_channel = chan, external_thread_id = ext\<rparr>"
  shows "r = r1 \<and>
     (resolve_mapped key r1 m1 = Some t \<and> m' = m1 \<or>
      adopt_candidate parse ext r1 m1 = Some t \<and> adopt_write key t m1 = Some m' \<or>
      resolve_new fresh_t n1 n2 key r1 m1 = (t, m'))"
proof -
  obtain t2 m2 where new: "resolve_new fresh_t n1 n2 key r1 m1 = (t2, m2)" by fastforce
  have eq: "resolve_thread parse fs fresh_t n0 n1 n2 uid chan ext m =
     (case resolve_mapped key r1 m1 of Some t \<Rightarrow> ((r1, t), m1)
      | None \<Rightarrow> (case adopt_candidate parse ext r1 m1 of
          Some u \<Rightarrow> (case adopt_write key u m1 of Some m2 \<Rightarrow> ((r1, u), m2) | None \<Rightarrow> ((r1, t2), m2))
        | None \<Rightarrow> ((r1, t2), m2)))"
    unfolding resolve_thread_def assms(1) key_def [symmetric] Let_def prod.case new by (rule refl)
  show ?thesis
    using assms(2) unfolding eq new
    by (cases "resolve_mapped key r1 m1"; cases "adopt_candidate parse ext r1 m1";
        cases "adopt_write key (the (adopt_candidate parse ext r1 m1)) m1") simp_all
qed

lemma resolve_thread_post:
  assumes "sm_wf m" "isolated m" "unused_id fresh_t m"
    and "resolve_thread parse fs fresh_t n0 n1 n2 uid chan ext m = ((r, t), m')"
  shows "sm_wf m' \<and> isolated m' \<and> map_of (sessions m') uid = Some r \<and> has_thread r t m' \<and>
    map_of (thread_map m') \<lparr>tk_user_id = uid, tk_channel = chan, external_thread_id = ext\<rparr> = Some t"
proof -
  define m1 where "m1 = snd (get_or_create_session fs n0 uid m)"
  define r1 where "r1 = fst (get_or_create_session fs n0 uid m)"
  let ?key = "\<lparr>tk_user_id = uid, tk_channel = chan, external_thread_id = ext\<rparr>"
  have p: "get_or_create_session fs n0 uid m = (r1, m1)" by (simp add: m1_def r1_def)
  have w: "sm_wf m1" "isolated m1" "map_of (sessions m1) uid = Some r1" "unused_id fresh_t m1"
    using sm_wf_session [OF assms(1)] assms(2) unused_get_or_create [OF assms(3)]
    by (simp_all add: m1_def r1_def isolated_def)
  consider (mapped) "resolve_mapped ?key r1 m1 = Some t" "m' = m1" "r = r1"
    | (adopted) "adopt_candidate parse ext r1 m1 = Some t" "adopt_write ?key t m1 = Some m'" "r = r1"
    | (fresh) "resolve_new fresh_t n1 n2 ?key r1 m1 = (t, m')" "r = r1"
    using resolve_thread_cases [OF p assms(4)] by blast
  then show ?thesis
  proof cases
    case mapped
    with w show ?thesis by (auto simp: resolve_mapped_def split: option.splits if_splits)
  next
    case adopted
    with adopt_write_spec [OF w(1,2) adopted(2)] w(3) show ?thesis
      by (auto simp: adopt_candidate_def has_thread_def split: option.splits if_splits)
  next
    case fresh
    with resolve_new_spec [OF w fresh(1)] w(3) show ?thesis by metis
  qed
qed



subsection \<open>What pruning removes\<close>

lemma fold_delete: "fold AList.delete ks m = filter (\<lambda>(k, _). k \<notin> set ks) m"
proof (induction ks arbitrary: m)
  case (Cons k ks)
  then show ?case by (auto simp: AList.delete_eq case_prod_unfold conj_commute intro: filter_cong)
qed simp

lemma map_of_filter_keys: "map_of (filter (\<lambda>(k, _). P k) m) k = (if P k then map_of m k else None)"
  by (induction m) auto

definition is_stale :: "datetime \<Rightarrow> duration \<Rightarrow> nat set \<Rightarrow> session_manager \<Rightarrow> string \<Rightarrow> bool" where
  "is_stale now max_idle held m uid \<longleftrightarrow>
     (\<exists>r. map_of (sessions m) uid = Some r \<and> r \<notin> held \<and>
          last_active_at (session_store m ! r) < cutoff now max_idle)"

lemma set_stale_users: "hm_wf (sessions m) \<Longrightarrow> set (stale_users (cutoff now mi) held m) = {uid. is_stale now mi held m uid}"
  by (force simp: stale_users_def is_stale_def map_of_eq_Some_iff)

lemma prune_sessions:
  assumes "hm_wf (sessions m)"
  shows "sessions (snd (prune_stale_sessions now mi h1 h2 m)) = filter (\<lambda>(uid, _). \<not> is_stale now mi h1 m uid) (sessions m)"
    "thread_map (snd (prune_stale_sessions now mi h1 h2 m)) =
       filter (\<lambda>(key, _). \<not> is_stale now mi h1 m (tk_user_id key)) (thread_map m)"
proof -
  let ?u = "stale_users (cutoff now mi) h1 m"
  have u: "set ?u = {uid. is_stale now mi h1 m uid}" by (rule set_stale_users [OF assms])
  then have "?u = [] \<Longrightarrow> \<not> is_stale now mi h1 m uid" for uid by auto
  with u show "sessions (snd (prune_stale_sessions now mi h1 h2 m)) = filter (\<lambda>(uid, _). \<not> is_stale now mi h1 m uid) (sessions m)"
    "thread_map (snd (prune_stale_sessions now mi h1 h2 m)) =
       filter (\<lambda>(key, _). \<not> is_stale now mi h1 m (tk_user_id key)) (thread_map m)"
    by (auto simp: prune_stale_sessions_def Let_def fold_delete)
qed

lemma prune_store [simp]: "session_store (snd (prune_stale_sessions now mi h1 h2 m)) = session_store m"
  by (simp add: prune_stale_sessions_def Let_def)

lemma prune_count:
  "fst (prune_stale_sessions now mi h1 h2 m) = length (sessions m) - length (sessions (snd (prune_stale_sessions now mi h1 h2 m)))"
  by (simp add: prune_stale_sessions_def Let_def)

text \<open>
  Pruning drops exactly the sessions that nobody holds and whose last stamp lies before the
  cutoff, together with every scope of their users; other users keep their session, the result is
  the number of dropped sessions, and no session that a caller still holds is changed.
\<close>

theorem prune_exact:
  assumes "hm_wf (sessions m)" "prune_stale_sessions now mi h1 h2 m = (n, m')"
  shows "map_of (sessions m') uid = (if is_stale now mi h1 m uid then None else map_of (sessions m) uid) \<and>
    map_of (thread_map m') key = (if is_stale now mi h1 m (tk_user_id key) then None else map_of (thread_map m) key) \<and>
    n = length (filter (\<lambda>(uid, _). is_stale now mi h1 m uid) (sessions m)) \<and>
    session_store m' = session_store m"
proof -
  have m': "m' = snd (prune_stale_sessions now mi h1 h2 m)" and n: "n = fst (prune_stale_sessions now mi h1 h2 m)"
    using assms(2) by simp_all
  have "length (filter (\<lambda>(uid, _). is_stale now mi h1 m uid) (sessions m))
      + length (filter (\<lambda>(uid, _). \<not> is_stale now mi h1 m uid) (sessions m)) = length (sessions m)"
    using sum_length_filter_compl [of "\<lambda>p. is_stale now mi h1 m (fst p)" "sessions m"] by (simp add: case_prod_unfold)
  then show ?thesis
    unfolding m' n prune_count prune_sessions [OF assms(1)]
    by (simp add: map_of_filter_keys map_of_filter_keys [where P = "\<lambda>k. \<not> is_stale now mi h1 m (tk_user_id k)"])
qed

theorem prune_exact_witness:
  "sessions (snd (prune_stale_sessions 900000000000 600000000000 {} {} (snd (get_or_create_session 1 0 ''u'' new_session_manager)))) = []"
  using prune_exact [of "snd (get_or_create_session 1 0 ''u'' new_session_manager)" 900000000000 600000000000 "{}" "{}" 1
      "snd (prune_stale_sessions 900000000000 600000000000 {} {} (snd (get_or_create_session 1 0 ''u'' new_session_manager)))" "''u''"]
  by (simp add: get_or_create_session_def create_session_locked_def new_session_manager_def new_session_def
      prune_stale_sessions_def stale_users_def cutoff_def stale_thread_ids_def Let_def)

text \<open>
  The stamp that pruning reads is not moved by using a session: once it is older than the
  limit, a message that is resolved to an existing thread and processed there leaves the stamp as
  it was, and the pruning pass of that very moment still drops the session and its scopes.
\<close>

theorem prune_drops_used_session:
  assumes "sm_wf m" "map_of (sessions m) uid = Some r"
    and "resolve_mapped \<lparr>tk_user_id = uid, tk_channel = chan, external_thread_id = ext\<rparr> r m = Some t"
    and "last_active_at (session_store m ! r) < cutoff now mi" "r \<notin> h1"
  shows "resolve_thread parse fs ft now now now uid chan ext m = ((r, t), m) \<and>
    map_of (sessions (snd (prune_stale_sessions now mi h1 h2
      (upd_session r (\<lambda>s. s\<lparr>threads := AList.update t (turn_work (threads s)) (threads s)\<rparr>) m)))) uid = None"
proof -
  let ?m = "upd_session r (\<lambda>s. s\<lparr>threads := AList.update t (turn_work (threads s)) (threads s)\<rparr>) m"
  have "r < length (session_store m)" using sm_wf_store [OF assms(1,2)] by simp
  then have "is_stale now mi h1 ?m uid" "hm_wf (sessions ?m)"
    using assms by (simp_all add: is_stale_def upd_session_def sm_wf_def)
  then show ?thesis
    using assms(2,3)
    by (simp add: prune_sessions map_of_filter_keys resolve_thread_def get_or_create_session_def)
qed

definition demo_manager :: session_manager where
  "demo_manager = snd (resolve_thread (\<lambda>_. None) 3 7 0 0 0 ''u'' ''cli'' None new_session_manager)"

theorem prune_drops_used_session_witness:
  "map_of (sessions (snd (prune_stale_sessions 900000000000 600000000000 {} {}
     (upd_session 0 (\<lambda>s. s\<lparr>threads := AList.update 7 (start_turn 1 1 ''hi'' (the (map_of (threads s) 7))) (threads s)\<rparr>)
       demo_manager)))) ''u'' = None"
  using prune_drops_used_session [of demo_manager "''u''" 0 "''cli''" None 7 900000000000 600000000000 "{}"
      "\<lambda>_. None" 0 0 "{}" "\<lambda>ths. start_turn 1 1 ''hi'' (the (map_of ths 7))"]
    resolve_thread_post [of new_session_manager 7 "\<lambda>_. None" 3 0 0 0 "''u''" "''cli''" None 0 7 demo_manager] sm_wf_new
  by (simp add: demo_manager_def resolve_thread_def get_or_create_session_def create_session_locked_def
      resolve_mapped_def adopt_candidate_def resolve_new_def create_thread_def new_thread_def insert_undo_def
      insert_mapping_def upd_session_def cutoff_def has_thread_def
      new_session_def Let_def unused_id_def is_mapped_def new_session_manager_def)

end
