(* ===== verification/Thread_Commands.thy ===== *)
theory Thread_Commands
  imports Session_Manager
begin

text \<open>
  The thread operations of \<open>src/agent/thread_ops.rs\<close>: persisting a turn as conversation rows,
  rebuilding messages from rows, hydrating a thread from the database, the gate, start and end of
  a turn, and the commands undo, redo, interrupt, clear, new thread, switch and resume, with the
  result type of \<open>src/agent/submission.rs\<close>. The database is a parameter (what it answers); the JSON
  text codec of \<open>serde_json\<close> is the pair \<open>enc\<close>/\<open>dec\<close>. Status messages and logging are not modelled.
  Lemmas: what hydration recovers of a persisted conversation, that hydration needs ownership, and
  that undo and redo move a thread between the conversations before and after a turn.
\<close>

datatype SubmissionResult =
    Response string
  | NeedApproval uuid string string json bool
  | SrOk "string option"
  | SrError string
  | SrInterrupted

abbreviation ok_with_message :: "string \<Rightarrow> SubmissionResult" where "ok_with_message s \<equiv> SrOk (Some s)"

datatype thread_error = NotFound uuid

type_synonym handler_result = "(thread_error, SubmissionResult) result"

subsection \<open>Conversation rows\<close>

record conversation_message =
  cm_role :: string
  cm_content :: string

definition call_summary :: "(json \<Rightarrow> string) \<Rightarrow> nat \<Rightarrow> nat \<times> turn_tool_call \<Rightarrow> json" where
  "call_summary js n ic =
     (let (i, tc) = ic;
          obj0 = [(''name'', JString (ttc_name tc)), (''call_id'', JString (call_id n i))];
          obj1 = (case ttc_result tc of
              Some res \<Rightarrow> AList.update ''result'' (JString (truncate_preview (value_text js res) 1000))
                 (AList.update ''result_preview'' (JString (truncate_preview (value_text js res) 500)) obj0)
            | None \<Rightarrow> obj0);
          obj2 = (case ttc_error tc of
              Some err \<Rightarrow> AList.update ''error'' (JString (truncate_preview err 200)) obj1
            | None \<Rightarrow> obj1)
      in JObject obj2)"

text \<open>
  \<open>ok\<close> says that a store is configured, the conversation is writable for the sender and the row was
  added; otherwise the failure is logged and nothing is written.
\<close>

definition persist_user_message :: "bool \<Rightarrow> string \<Rightarrow> conversation_message list \<Rightarrow> conversation_message list" where
  "persist_user_message ok inp rows = (if ok then rows @ [\<lparr>cm_role = ''user'', cm_content = inp\<rparr>] else rows)"

definition persist_assistant_response :: "bool \<Rightarrow> string \<Rightarrow> conversation_message list \<Rightarrow> conversation_message list" where
  "persist_assistant_response ok resp rows =
     (if ok then rows @ [\<lparr>cm_role = ''assistant'', cm_content = resp\<rparr>] else rows)"

definition persist_tool_calls ::
  "(json \<Rightarrow> string) \<Rightarrow> (json list \<Rightarrow> string option) \<Rightarrow> bool \<Rightarrow> nat \<Rightarrow> turn_tool_call list
     \<Rightarrow> conversation_message list \<Rightarrow> conversation_message list" where
  "persist_tool_calls js enc ok n calls rows =
     (if calls = [] then rows
      else case enc (map (call_summary js n) (List.enumerate 0 calls)) of
             None \<Rightarrow> rows
           | Some text \<Rightarrow> if ok then rows @ [\<lparr>cm_role = ''tool_calls'', cm_content = text\<rparr>] else rows)"

definition rebuilt_call :: "json \<Rightarrow> tool_call" where
  "rebuilt_call c =
     \<lparr>tc_id = unwrap_or (jget_str c ''call_id'') ''call_0'', tc_name = unwrap_or (jget_str c ''name'') ''unknown'',
      tc_arguments = unwrap_or (jget c ''parameters'') (JObject [])\<rparr>"

definition rebuilt_content :: "json \<Rightarrow> string" where
  "rebuilt_content c =
     (case jget_str c ''error'' of
        Some err \<Rightarrow> ''Error: '' @ err
      | None \<Rightarrow> (case jget_str c ''result'' of
          Some res \<Rightarrow> res
        | None \<Rightarrow> unwrap_or (jget_str c ''result_preview'') ''OK''))"

definition rebuilt_result :: "json \<Rightarrow> chat_message" where
  "rebuilt_result c =
     tool_result (unwrap_or (jget_str c ''call_id'') ''call_0'') (unwrap_or (jget_str c ''name'') ''unknown'') (rebuilt_content c)"

definition rebuild_row :: "(string \<Rightarrow> json list option) \<Rightarrow> conversation_message \<Rightarrow> chat_message list" where
  "rebuild_row dec row =
     (if cm_role row = ''user'' then [user_msg (cm_content row)]
      else if cm_role row = ''assistant'' then [assistant_msg (cm_content row)]
      else if cm_role row = ''tool_calls'' then
        (case dec (cm_content row) of
           None \<Rightarrow> []
         | Some [] \<Rightarrow> []
         | Some (c # cs) \<Rightarrow>
             if jget_str c ''call_id'' \<noteq> None
             then assistant_with_tool_calls None (map rebuilt_call (c # cs)) # map rebuilt_result (c # cs)
             else [])
      else [])"

definition rebuild_chat_messages_from_db :: "(string \<Rightarrow> json list option) \<Rightarrow> conversation_message list \<Rightarrow> chat_message list" where
  "rebuild_chat_messages_from_db dec rows = concat (map (rebuild_row dec) rows)"

subsection \<open>Hydration\<close>

text \<open>What the database answers; \<open>None\<close> is a failed query.\<close>

record conversation_db =
  belongs_to_user :: "uuid \<Rightarrow> string \<Rightarrow> bool option"
  has_metadata :: "uuid \<Rightarrow> bool option"
  list_messages :: "uuid \<Rightarrow> conversation_message list option"

definition FORGED_THREAD_ID_ERROR :: string where
  "FORGED_THREAD_ID_ERROR = ''Invalid or unauthorized thread ID.''"

definition requires_preexisting_uuid_thread :: "string \<Rightarrow> bool" where
  "requires_preexisting_uuid_thread chan \<longleftrightarrow> chan = ''gateway'' \<or> chan = ''test''"

text \<open>The loading phase: stop with an answer, or go on with the messages found.\<close>

definition load_history ::
  "(string \<Rightarrow> json list option) \<Rightarrow> conversation_db option \<Rightarrow> string \<Rightarrow> string \<Rightarrow> uuid
     \<Rightarrow> (string option, chat_message list) result" where
  "load_history dec store uid chan t =
     (let refuse = Err (if requires_preexisting_uuid_thread chan then Some FORGED_THREAD_ID_ERROR else None) in
      case store of
        None \<Rightarrow> Ok []
      | Some db \<Rightarrow>
          (case belongs_to_user db t uid of
             None \<Rightarrow> refuse
           | Some owned \<Rightarrow>
               if \<not> owned then
                 (case has_metadata db t of None \<Rightarrow> refuse | Some _ \<Rightarrow> refuse)
               else Ok (rebuild_chat_messages_from_db dec (unwrap_or (list_messages db t) []))))"

definition maybe_hydrate_thread ::
  "(string \<Rightarrow> uuid option) \<Rightarrow> (uuid \<Rightarrow> string) \<Rightarrow> (string \<Rightarrow> json list option) \<Rightarrow> conversation_db option
     \<Rightarrow> uuid \<Rightarrow> datetime \<Rightarrow> (nat \<Rightarrow> datetime) \<Rightarrow> string \<Rightarrow> string \<Rightarrow> string \<Rightarrow> session_manager
     \<Rightarrow> string option \<times> session_manager" where
  "maybe_hydrate_thread parse render dec store fs now clk uid chan ext m =
     (case parse ext of
        None \<Rightarrow> (None, m)
      | Some t \<Rightarrow>
          let (r, m1) = get_or_create_session fs now uid m in
          if has_thread r t m1 then (None, m1)
          else case load_history dec store uid chan t of
                 Err answer \<Rightarrow> (answer, m1)
               | Ok msgs \<Rightarrow>
                   let th0 = with_id now t (sess_id (session_store m1 ! r));
                       th = (if msgs \<noteq> [] then restore_from_messages clk now msgs th0 else th0);
                       m2 = upd_session r (\<lambda>s. s\<lparr>threads := AList.update t th (threads s),
                              active_thread_id := Some t, last_active_at := now\<rparr>) m1
                   in (None, register_thread render uid chan t r m2))"

subsection \<open>The life of a turn\<close>

definition get_thread :: "nat \<Rightarrow> uuid \<Rightarrow> session_manager \<Rightarrow> thread option" where
  "get_thread r t m = map_of (threads (session_store m ! r)) t"

definition set_thread :: "nat \<Rightarrow> uuid \<Rightarrow> thread \<Rightarrow> session_manager \<Rightarrow> session_manager" where
  "set_thread r t th = upd_session r (\<lambda>s. s\<lparr>threads := AList.update t th (threads s)\<rparr>)"

text \<open>The check of the thread state; \<open>None\<close> lets the input through. \<open>preview\<close> shortens a description.\<close>

definition waiting_message :: "(string \<Rightarrow> string) \<Rightarrow> thread \<Rightarrow> string" where
  "waiting_message preview th =
     (case pending_approval th of
        Some a \<Rightarrow> ''Waiting for approval: '' @ pap_tool_name a @ [CHR '' '', CHR 0xE2, CHR 0x80, CHR 0x94, CHR '' '']
                    @ preview (pap_description a) @ ''. Use /interrupt to cancel.''
      | None \<Rightarrow> ''Waiting for approval. Use /interrupt to cancel.'')"

definition input_gate :: "(string \<Rightarrow> string) \<Rightarrow> nat \<Rightarrow> uuid \<Rightarrow> session_manager \<Rightarrow> (thread_error, SubmissionResult option) result" where
  "input_gate preview r t m =
     (case get_thread r t m of
        None \<Rightarrow> Err (NotFound t)
      | Some th \<Rightarrow> Ok (case thread_state th of
            Processing \<Rightarrow> Some (SrError ''Turn in progress. Use /interrupt to cancel.'')
          | AwaitingApproval \<Rightarrow> Some (ok_with_message (waiting_message preview th))
          | ThreadCompleted \<Rightarrow> Some (SrError ''Thread completed. Use /thread new.'')
          | Idle \<Rightarrow> None
          | Interrupted \<Rightarrow> None))"

text \<open>The checkpoint before a turn, then the start of the turn.\<close>

definition checkpoint_turn :: "(json \<Rightarrow> string) \<Rightarrow> uuid \<Rightarrow> nat \<Rightarrow> uuid \<Rightarrow> session_manager \<Rightarrow> (thread_error, session_manager) result" where
  "checkpoint_turn js fresh r t m =
     (let (u, m1) = get_undo_manager t m in
      case get_thread r t m1 of
        None \<Rightarrow> Err (NotFound t)
      | Some th \<Rightarrow> Ok (upd_undo u (checkpoint_op fresh (thread_turn_number th) (thread_messages js th)
                          (''Before turn '' @ show_nat (thread_turn_number th))) m1))"

definition begin_turn ::
  "(json \<Rightarrow> string) \<Rightarrow> datetime \<Rightarrow> datetime \<Rightarrow> nat \<Rightarrow> uuid \<Rightarrow> string \<Rightarrow> content_part list \<Rightarrow> session_manager
     \<Rightarrow> (thread_error, chat_message list \<times> session_manager) result" where
  "begin_turn js n1 n2 r t text parts m =
     (case get_thread r t m of
        None \<Rightarrow> Err (NotFound t)
      | Some th \<Rightarrow>
          let th1 = start_turn n1 n2 text th;
              th2 = th1\<lparr>turns := update_last (\<lambda>u. u\<lparr>image_content_parts := parts\<rparr>) (turns th1)\<rparr>
          in Ok (thread_messages js th2, set_thread r t th2 m))"

text \<open>
  The end of a turn, with the outcome of the loop (\<open>Inl\<close> the text of an error) and the transformed
  response (suggestions removed, response hooks applied). The rows written are returned with it.
\<close>

definition finish_turn ::
  "(json \<Rightarrow> string) \<Rightarrow> (json list \<Rightarrow> string option) \<Rightarrow> (string \<Rightarrow> string) \<Rightarrow> bool \<Rightarrow> bool \<Rightarrow> datetime \<Rightarrow> datetime
     \<Rightarrow> nat \<Rightarrow> uuid \<Rightarrow> (string, AgenticLoopResult) result \<Rightarrow> conversation_message list \<Rightarrow> session_manager
     \<Rightarrow> (thread_error, SubmissionResult \<times> conversation_message list \<times> session_manager) result" where
  "finish_turn js enc transform ok1 ok2 n1 n2 r t outcome rows m =
     (case get_thread r t m of
        None \<Rightarrow> Err (NotFound t)
      | Some th \<Rightarrow>
          if thread_state th = Interrupted then Ok (SrInterrupted, rows, m)
          else case outcome of
            Ok (AgentResponse text) \<Rightarrow>
              let resp = transform text;
                  th1 = complete_turn n1 n2 resp th;
                  (n, calls) = (if turns th1 = [] then (0, []) else (turn_number (last (turns th1)), turn_calls (last (turns th1))));
                  rows1 = persist_tool_calls js enc ok1 n calls rows
              in Ok (Response resp, persist_assistant_response ok2 resp rows1, set_thread r t th1 m)
          | Ok (AgentNeedApproval p) \<Rightarrow>
              Ok (NeedApproval (request_id p) (pap_tool_name p) (pap_description p) (display_parameters p) (allow_always p),
                  rows, set_thread r t (await_approval n1 p th) m)
          | Err e \<Rightarrow> Ok (SrError e, rows, set_thread r t (fail_turn n1 n2 e th) m))"

subsection \<open>Commands\<close>

definition process_undo ::
  "(json \<Rightarrow> string) \<Rightarrow> (nat \<Rightarrow> datetime) \<Rightarrow> datetime \<Rightarrow> uuid \<Rightarrow> nat \<Rightarrow> uuid \<Rightarrow> session_manager
     \<Rightarrow> handler_result \<times> session_manager" where
  "process_undo js clk now fresh r t m =
     (let (u, m1) = get_undo_manager t m; mgr = undo_store m1 ! u in
      if \<not> can_undo mgr then (Ok (ok_with_message ''Nothing to undo.''), m1)
      else case get_thread r t m1 of
             None \<Rightarrow> (Err (NotFound t), m1)
           | Some th \<Rightarrow>
               (case undo_op fresh (thread_turn_number th) (thread_messages js th) mgr of
                  (Some cp, mgr') \<Rightarrow>
                    (Ok (ok_with_message (''Undone to turn '' @ show_nat (cp_turn_number cp) @ ''. '' @
                           show_nat (undo_count mgr') @ '' undo(s) remaining.'')),
                     set_thread r t (restore_from_messages clk now (cp_messages cp) th) (upd_undo u (\<lambda>_. mgr') m1))
                | (None, mgr') \<Rightarrow> (Ok (SrError ''Undo failed.''), upd_undo u (\<lambda>_. mgr') m1)))"

definition process_redo ::
  "(json \<Rightarrow> string) \<Rightarrow> (nat \<Rightarrow> datetime) \<Rightarrow> datetime \<Rightarrow> uuid \<Rightarrow> nat \<Rightarrow> uuid \<Rightarrow> session_manager
     \<Rightarrow> handler_result \<times> session_manager" where
  "process_redo js clk now fresh r t m =
     (let (u, m1) = get_undo_manager t m; mgr = undo_store m1 ! u in
      if \<not> can_redo mgr then (Ok (ok_with_message ''Nothing to redo.''), m1)
      else case get_thread r t m1 of
             None \<Rightarrow> (Err (NotFound t), m1)
           | Some th \<Rightarrow>
               (case redo_op fresh (thread_turn_number th) (thread_messages js th) mgr of
                  (Some cp, mgr') \<Rightarrow>
                    (Ok (ok_with_message (''Redone to turn '' @ show_nat (cp_turn_number cp) @ ''.'')),
                     set_thread r t (restore_from_messages clk now (cp_messages cp) th) (upd_undo u (\<lambda>_. mgr') m1))
                | (None, mgr') \<Rightarrow> (Ok (SrError ''Redo failed.''), upd_undo u (\<lambda>_. mgr') m1)))"

definition process_interrupt :: "datetime \<Rightarrow> datetime \<Rightarrow> nat \<Rightarrow> uuid \<Rightarrow> session_manager \<Rightarrow> handler_result \<times> session_manager" where
  "process_interrupt n1 n2 r t m =
     (case get_thread r t m of
        None \<Rightarrow> (Err (NotFound t), m)
      | Some th \<Rightarrow>
          if thread_state th = Processing \<or> thread_state th = AwaitingApproval
          then (Ok (ok_with_message ''Interrupted.''), set_thread r t (interrupt n1 n2 th) m)
          else (Ok (ok_with_message ''Nothing to interrupt.''), m))"

definition process_clear :: "nat \<Rightarrow> uuid \<Rightarrow> session_manager \<Rightarrow> handler_result \<times> session_manager" where
  "process_clear r t m =
     (case get_thread r t m of
        None \<Rightarrow> (Err (NotFound t), m)
      | Some th \<Rightarrow>
          let m1 = set_thread r t (th\<lparr>turns := [], thread_state := Idle\<rparr>) m;
              (u, m2) = get_undo_manager t m1
          in (Ok (ok_with_message ''Thread cleared.''), upd_undo u clear_undo m2))"

definition process_new_thread ::
  "(uuid \<Rightarrow> string) \<Rightarrow> uuid \<Rightarrow> uuid \<Rightarrow> datetime \<Rightarrow> datetime \<Rightarrow> datetime \<Rightarrow> string \<Rightarrow> session_manager
     \<Rightarrow> handler_result \<times> session_manager" where
  "process_new_thread render fs ft n0 n1 n2 uid m =
     (let (r, m1) = get_or_create_session fs n0 uid m;
          (th, s) = create_thread ft n1 n2 (session_store m1 ! r)
      in (Ok (ok_with_message (''New thread: '' @ render (thread_id th))), upd_session r (\<lambda>_. s) m1))"

definition process_switch_thread ::
  "(uuid \<Rightarrow> string) \<Rightarrow> uuid \<Rightarrow> datetime \<Rightarrow> datetime \<Rightarrow> string \<Rightarrow> uuid \<Rightarrow> session_manager
     \<Rightarrow> handler_result \<times> session_manager" where
  "process_switch_thread render fs n0 n1 uid target m =
     (let (r, m1) = get_or_create_session fs n0 uid m;
          (found, s) = switch_thread target n1 (session_store m1 ! r);
          m2 = upd_session r (\<lambda>_. s) m1
      in if found then (Ok (ok_with_message (''Switched to thread '' @ render target)), m2)
         else (Ok (SrError ''Thread not found.''), m2))"

definition process_resume ::
  "(nat \<Rightarrow> datetime) \<Rightarrow> datetime \<Rightarrow> nat \<Rightarrow> uuid \<Rightarrow> uuid \<Rightarrow> session_manager \<Rightarrow> handler_result \<times> session_manager" where
  "process_resume clk now r t cid m =
     (let (u, m1) = get_undo_manager t m in
      case restore cid (undo_store m1 ! u) of
        (Some cp, mgr') \<Rightarrow>
          let m2 = upd_undo u (\<lambda>_. mgr') m1 in
          (case get_thread r t m2 of
             None \<Rightarrow> (Err (NotFound t), m2)
           | Some th \<Rightarrow>
               (Ok (ok_with_message (''Resumed from checkpoint: '' @ cp_description cp)),
                set_thread r t (restore_from_messages clk now (cp_messages cp) th) m2))
      | (None, mgr') \<Rightarrow> (Ok (SrError ''Checkpoint not found.''), upd_undo u (\<lambda>_. mgr') m1))"

subsection \<open>What hydration recovers\<close>

text \<open>The rows that a finished turn leaves behind.\<close>

definition turn_rows :: "(json \<Rightarrow> string) \<Rightarrow> (json list \<Rightarrow> string option) \<Rightarrow> turn \<Rightarrow> conversation_message list \<Rightarrow> conversation_message list" where
  "turn_rows js enc t rows =
     (let rows1 = persist_tool_calls js enc True (turn_number t) (turn_calls t) (persist_user_message True (user_input t) rows)
      in case response t of Some resp \<Rightarrow> persist_assistant_response True resp rows1 | None \<Rightarrow> rows1)"

text \<open>A call as it comes back: no parameters, errors cut at 200 bytes behind a prefix.\<close>

definition hydrated_content :: "(json \<Rightarrow> string) \<Rightarrow> turn_tool_call \<Rightarrow> string" where
  "hydrated_content js tc =
     (case ttc_error tc of Some err \<Rightarrow> ''Error: '' @ truncate_preview err 200 | None \<Rightarrow> call_content js tc)"

definition hydrated_messages :: "(json \<Rightarrow> string) \<Rightarrow> turn \<Rightarrow> chat_message list" where
  "hydrated_messages js t =
     user_msg (user_input t)
     # (if turn_calls t = [] then []
        else assistant_with_tool_calls None
               (map (\<lambda>(i, tc). \<lparr>tc_id = call_id (turn_number t) i, tc_name = ttc_name tc, tc_arguments = JObject []\<rparr>)
                  (List.enumerate 0 (turn_calls t)))
             # map (\<lambda>(i, tc). tool_result (call_id (turn_number t) i) (ttc_name tc) (hydrated_content js tc))
                  (List.enumerate 0 (turn_calls t)))
     @ (case response t of Some resp \<Rightarrow> [assistant_msg resp] | None \<Rightarrow> [])"

definition codec_ok :: "(json \<Rightarrow> string) \<Rightarrow> (json list \<Rightarrow> string option) \<Rightarrow> (string \<Rightarrow> json list option) \<Rightarrow> turn \<Rightarrow> bool" where
  "codec_ok js enc dec t \<longleftrightarrow>
     (let v = map (call_summary js (turn_number t)) (List.enumerate 0 (turn_calls t)) in Option.bind (enc v) dec = Some v)"

lemma summary_lookup:
  "jget_str (call_summary js n (i, tc)) ''name'' = Some (ttc_name tc)"
  "jget_str (call_summary js n (i, tc)) ''call_id'' = Some (call_id n i)"
  "jget (call_summary js n (i, tc)) ''parameters'' = None"
  "rebuilt_content (call_summary js n (i, tc)) = hydrated_content js tc"
  by (auto simp: call_summary_def jget_str_def jget_def as_str_def rebuilt_content_def hydrated_content_def
      call_content_def unwrap_or_def Let_def update_conv' split: option.split)

lemma rebuilt_summary:
  "rebuilt_call (call_summary js n (i, tc)) = \<lparr>tc_id = call_id n i, tc_name = ttc_name tc, tc_arguments = JObject []\<rparr>"
  "rebuilt_result (call_summary js n (i, tc)) = tool_result (call_id n i) (ttc_name tc) (hydrated_content js tc)"
  by (simp_all add: rebuilt_call_def rebuilt_result_def summary_lookup unwrap_or_def)

lemma rebuilt_summaries:
  "map rebuilt_call (map (call_summary js n) ics) =
     map (\<lambda>(i, tc). \<lparr>tc_id = call_id n i, tc_name = ttc_name tc, tc_arguments = JObject []\<rparr>) ics"
  "map rebuilt_result (map (call_summary js n) ics) =
     map (\<lambda>(i, tc). tool_result (call_id n i) (ttc_name tc) (hydrated_content js tc)) ics"
  by (auto simp: rebuilt_summary)

lemma rebuild_append: "rebuild_chat_messages_from_db dec (xs @ ys) = rebuild_chat_messages_from_db dec xs @ rebuild_chat_messages_from_db dec ys"
  by (simp add: rebuild_chat_messages_from_db_def)

lemma rebuild_Cons2: "rebuild_chat_messages_from_db dec (x # y # ys) =
    rebuild_chat_messages_from_db dec [x] @ rebuild_chat_messages_from_db dec (y # ys)"
  by (simp add: rebuild_chat_messages_from_db_def)

lemma rebuild_simple:
  "rebuild_chat_messages_from_db dec [\<lparr>cm_role = ''user'', cm_content = s\<rparr>] = [user_msg s]"
  "rebuild_chat_messages_from_db dec [\<lparr>cm_role = ''assistant'', cm_content = s\<rparr>] = [assistant_msg s]"
  by (simp_all add: rebuild_chat_messages_from_db_def rebuild_row_def)

lemma rebuild_calls:
  assumes "dec raw = Some (map (call_summary js n) (List.enumerate 0 calls))" "calls \<noteq> []"
  shows "rebuild_chat_messages_from_db dec [\<lparr>cm_role = ''tool_calls'', cm_content = raw\<rparr>] =
    assistant_with_tool_calls None (map (\<lambda>(i, tc). \<lparr>tc_id = call_id n i, tc_name = ttc_name tc, tc_arguments = JObject []\<rparr>)
        (List.enumerate 0 calls))
    # map (\<lambda>(i, tc). tool_result (call_id n i) (ttc_name tc) (hydrated_content js tc)) (List.enumerate 0 calls)"
proof -
  obtain c cs where c: "List.enumerate 0 calls = (0, c) # cs" using assms(2) by (cases calls) auto
  then have "rebuild_row dec \<lparr>cm_role = ''tool_calls'', cm_content = raw\<rparr> =
      assistant_with_tool_calls None (map rebuilt_call (map (call_summary js n) (List.enumerate 0 calls)))
      # map rebuilt_result (map (call_summary js n) (List.enumerate 0 calls))"
    using assms(1) by (simp add: rebuild_row_def summary_lookup)
  then show ?thesis by (simp only: rebuilt_summaries rebuild_chat_messages_from_db_def list.map concat.simps append_Nil2)
qed

lemma rebuild_turn:
  assumes "codec_ok js enc dec t"
  shows "rebuild_chat_messages_from_db dec (turn_rows js enc t rows) =
    rebuild_chat_messages_from_db dec rows @ hydrated_messages js t"
proof -
  let ?v = "map (call_summary js (turn_number t)) (List.enumerate 0 (turn_calls t))"
  obtain raw where raw: "enc ?v = Some raw" "dec raw = Some ?v"
    using assms by (auto simp: codec_ok_def bind_eq_Some_conv Let_def)
  show ?thesis
    using raw rebuild_calls [of dec raw js "turn_number t" "turn_calls t"]
    by (cases "response t"; cases "turn_calls t = []")
       (simp_all add: turn_rows_def persist_tool_calls_def persist_user_message_def persist_assistant_response_def
          hydrated_messages_def rebuild_append rebuild_simple rebuild_Cons2)
qed

text \<open>
  Hydrating the rows that a list of turns has written gives, turn by turn, the user message,
  the calls with their identifiers and names, their results and the response. It differs from the
  live message list in exactly two ways: the parameters of every call are replaced by an empty
  object, and an error text is cut to 200 bytes and gets a prefix.
\<close>

theorem rebuild_persisted:
  assumes "\<forall>t \<in> set ts. codec_ok js enc dec t"
  shows "rebuild_chat_messages_from_db dec (fold (turn_rows js enc) ts []) = concat (map (hydrated_messages js) ts)"
proof -
  have "rebuild_chat_messages_from_db dec (fold (turn_rows js enc) ts rows) =
      rebuild_chat_messages_from_db dec rows @ concat (map (hydrated_messages js) ts)" for rows
    using assms by (induction ts arbitrary: rows) (simp_all add: rebuild_turn)
  from this [of "[]"] show ?thesis by (simp add: rebuild_chat_messages_from_db_def)
qed

definition demo_turn :: turn where
  "demo_turn = complete 3 ''done'' (record_tool_result (JString ''ok'')
     (record_tool_call ''ls'' (JObject [(''dir'', JString ''/'')]) (new_turn 1 0 ''list'')))"

definition demo_summary :: "json list" where
  "demo_summary = map (call_summary (\<lambda>_. []) 0) (List.enumerate 0 (turn_calls demo_turn))"

theorem rebuild_persisted_witness:
  "rebuild_chat_messages_from_db (\<lambda>s. if s = ''x'' then Some demo_summary else None)
     (fold (turn_rows (\<lambda>_. []) (\<lambda>_. Some ''x'')) [demo_turn] []) = hydrated_messages (\<lambda>_. []) demo_turn"
  using rebuild_persisted [of "[demo_turn]" "\<lambda>_. []" "\<lambda>_. Some ''x''" "\<lambda>s. if s = ''x'' then Some demo_summary else None"]
  by (simp add: codec_ok_def demo_summary_def demo_turn_def complete_def record_tool_result_def
      record_tool_call_def new_turn_def update_last_def)

subsection \<open>Hydration and ownership\<close>

text \<open>
  C26: With a database, a conversation that is not known to belong to the sender is never loaded:
  the sender's session gets no thread for it, no scope is mapped to it, and on the gateway the
  message is refused.
\<close>

theorem hydrate_requires_ownership:
  assumes "belongs_to_user db t uid \<noteq> Some True" "parse ext = Some t"
    and "maybe_hydrate_thread parse render dec (Some db) fs now clk uid chan ext m = (answer, m')"
    and "get_or_create_session fs now uid m = (r, m1)"
  shows "m' = m1 \<and> thread_map m' = thread_map m \<and>
    (\<not> has_thread r t m1 \<and> requires_preexisting_uuid_thread chan \<longrightarrow> answer = Some FORGED_THREAD_ID_ERROR) \<and>
    (has_thread r t m1 \<or> \<not> requires_preexisting_uuid_thread chan \<longrightarrow> answer = None)"
proof -
  let ?refuse = "Err (if requires_preexisting_uuid_thread chan then Some FORGED_THREAD_ID_ERROR else None)"
  have "load_history dec (Some db) uid chan t = ?refuse"
    using assms(1) by (auto simp: load_history_def Let_def split: option.split)
  moreover have "thread_map m1 = thread_map m"
    using assms(4) by (auto simp: get_or_create_session_def create_session_locked_def split: option.splits)
  ultimately show ?thesis
    using assms(2-4) by (auto simp: maybe_hydrate_thread_def split: if_splits)
qed

theorem hydrate_requires_ownership_witness:
  "fst (maybe_hydrate_thread (\<lambda>_. Some 4) (\<lambda>_. ''id'') (\<lambda>_. None)
     (Some \<lparr>belongs_to_user = \<lambda>_ _. Some False, has_metadata = \<lambda>_. Some True, list_messages = \<lambda>_. None\<rparr>)
     1 0 int ''mallory'' ''gateway'' ''id'' new_session_manager) = Some FORGED_THREAD_ID_ERROR"
  using hydrate_requires_ownership [of "\<lparr>belongs_to_user = \<lambda>_ _. Some False, has_metadata = \<lambda>_. Some True,
      list_messages = \<lambda>_. None\<rparr>" 4 "''mallory''" "\<lambda>_. Some 4" "''id''" "\<lambda>_. ''id''" "\<lambda>_. None" 1 0 int "''gateway''"
      new_session_manager _ _ 0]
  by (simp add: maybe_hydrate_thread_def get_or_create_session_def create_session_locked_def new_session_manager_def
      has_thread_def new_session_def requires_preexisting_uuid_thread_def load_history_def)

subsection \<open>Undo and redo of a turn\<close>

definition stable_thread :: "(json \<Rightarrow> string) \<Rightarrow> thread \<Rightarrow> bool" where
  "stable_thread js th \<longleftrightarrow> map turn_number (turns th) = [0..<length (turns th)] \<and>
     (\<forall>t \<in> set (turns th). image_content_parts t = [] \<and> (\<forall>c \<in> set (turn_calls t). ascii_text (raw_content js c)))"

lemma stable_restore:
  "stable_thread js th \<Longrightarrow>
   thread_messages js (restore_from_messages clk now (thread_messages js th) th') = thread_messages js th"
  unfolding stable_thread_def thread_messages_def [of js "restore_from_messages _ _ _ _"] restored_turns
  using messages_replay_all [of "turns th" 0 js clk] by (simp add: thread_messages_def)

lemma get_thread_set [simp]: "r < length (session_store m) \<Longrightarrow> get_thread r t (set_thread r t th m) = Some th"
  by (simp add: get_thread_def set_thread_def upd_session_def update_conv')

lemma get_thread_upd_undo [simp]: "get_thread r t (upd_undo u f m) = get_thread r t m"
  by (simp add: get_thread_def upd_undo_def)

lemma undo_store_set_thread [simp]:
  "undo_store (set_thread r t th m) = undo_store m" "undo_managers (set_thread r t th m) = undo_managers m"
  "length (session_store (set_thread r t th m)) = length (session_store m)"
  by (simp_all add: set_thread_def upd_session_def)

lemma undo_store_upd_undo [simp]:
  "undo_managers (upd_undo u f m) = undo_managers m" "session_store (upd_undo u f m) = session_store m"
  "length (undo_store (upd_undo u f m)) = length (undo_store m)"
  "u < length (undo_store m) \<Longrightarrow> undo_store (upd_undo u f m) ! u = f (undo_store m ! u)"
  by (simp_all add: upd_undo_def)

lemma get_undo_manager_known: "map_of (undo_managers m) t = Some u \<Longrightarrow> get_undo_manager t m = (u, m)"
  by (simp add: get_undo_manager_def)

lemma process_undo_known:
  assumes "map_of (undo_managers m) t = Some u" "undo_stack (undo_store m ! u) = cps @ [cp]" "get_thread r t m = Some th"
  shows "snd (process_undo js clk now fresh r t m) =
    set_thread r t (restore_from_messages clk now (cp_messages cp) th)
      (upd_undo u (\<lambda>_. (undo_store m ! u)\<lparr>redo_stack := redo_stack (undo_store m ! u) @
         [new_checkpoint fresh (thread_turn_number th) (thread_messages js th) (''Turn '' @ show_nat (thread_turn_number th))],
         undo_stack := cps\<rparr>) m)"
  using assms by (simp add: process_undo_def get_undo_manager_known can_undo_def undo_op_def Let_def)

lemma process_redo_known:
  assumes "map_of (undo_managers m) t = Some u" "redo_stack (undo_store m ! u) = cps @ [cp]" "get_thread r t m = Some th"
  shows "get_thread r t (snd (process_redo js clk now fresh r t m)) =
     get_thread r t (set_thread r t (restore_from_messages clk now (cp_messages cp) th) m)"
  using assms
  by (simp add: process_redo_def get_undo_manager_known can_redo_def redo_op_def push_undo_def set_thread_def Let_def
      upd_session_def upd_undo_def get_thread_def)



end
