(* ===== verification/Llm_Provider.thy ===== *)
theory Llm_Provider
  imports Chat_Message
begin

text \<open>
  The vocabulary of the model layer: the errors of \<open>src/llm/error.rs\<close> and the requests and
  responses of \<open>src/llm/provider.rs\<close>. A call of a provider is a function on the world (whatever the
  network, the clock and the provider's own state are), so that two calls may answer differently.
  The locale \<open>llm_decorator\<close> is the contract of everything that wraps a provider: an answer comes
  from a wrapped provider, an error too unless it is one the wrapper makes itself. It is
  interpreted on each wrapper in its own theory.
\<close>

datatype LlmError =
    RequestFailed string string
  | RateLimited string "duration option"
  | InvalidResponse string string
  | ContextLengthExceeded nat nat
  | ModelNotAvailable string string
  | AuthFailed string
  | SessionExpired string
  | SessionRenewalFailed string string
  | Http string
  | Json string
  | LlmIo string

datatype FinishReason = Stop | Length | ToolUse | ContentFilter | Unknown

text \<open>An \<open>f32\<close> is its bit pattern: the program only stores and hashes it here.\<close>

record completion_request =
  cr_messages :: "chat_message list"
  cr_model :: "string option"
  cr_max_tokens :: "u32 option"
  cr_temperature :: "u32 option"
  cr_stop_sequences :: "string list option"
  cr_metadata :: "(string, string) hmap"

record completion_response =
  cresp_content :: string
  cresp_input_tokens :: u32
  cresp_output_tokens :: u32
  cresp_finish_reason :: FinishReason
  cresp_cache_read :: u32
  cresp_cache_creation :: u32

definition new_request :: "chat_message list \<Rightarrow> completion_request" where
  "new_request ms = \<lparr>cr_messages = ms, cr_model = None, cr_max_tokens = None, cr_temperature = None,
     cr_stop_sequences = None, cr_metadata = []\<rparr>"

definition with_model :: "string \<Rightarrow> completion_request \<Rightarrow> completion_request" where
  "with_model m q = q\<lparr>cr_model := Some m\<rparr>"

definition with_max_tokens :: "u32 \<Rightarrow> completion_request \<Rightarrow> completion_request" where
  "with_max_tokens n q = q\<lparr>cr_max_tokens := Some n\<rparr>"

definition with_temperature :: "u32 \<Rightarrow> completion_request \<Rightarrow> completion_request" where
  "with_temperature t q = q\<lparr>cr_temperature := Some t\<rparr>"

type_synonym ('w, 'r) llm_call = "'w \<Rightarrow> (LlmError, 'r) result \<times> 'w"

definition serves :: "('w, 'r) llm_call \<Rightarrow> 'r \<Rightarrow> bool" where
  "serves call r \<longleftrightarrow> (\<exists>w w'. call w = (Ok r, w'))"

definition fails_with :: "('w, 'r) llm_call \<Rightarrow> LlmError \<Rightarrow> bool" where
  "fails_with call e \<longleftrightarrow> (\<exists>w w'. call w = (Err e, w'))"

lemma servesI [intro]: "call w = (Ok r, w') \<Longrightarrow> serves call r"
  by (auto simp: serves_def)

lemma fails_withI [intro]: "call w = (Err e, w') \<Longrightarrow> fails_with call e"
  by (auto simp: fails_with_def)

locale llm_decorator =
  fixes decorate :: "(nat \<Rightarrow> ('w, 'r) llm_call) \<Rightarrow> ('v, 'r) llm_call"
    and own :: "LlmError \<Rightarrow> bool"
  assumes answer: "decorate inner v = (Ok r, v') \<Longrightarrow> \<exists>i. serves (inner i) r"
    and error: "decorate inner v = (Err e, v') \<Longrightarrow> own e \<or> (\<exists>i. fails_with (inner i) e)"
begin

lemma serves_inner: "serves (decorate inner) r \<Longrightarrow> \<exists>i. serves (inner i) r"
  using answer by (auto simp: serves_def)

lemma fails_inner: "fails_with (decorate inner) e \<Longrightarrow> own e \<or> (\<exists>i. fails_with (inner i) e)"
  using error by (auto simp: fails_with_def)

end

end
