(* ===== verification/Retry.thy ===== *)
theory Retry
  imports Llm_Provider
begin

text \<open>
  The retry decorator of \<open>src/llm/retry.rs\<close>: which errors are worth another attempt, the backoff
  delay in its machine arithmetic, the reading of a \<open>Retry-After\<close> header and the retry loop. The random
  offset of an attempt, the sleep and the parsers of the header (\<open>str::parse\<close>, the RFC 2822 parser
  of \<open>chrono\<close>) are parameters. Lemmas: the loop makes at most one attempt more than the retries
  configured, stops as soon as it may and returns the last attempt's outcome; the delay stays
  within a quarter of its base; a server cannot ask for more than an hour.
\<close>

definition MAX_RETRY_AFTER_SECS :: nat where "MAX_RETRY_AFTER_SECS = 3600"
definition DEFAULT_RETRY_AFTER_SECS :: nat where "DEFAULT_RETRY_AFTER_SECS = 60"

definition is_retryable :: "LlmError \<Rightarrow> bool" where
  "is_retryable e =
     (case e of
        RequestFailed _ _ \<Rightarrow> True | RateLimited _ _ \<Rightarrow> True | InvalidResponse _ _ \<Rightarrow> True
      | SessionRenewalFailed _ _ \<Rightarrow> True | Http _ \<Rightarrow> True | LlmIo _ \<Rightarrow> True
      | _ \<Rightarrow> False)"

subsection \<open>Backoff\<close>

definition saturating_pow2 :: "nat \<Rightarrow> u64" where
  "saturating_pow2 n = (if n < 64 then 2 ^ n else - 1)"

definition saturating_mul :: "u64 \<Rightarrow> u64 \<Rightarrow> u64" where
  "saturating_mul a b = (if unat a * unat b < 2 ^ 64 then a * b else - 1)"

definition base_ms :: "nat \<Rightarrow> u64" where
  "base_ms attempt = saturating_mul 1000 (saturating_pow2 attempt)"

text \<open>The largest random offset, and the delay in milliseconds for an offset; casts to \<open>i64\<close> keep the bits.\<close>

definition jitter_limit :: "nat \<Rightarrow> u64" where
  "jitter_limit attempt = (base_ms attempt div 4) * 2"

definition delay_ms :: "u64 \<Rightarrow> nat \<Rightarrow> u64" where
  "delay_ms offset attempt =
     (let range = base_ms attempt div 4;
          jitter = (if range > 0 then offset - range else 0)
      in word_of_int (max (sint (base_ms attempt + jitter)) 100))"

definition retry_backoff_delay :: "u64 \<Rightarrow> nat \<Rightarrow> duration" where
  "retry_backoff_delay offset attempt = unat (delay_ms offset attempt) * 1000000"

subsection \<open>Retry-After\<close>

definition cap_retry_after :: "duration \<Rightarrow> duration" where
  "cap_retry_after d = min d (secs MAX_RETRY_AFTER_SECS)"

definition parse_retry_after ::
  "(string \<Rightarrow> string) \<Rightarrow> (string \<Rightarrow> u64 option) \<Rightarrow> (string \<Rightarrow> datetime option) \<Rightarrow> datetime \<Rightarrow> string option \<Rightarrow> duration" where
  "parse_retry_after trim parse_u64 parse_date now header =
     (case Option.bind header (\<lambda>v.
         case parse_u64 (trim v) of
           Some n \<Rightarrow> Some (cap_retry_after (secs (unat n)))
         | None \<Rightarrow> (case parse_date (trim v) of
             Some dt \<Rightarrow> Some (cap_retry_after (secs (nat (max (num_seconds (dt - now)) 0))))
           | None \<Rightarrow> None)) of
        Some d \<Rightarrow> d
      | None \<Rightarrow> secs DEFAULT_RETRY_AFTER_SECS)"

subsection \<open>The loop\<close>

record retry_config =
  max_retries :: nat

definition default_retry_config :: retry_config where
  "default_retry_config = \<lparr>max_retries = 3\<rparr>"

definition retry_delay :: "(nat \<Rightarrow> u64) \<Rightarrow> nat \<Rightarrow> LlmError \<Rightarrow> duration" where
  "retry_delay offsets attempt e =
     (case e of RateLimited _ (Some d) \<Rightarrow> d | _ \<Rightarrow> retry_backoff_delay (offsets attempt) attempt)"

fun retry_attempts ::
  "string \<Rightarrow> (duration \<Rightarrow> 'w \<Rightarrow> 'w) \<Rightarrow> (nat \<Rightarrow> u64) \<Rightarrow> nat \<Rightarrow> ('w, 'r) llm_call \<Rightarrow> nat list \<Rightarrow> LlmError option
     \<Rightarrow> ('w, 'r) llm_call" where
  "retry_attempts model sleep offsets maxr op [] last_error w =
     (Err (case last_error of Some e \<Rightarrow> e | None \<Rightarrow> RequestFailed model ''retry loop exited unexpectedly''), w)"
| "retry_attempts model sleep offsets maxr op (attempt # rest) last_error w =
     (case op w of
        (Ok resp, w') \<Rightarrow> (Ok resp, w')
      | (Err e, w') \<Rightarrow>
          if \<not> is_retryable e \<or> attempt = maxr then (Err e, w')
          else retry_attempts model sleep offsets maxr op rest (Some e) (sleep (retry_delay offsets attempt e) w'))"

definition retry_loop ::
  "string \<Rightarrow> (duration \<Rightarrow> 'w \<Rightarrow> 'w) \<Rightarrow> (nat \<Rightarrow> u64) \<Rightarrow> retry_config \<Rightarrow> ('w, 'r) llm_call \<Rightarrow> ('w, 'r) llm_call" where
  "retry_loop model sleep offsets cfg op =
     retry_attempts model sleep offsets (max_retries cfg) op [0..<Suc (max_retries cfg)] None"

subsection \<open>What the loop does\<close>

text \<open>
  \<open>failed_attempts op sleep offsets i k w w'\<close>: starting in \<open>w\<close> with attempt number \<open>i\<close>, \<open>k\<close> attempts
  failed with retryable errors, each followed by its delay, and lead to \<open>w'\<close>.
\<close>

inductive failed_attempts ::
  "('w, 'r) llm_call \<Rightarrow> (duration \<Rightarrow> 'w \<Rightarrow> 'w) \<Rightarrow> (nat \<Rightarrow> u64) \<Rightarrow> nat \<Rightarrow> nat \<Rightarrow> 'w \<Rightarrow> 'w \<Rightarrow> bool"
  for op sleep offsets where
  none: "failed_attempts op sleep offsets i 0 w w"
| more: "op w = (Err e, w1) \<Longrightarrow> is_retryable e \<Longrightarrow>
    failed_attempts op sleep offsets (Suc i) k (sleep (retry_delay offsets i e) w1) w' \<Longrightarrow>
    failed_attempts op sleep offsets i (Suc k) w w'"

lemma retry_attempts_spec:
  assumes "retry_attempts model sleep offsets maxr op [i..<Suc maxr] le w = (res, w')" "i \<le> maxr"
  shows "\<exists>k wk. i + k \<le> maxr \<and> failed_attempts op sleep offsets i k w wk \<and> op wk = (res, w') \<and>
    (i + k = maxr \<or> (case res of Ok _ \<Rightarrow> True | Err e \<Rightarrow> \<not> is_retryable e))"
  using assms
proof (induction "maxr - i" arbitrary: i le w)
  case 0
  then have "i = maxr" by simp
  with 0 have "op w = (res, w')" by (auto split: prod.splits sum.splits if_splits)
  with \<open>i = maxr\<close> show ?case by (intro exI [of _ 0] exI [of _ w]) (auto intro: failed_attempts.none)
next
  case (Suc d)
  then have i: "[i..<Suc maxr] = i # [Suc i..<Suc maxr]" "i < maxr" by (auto simp: upt_conv_Cons simp del: upt_Suc)
  obtain r w1 where op: "op w = (r, w1)" by (cases "op w")
  show ?case
  proof (cases "\<exists>e. r = Err e \<and> is_retryable e")
    case True
    then obtain e where e: "r = Err e" "is_retryable e" by blast
    with Suc.prems(1) op i have "retry_attempts model sleep offsets maxr op [Suc i..<Suc maxr] (Some e)
        (sleep (retry_delay offsets i e) w1) = (res, w')"
      by (simp del: upt_Suc)
    moreover have "d = maxr - Suc i" "Suc i \<le> maxr" using Suc.hyps(2) i(2) by simp_all
    ultimately obtain k wk where "Suc i + k \<le> maxr"
        "failed_attempts op sleep offsets (Suc i) k (sleep (retry_delay offsets i e) w1) wk" "op wk = (res, w')"
        "Suc i + k = maxr \<or> (case res of Ok _ \<Rightarrow> True | Err e \<Rightarrow> \<not> is_retryable e)"
      using Suc.hyps(1) by blast
    with op e show ?thesis
      by (intro exI [of _ "Suc k"] exI [of _ wk]) (auto intro: failed_attempts.more)
  next
    case False
    with Suc.prems(1) op i have "(r, w1) = (res, w')" by (auto split: sum.splits simp del: upt_Suc)
    with op False i show ?thesis
      by (intro exI [of _ 0] exI [of _ w]) (auto intro: failed_attempts.none split: sum.split)
  qed
qed

text \<open>
  The retry loop makes at most one attempt more than the configured retries. Every attempt
  before the last failed with a retryable error and was followed by its delay; the result is the
  outcome of the last attempt, which succeeded, failed for good or was the last one allowed. The
  fallback error of the loop is never returned.
\<close>

theorem retry_loop_spec:
  assumes "retry_loop model sleep offsets cfg op w = (res, w')"
  shows "\<exists>k wk. k \<le> max_retries cfg \<and> failed_attempts op sleep offsets 0 k w wk \<and> op wk = (res, w') \<and>
    (k = max_retries cfg \<or> (case res of Ok _ \<Rightarrow> True | Err e \<Rightarrow> \<not> is_retryable e))"
  using retry_attempts_spec [of model sleep offsets "max_retries cfg" op 0 None w res w'] assms
  by (simp add: retry_loop_def del: upt_Suc)

theorem retry_loop_spec_witness:
  "retry_loop ''m'' (\<lambda>_ w. w) (\<lambda>_. 0) \<lparr>max_retries = 2\<rparr> (\<lambda>w. if w = 1 then (Ok ''yes'', w) else (Err (Http ''x''), w + 1)) (0 :: nat)
     = (Ok ''yes'', 1) \<and>
   (\<exists>k wk. k \<le> 2 \<and> failed_attempts (\<lambda>w. if w = 1 then (Ok ''yes'', w) else (Err (Http ''x''), w + 1)) (\<lambda>_ w. w) (\<lambda>_. 0) 0 k 0 wk \<and>
      (if wk = 1 then (Ok ''yes'', wk) else (Err (Http ''x''), wk + 1)) = (Ok ''yes'', 1 :: nat))"
proof -
  have "retry_loop ''m'' (\<lambda>_ w. w) (\<lambda>_. 0) \<lparr>max_retries = 2\<rparr>
      (\<lambda>w. if w = 1 then (Ok ''yes'', w) else (Err (Http ''x''), w + 1)) (0 :: nat) = (Ok ''yes'', 1)"
    by (simp add: retry_loop_def is_retryable_def upt_conv_Cons)
  with retry_loop_spec [OF this] show ?thesis by auto
qed

interpretation rt: llm_decorator "\<lambda>inner. retry_loop model sleep offsets cfg (inner 0)" "\<lambda>_. False"
  for model sleep offsets cfg
  by unfold_locales (auto simp: retry_loop_def dest!: retry_attempts_spec [OF _ le0] simp del: upt_Suc)

subsection \<open>The size of the delays\<close>

lemma unat_base_ms:
  assumes "a \<le> 52"
  shows "unat (base_ms a) = 1000 * 2 ^ a"
proof -
  have le: "(2 :: nat) ^ a \<le> 2 ^ 52" using assms by (intro power_increasing) auto
  have p: "unat (2 ^ a :: u64) = 2 ^ a"
    using unat_of_nat [of "2 ^ a", where 'a = 64] le by simp
  have lt: "1000 * 2 ^ a < (2 :: nat) ^ 64" using le by simp
  moreover have "base_ms a = 1000 * 2 ^ a"
    using assms p lt by (simp add: base_ms_def saturating_mul_def saturating_pow2_def)
  ultimately show ?thesis
    using unat_of_nat [of "1000 * 2 ^ a", where 'a = 64] by simp
qed

lemma backoff_bound: "a \<le> 52 \<Longrightarrow> 1250 * 2 ^ a < (2 :: nat) ^ 63"
proof -
  assume "a \<le> 52"
  then have "(2 :: nat) ^ a \<le> 2 ^ 52" by (intro power_increasing) auto
  then show ?thesis by simp
qed

lemma sint_small:
  assumes "unat (w :: u64) < 2 ^ 63"
  shows "sint w = int (unat w)"
proof -
  have "uint w < 2 ^ 63" using assms by (simp only: unat_eq_nat_uint nat_less_iff [OF uint_ge_0]) simp
  moreover have "- (2 ^ 63) \<le> uint w" by (rule order_trans [OF _ uint_ge_0]) simp
  ultimately have "signed_take_bit 63 (uint w) = uint w" by (intro signed_take_bit_int_eq_self)
  then have "sint w = uint w" by (simp add: sint_uint)
  then show ?thesis by (rule trans [OF _ uint_nat])
qed

lemma u64_eq_of_nat: "unat (w :: u64) = n \<Longrightarrow> w = of_nat n"
  by (erule subst) simp

lemma unat_of_u64: "n < 2 ^ 64 \<Longrightarrow> unat (of_nat n :: u64) = n"
  using unat_of_nat [of n, where 'a = 64] by simp

lemma delay_ms_exact:
  assumes "a \<le> 52" "unat offset \<le> 500 * 2 ^ a"
  shows "unat (delay_ms offset a) = 750 * 2 ^ a + unat offset"
proof -
  let ?n = "750 * 2 ^ a + unat offset"
  have n: "?n < 2 ^ 63" using assms(2) backoff_bound [OF assms(1)] by simp
  have base: "base_ms a = of_nat (1000 * 2 ^ a)" by (rule u64_eq_of_nat [OF unat_base_ms [OF assms(1)]])
  have quarter: "unat (base_ms a div 4) = 250 * 2 ^ a" using unat_base_ms [OF assms(1)] by (simp add: unat_div)
  then have range: "base_ms a div 4 = of_nat (250 * 2 ^ a)" by (rule u64_eq_of_nat)
  have "base_ms a + (offset - base_ms a div 4) = of_nat (1000 * 2 ^ a) + (of_nat (unat offset) - of_nat (250 * 2 ^ a))"
    unfolding range unfolding base by simp
  also have "\<dots> = of_nat ?n" by (simp add: algebra_simps)
  finally have sum: "base_ms a + (offset - base_ms a div 4) = of_nat ?n" .
  have u: "unat (of_nat ?n :: u64) = ?n" using n by (intro unat_of_u64) simp
  have s: "sint (of_nat ?n :: u64) = int ?n"
    using sint_small [of "of_nat ?n"] n unfolding u by blast
  have "(1 :: nat) \<le> 2 ^ a" by simp
  then have "100 \<le> ?n" by linarith
  then have "100 \<le> int ?n" by linarith
  moreover have "base_ms a div 4 > 0" using quarter by (simp add: word_less_nat_alt)
  ultimately have "delay_ms offset a = word_of_int (int ?n)"
    unfolding delay_ms_def Let_def by (simp only: sum s if_True max_absorb1)
  then show ?thesis by (simp only: of_int_of_nat_eq u)
qed

text \<open>
  For every attempt up to number 52 the machine arithmetic of the backoff is exact: whatever
  offset the generator draws from its range, the delay lies between 75\% and 125\% of one second
  doubled per attempt; and a \<open>Retry-After\<close> header never asks for more than an hour.
\<close>

theorem retry_delay_bounds:
  assumes "attempt \<le> 52" "offset \<le> jitter_limit attempt"
  shows "750 * 2 ^ attempt * 1000000 \<le> retry_backoff_delay offset attempt \<and>
    retry_backoff_delay offset attempt \<le> 1250 * 2 ^ attempt * 1000000 \<and>
    parse_retry_after trim parse_u64 parse_date now header \<le> secs 3600"
proof -
  have "unat (base_ms attempt div 4 * 2) = 500 * 2 ^ attempt"
    using unat_base_ms [OF assms(1)] backoff_bound [OF assms(1)] unat_of_u64 [of "500 * 2 ^ attempt"]
    by (simp add: unat_word_ariths unat_div)
  then have "unat offset \<le> 500 * 2 ^ attempt"
    using assms(2) by (simp add: jitter_limit_def word_le_nat_alt)
  from delay_ms_exact [OF assms(1) this] this
  have "750 * 2 ^ attempt * 1000000 \<le> retry_backoff_delay offset attempt \<and>
      retry_backoff_delay offset attempt \<le> 1250 * 2 ^ attempt * 1000000"
    by (simp add: retry_backoff_delay_def)
  moreover have "parse_retry_after trim parse_u64 parse_date now header \<le> secs 3600"
    by (auto simp: parse_retry_after_def cap_retry_after_def MAX_RETRY_AFTER_SECS_def DEFAULT_RETRY_AFTER_SECS_def
        split: option.split bind_splits)
  ultimately show ?thesis by blast
qed

theorem retry_delay_bounds_witness:
  "750 * 2 ^ 3 * 1000000 \<le> retry_backoff_delay 17 3 \<and> retry_backoff_delay 17 3 \<le> 1250 * 2 ^ 3 * 1000000"
proof -
  have "(17 :: u64) \<le> jitter_limit 3" by (simp add: jitter_limit_def base_ms_def saturating_mul_def saturating_pow2_def)
  with retry_delay_bounds [of 3 17 "\<lambda>s. s" "\<lambda>_. None" "\<lambda>_. None" 0 None] show ?thesis by simp
qed

end
