(* ===== verification/Failover.thy ===== *)
theory Failover
  imports Retry
begin

text \<open>
  The failover provider of \<open>src/llm/failover.rs\<close>: per-provider cooldown in its machine integers,
  the choice of the providers to try, the attempt loop and the binding of a provider to a task.
  \<open>clock\<close> gives the nanoseconds since the epoch instant as the code truncates them; \<open>call i\<close> is
  provider number \<open>i\<close>. Lemmas: at least one provider is always tried, in order, until one
  answers or fails for good; a failing provider is left out for exactly its cooldown.
\<close>

record cooldown_config =
  cooldown_duration :: duration
  cd_failure_threshold :: u32

definition default_cooldown_config :: cooldown_config where
  "default_cooldown_config = \<lparr>cooldown_duration = secs 300, cd_failure_threshold = 3\<rparr>"

record provider_cooldown =
  failure_count :: u32
  cooldown_activated_nanos :: u64

definition new_cooldown :: provider_cooldown where
  "new_cooldown = \<lparr>failure_count = 0, cooldown_activated_nanos = 0\<rparr>"

definition is_in_cooldown :: "u64 \<Rightarrow> u64 \<Rightarrow> provider_cooldown \<Rightarrow> bool" where
  "is_in_cooldown now_nanos cooldown_nanos c \<longleftrightarrow>
     cooldown_activated_nanos c \<noteq> 0 \<and> saturating_sub now_nanos (cooldown_activated_nanos c) < cooldown_nanos"

text \<open>\<open>fetch_add\<close> wraps; the comparison uses the previous count plus one.\<close>

definition cd_record_failure :: "u32 \<Rightarrow> provider_cooldown \<Rightarrow> bool \<times> provider_cooldown" where
  "cd_record_failure threshold c =
     (failure_count c + 1 \<ge> threshold, c\<lparr>failure_count := failure_count c + 1\<rparr>)"

definition activate_cooldown :: "u64 \<Rightarrow> provider_cooldown \<Rightarrow> provider_cooldown" where
  "activate_cooldown now_nanos c = c\<lparr>cooldown_activated_nanos := max now_nanos 1\<rparr>"

definition reset_cooldown :: "provider_cooldown \<Rightarrow> provider_cooldown" where
  "reset_cooldown c = c\<lparr>failure_count := 0, cooldown_activated_nanos := 0\<rparr>"

record failover_state =
  last_used :: nat
  cooldowns :: "provider_cooldown list"
  provider_for_task :: "(nat, nat) hmap"

definition with_cooldown :: "nat \<Rightarrow> (LlmError, failover_state) result" where
  "with_cooldown n =
     (if n = 0 then Err (RequestFailed ''failover'' ''FailoverProvider requires at least one provider'')
      else Ok \<lparr>last_used = 0, cooldowns = replicate n new_cooldown, provider_for_task = []\<rparr>)"

definition bind_provider :: "nat option \<Rightarrow> nat \<Rightarrow> failover_state \<Rightarrow> failover_state" where
  "bind_provider task i s =
     (case task of None \<Rightarrow> s | Some t \<Rightarrow> s\<lparr>provider_for_task := AList.update t i (provider_for_task s)\<rparr>)"

definition take_bound_provider :: "nat option \<Rightarrow> failover_state \<Rightarrow> nat option \<times> failover_state" where
  "take_bound_provider task s =
     (case task of
        None \<Rightarrow> (None, s)
      | Some t \<Rightarrow> (map_of (provider_for_task s) t, s\<lparr>provider_for_task := AList.delete t (provider_for_task s)\<rparr>))"

text \<open>\<open>Iterator::min_by_key\<close>: the first element with the least key.\<close>

fun min_by_key :: "('a \<Rightarrow> 'k::linorder) \<Rightarrow> 'a list \<Rightarrow> 'a option" where
  "min_by_key f [] = None"
| "min_by_key f (x # xs) =
     (case min_by_key f xs of None \<Rightarrow> Some x | Some y \<Rightarrow> Some (if f y < f x then y else x))"

definition available :: "cooldown_config \<Rightarrow> u64 \<Rightarrow> failover_state \<Rightarrow> nat list" where
  "available cfg now_nanos s =
     filter (\<lambda>i. \<not> is_in_cooldown now_nanos (of_nat (cooldown_duration cfg)) (cooldowns s ! i)) [0..<length (cooldowns s)]"

definition upd_cooldown :: "nat \<Rightarrow> (provider_cooldown \<Rightarrow> provider_cooldown) \<Rightarrow> failover_state \<Rightarrow> failover_state" where
  "upd_cooldown i f s = s\<lparr>cooldowns := (cooldowns s)[i := f (cooldowns s ! i)]\<rparr>"

definition note_failure :: "cooldown_config \<Rightarrow> u64 \<Rightarrow> nat \<Rightarrow> failover_state \<Rightarrow> failover_state" where
  "note_failure cfg nanos i s =
     (let (hit, c) = cd_record_failure (cd_failure_threshold cfg) (cooldowns s ! i)
      in upd_cooldown i (\<lambda>_. if hit then activate_cooldown nanos c else c) s)"

fun try_each ::
  "('w \<Rightarrow> u64) \<Rightarrow> cooldown_config \<Rightarrow> (nat \<Rightarrow> ('w, 'r) llm_call) \<Rightarrow> nat list \<Rightarrow> LlmError option
     \<Rightarrow> (failover_state \<times> 'w, nat \<times> 'r) llm_call" where
  "try_each clock cfg call [] last_error sw =
     (Err (case last_error of Some e \<Rightarrow> e | None \<Rightarrow> RequestFailed ''failover'' ''Invariant violated in FailoverProvider: providers were exhausted but no last_error was recorded (this branch should be unreachable; possible causes: no provider attempts were made or `available` was unexpectedly empty).''), sw)"
| "try_each clock cfg call (i # is) last_error sw =
     (case call i (snd sw) of
        (Ok response, w') \<Rightarrow> (Ok (i, response), (upd_cooldown i reset_cooldown ((fst sw)\<lparr>last_used := i\<rparr>), w'))
      | (Err e, w') \<Rightarrow>
          if \<not> is_retryable e then (Err e, (fst sw, w'))
          else try_each clock cfg call is (Some e) (note_failure cfg (clock w') i (fst sw), w'))"

definition try_providers ::
  "('w \<Rightarrow> u64) \<Rightarrow> cooldown_config \<Rightarrow> (nat \<Rightarrow> ('w, 'r) llm_call) \<Rightarrow> (failover_state \<times> 'w, nat \<times> 'r) llm_call" where
  "try_providers clock cfg call sw =
     (let s = fst sw; av = available cfg (clock (snd sw)) s in
      if av = [] then
        (case min_by_key (\<lambda>i. cooldown_activated_nanos (cooldowns s ! i)) [0..<length (cooldowns s)] of
           None \<Rightarrow> (Err (RequestFailed ''failover'' ''FailoverProvider requires at least one provider''), sw)
         | Some oldest \<Rightarrow> try_each clock cfg call [oldest] None sw)
      else try_each clock cfg call av None sw)"

definition failover_complete ::
  "('w \<Rightarrow> u64) \<Rightarrow> cooldown_config \<Rightarrow> nat option \<Rightarrow> (nat \<Rightarrow> ('w, 'r) llm_call) \<Rightarrow> (failover_state \<times> 'w, 'r) llm_call" where
  "failover_complete clock cfg task call sw =
     (case try_providers clock cfg call sw of
        (Ok (i, response), (s, w)) \<Rightarrow> (Ok response, (bind_provider task i s, w))
      | (Err e, sw') \<Rightarrow> (Err e, sw'))"

definition effective_provider :: "nat option \<Rightarrow> failover_state \<Rightarrow> nat \<times> failover_state" where
  "effective_provider task s =
     (case take_bound_provider task s of
        (Some i, s') \<Rightarrow> (i, s')
      | (None, s') \<Rightarrow> (last_used s', s'))"

subsection \<open>The attempts\<close>

lemma min_by_key_None: "min_by_key f xs = None \<longleftrightarrow> xs = []"
  by (cases xs) (auto split: option.splits)

lemma min_by_key_Some: "min_by_key f xs = Some x \<Longrightarrow> x \<in> set xs \<and> (\<forall>y \<in> set xs. f x \<le> f y)"
  by (induction xs arbitrary: x) (fastforce split: option.splits if_splits simp: min_by_key_None)+

text \<open>\<open>failed_chain call ps w w'\<close>: the providers \<open>ps\<close> fail one after the other with retryable errors.\<close>

inductive failed_chain :: "(nat \<Rightarrow> ('w, 'r) llm_call) \<Rightarrow> nat list \<Rightarrow> 'w \<Rightarrow> 'w \<Rightarrow> bool" for call where
  none: "failed_chain call [] w w"
| more: "call i w = (Err e, w1) \<Longrightarrow> is_retryable e \<Longrightarrow> failed_chain call ps w1 w' \<Longrightarrow> failed_chain call (i # ps) w w'"

definition same_outcome :: "nat \<Rightarrow> (LlmError, nat \<times> 'r) result \<Rightarrow> (LlmError, 'r) result \<Rightarrow> bool" where
  "same_outcome i res out = (case res of Ok (j, r) \<Rightarrow> j = i \<and> out = Ok r | Err e \<Rightarrow> out = Err e)"

lemma try_each_spec:
  assumes "try_each clock cfg call idxs le (s, w) = (res, (s', w'))" "idxs \<noteq> []"
  shows "\<exists>pre i post wi out. idxs = pre @ i # post \<and> failed_chain call pre w wi \<and> call i wi = (out, w') \<and>
    same_outcome i res out \<and> (post = [] \<or> (case res of Ok _ \<Rightarrow> True | Err e \<Rightarrow> \<not> is_retryable e))"
  using assms
proof (induction idxs arbitrary: le s w)
  case (Cons i idxs)
  obtain out w1 where c: "call i w = (out, w1)" by (cases "call i w")
  show ?case
  proof (cases "(\<exists>e. out = Err e \<and> is_retryable e) \<and> idxs \<noteq> []")
    case True
    then obtain e where e: "out = Err e" "is_retryable e" "idxs \<noteq> []" by blast
    then have "try_each clock cfg call idxs (Some e) (note_failure cfg (clock w1) i s, w1) = (res, (s', w'))"
      using Cons.prems(1) c by simp
    from Cons.IH [OF this e(3)] obtain pre j post wi o' where "idxs = pre @ j # post" "failed_chain call pre w1 wi" "call j wi = (o', w')"
      "same_outcome j res o'" "post = [] \<or> (case res of Ok _ \<Rightarrow> True | Err e \<Rightarrow> \<not> is_retryable e)"
      by blast
    with c e show ?thesis
      by (intro exI [of _ "i # pre"] exI [of _ j] exI [of _ post] exI [of _ wi] exI [of _ o']) (auto intro: failed_chain.more)
  next
    case False
    with Cons.prems c have "same_outcome i res out \<and> w1 = w' \<and> (idxs = [] \<or> (case res of Ok _ \<Rightarrow> True | Err e \<Rightarrow> \<not> is_retryable e))"
      by (cases out) (auto simp: same_outcome_def split: if_splits)
    with c show ?thesis
      by (intro exI [of _ "[]"] exI [of _ i] exI [of _ idxs] exI [of _ w] exI [of _ out]) (auto intro: failed_chain.none)
  qed
qed simp

text \<open>The providers a request tries: those not in cooldown in order, or else the oldest-cooled one.\<close>

definition attempt_order :: "cooldown_config \<Rightarrow> u64 \<Rightarrow> failover_state \<Rightarrow> nat list" where
  "attempt_order cfg now_nanos s =
     (if available cfg now_nanos s \<noteq> [] then available cfg now_nanos s
      else case min_by_key (\<lambda>i. cooldown_activated_nanos (cooldowns s ! i)) [0..<length (cooldowns s)] of
             None \<Rightarrow> [] | Some i \<Rightarrow> [i])"

lemma attempt_order_nonempty: "cooldowns s \<noteq> [] \<Longrightarrow> attempt_order cfg now_nanos s \<noteq> []"
  by (auto simp: attempt_order_def min_by_key_None split: option.split)

lemma try_providers_order:
  "cooldowns s \<noteq> [] \<Longrightarrow> try_providers clock cfg call (s, w) = try_each clock cfg call (attempt_order cfg (clock w) s) None (s, w)"
  by (auto simp: try_providers_def attempt_order_def min_by_key_None Let_def split: option.split)

lemma try_providers_spec:
  assumes "cooldowns s \<noteq> []" "try_providers clock cfg call (s, w) = (res, (s', w'))"
  shows "\<exists>pre i post wi out. attempt_order cfg (clock w) s = pre @ i # post \<and> failed_chain call pre w wi \<and>
    call i wi = (out, w') \<and> same_outcome i res out \<and>
    (post = [] \<or> (case res of Ok _ \<Rightarrow> True | Err e \<Rightarrow> \<not> is_retryable e))"
  by (rule try_each_spec [OF assms(2) [unfolded try_providers_order [OF assms(1)]] attempt_order_nonempty [OF assms(1)]])

lemma attempt_order_choice:
  assumes "cooldowns s \<noteq> []"
  shows "sorted (attempt_order cfg now_nanos s) \<and> set (attempt_order cfg now_nanos s) \<subseteq> {0..<length (cooldowns s)} \<and>
    (available cfg now_nanos s = [] \<longrightarrow>
       (\<exists>i. attempt_order cfg now_nanos s = [i] \<and>
          (\<forall>j < length (cooldowns s). cooldown_activated_nanos (cooldowns s ! i) \<le> cooldown_activated_nanos (cooldowns s ! j))))"
proof (cases "available cfg now_nanos s = []")
  case True
  have "[0..<length (cooldowns s)] \<noteq> []" using assms by simp
  then have "min_by_key (\<lambda>i. cooldown_activated_nanos (cooldowns s ! i)) [0..<length (cooldowns s)] \<noteq> None"
    by (simp only: min_by_key_None) simp
  then obtain i where i: "min_by_key (\<lambda>i. cooldown_activated_nanos (cooldowns s ! i)) [0..<length (cooldowns s)] = Some i"
    by blast
  then have "attempt_order cfg now_nanos s = [i]" using True by (simp add: attempt_order_def)
  with min_by_key_Some [OF i] show ?thesis by simp
next
  case False
  then have "attempt_order cfg now_nanos s = available cfg now_nanos s" by (simp add: attempt_order_def)
  with False show ?thesis by (auto simp: available_def sorted_wrt_filter)
qed


definition two_providers :: failover_state where
  "two_providers = \<lparr>last_used = 0, cooldowns = [new_cooldown, new_cooldown], provider_for_task = []\<rparr>"

definition second_answers :: "nat \<Rightarrow> (unit, string) llm_call" where
  "second_answers i w = (if i = 0 then Err (Http ''x'') else Ok ''hi'', w)"


interpretation fo: llm_decorator "\<lambda>inner sw. failover_complete clock cfg task inner sw"
    "\<lambda>e. e = RequestFailed ''failover'' ''FailoverProvider requires at least one provider''"
  for clock cfg task
proof (unfold_locales, goal_cases)
  case (1 inner v r v')
  obtain s w where v: "v = (s, w)" by (cases v)
  from 1 obtain i s' w' where t: "try_providers clock cfg inner (s, w) = (Ok (i, r), (s', w'))"
    by (auto simp: v failover_complete_def split: prod.splits sum.splits)
  then have "cooldowns s \<noteq> []" by (auto simp: try_providers_def available_def)
  from try_providers_spec [OF this t] show ?case by (auto simp: same_outcome_def)
next
  case (2 inner v e v')
  obtain s w where v: "v = (s, w)" by (cases v)
  from 2 obtain s' w' where t: "try_providers clock cfg inner (s, w) = (Err e, (s', w'))"
    by (auto simp: v failover_complete_def split: prod.splits sum.splits)
  show ?case
  proof (cases "cooldowns s = []")
    case False
    from try_providers_spec [OF this t] show ?thesis by (auto simp: same_outcome_def)
  qed (use t in \<open>simp add: try_providers_def available_def\<close>)
qed

subsection \<open>The cooldown window\<close>

lemma unat_max: "unat (max a b :: u64) = max (unat a) (unat b)"
  by (simp add: max_def word_le_nat_alt)

text \<open>
  When a failure makes a provider reach the threshold, requests leave it out from then on
  until exactly the cooldown has passed since that failure, while the standing of every other
  provider is unchanged; an answer clears its record at once.
\<close>

theorem cooldown_window:
  assumes "i < length (cooldowns s)" "cd_failure_threshold cfg \<le> failure_count (cooldowns s ! i) + 1"
    and "0 < cooldown_duration cfg" "cooldown_duration cfg < 2 ^ 64" "j \<noteq> i"
  shows "(i \<in> set (available cfg now (note_failure cfg t i s)) \<longleftrightarrow> max (unat t) 1 + cooldown_duration cfg \<le> unat now) \<and>
    (j \<in> set (available cfg now (note_failure cfg t i s)) \<longleftrightarrow> j \<in> set (available cfg now s)) \<and>
    i \<in> set (available cfg now (upd_cooldown i reset_cooldown s)) \<and>
    failure_count (cooldowns (upd_cooldown i reset_cooldown s) ! i) = 0"
proof -
  have d: "unat (of_nat (cooldown_duration cfg) :: u64) = cooldown_duration cfg"
    using assms(4) by (rule unat_of_u64)
  have act: "unat (max t 1) = max (unat t) 1" by (simp add: unat_max)
  have "max t 1 \<noteq> 0"
  proof
    assume "max t 1 = 0"
    with act show False by simp
  qed
  then have cd: "is_in_cooldown now (of_nat (cooldown_duration cfg)) \<lparr>failure_count = c, cooldown_activated_nanos = max t 1\<rparr>
      \<longleftrightarrow> unat now < max (unat t) 1 + cooldown_duration cfg" for c
    using assms(3) act d by (auto simp: is_in_cooldown_def word_less_nat_alt unat_saturating_sub)
  have "cooldowns (note_failure cfg t i s) = (cooldowns s)[i :=
      \<lparr>failure_count = failure_count (cooldowns s ! i) + 1, cooldown_activated_nanos = max t 1\<rparr>]"
    using assms(2)
    by (cases "cooldowns s ! i") (simp add: note_failure_def cd_record_failure_def activate_cooldown_def upd_cooldown_def)
  then show ?thesis
    using assms(1,5) cd by (auto simp: available_def upd_cooldown_def reset_cooldown_def is_in_cooldown_def nth_list_update)
qed

theorem cooldown_window_witness:
  "0 \<notin> set (available default_cooldown_config 5 (note_failure default_cooldown_config 4 0
      (two_providers\<lparr>cooldowns := [\<lparr>failure_count = 2, cooldown_activated_nanos = 0\<rparr>, new_cooldown]\<rparr>)))"
  using cooldown_window [of 0 "two_providers\<lparr>cooldowns := [\<lparr>failure_count = 2, cooldown_activated_nanos = 0\<rparr>, new_cooldown]\<rparr>"
      default_cooldown_config 1 5 4]
  by (simp add: default_cooldown_config_def)

end
