(* ===== verification/Circuit_Breaker.thy ===== *)
theory Circuit_Breaker
  imports Llm_Provider
begin

text \<open>
  The circuit breaker of \<open>src/llm/circuit_breaker.rs\<close>. \<open>clock\<close> reads the monotonic clock of the
  world; \<open>fmt\<close> is the float formatting of the seconds left, used in a message only. Calls run
  concurrently and the lock is not held while the inner provider works, so the step relation
  \<open>cb_step\<close> interleaves the admission and the completion of any number of calls. Lemmas: the
  counters stay within the configuration in every interleaving, the trip and recovery cycle, and
  that a success may arrive while the circuit is open.
\<close>

record breaker_config =
  failure_threshold :: nat
  recovery_timeout :: duration
  half_open_successes_needed :: nat

definition default_breaker_config :: breaker_config where
  "default_breaker_config =
     \<lparr>failure_threshold = 5, recovery_timeout = secs 30, half_open_successes_needed = 2\<rparr>"

datatype CircuitState = Closed | Open | HalfOpen

record breaker_state =
  cb_state :: CircuitState
  consecutive_failures :: nat
  opened_at :: "instant option"
  half_open_successes :: nat

definition new_breaker :: breaker_state where
  "new_breaker = \<lparr>cb_state = Closed, consecutive_failures = 0, opened_at = None, half_open_successes = 0\<rparr>"

definition is_transient :: "LlmError \<Rightarrow> bool" where
  "is_transient e =
     (case e of
        RequestFailed _ _ \<Rightarrow> True | RateLimited _ _ \<Rightarrow> True | InvalidResponse _ _ \<Rightarrow> True
      | SessionExpired _ \<Rightarrow> True | SessionRenewalFailed _ _ \<Rightarrow> True | Http _ \<Rightarrow> True | LlmIo _ \<Rightarrow> True
      | _ \<Rightarrow> False)"

definition open_error :: "(duration \<Rightarrow> string) \<Rightarrow> string \<Rightarrow> nat \<Rightarrow> duration \<Rightarrow> LlmError" where
  "open_error fmt model n remaining =
     RequestFailed model (''Circuit breaker open ('' @ show_nat n @ '' consecutive failures, recovery in ''
       @ fmt remaining @ ''s)'')"

text \<open>The elapsed time is read twice; \<open>checked_sub\<close> with a zero default is subtraction on \<open>nat\<close>.\<close>

definition check_allowed ::
  "(duration \<Rightarrow> string) \<Rightarrow> string \<Rightarrow> breaker_config \<Rightarrow> instant \<Rightarrow> instant \<Rightarrow> breaker_state
     \<Rightarrow> (LlmError, unit) result \<times> breaker_state" where
  "check_allowed fmt model cfg now now2 s =
     (case cb_state s of
        Closed \<Rightarrow> (Ok (), s)
      | HalfOpen \<Rightarrow> (Ok (), s)
      | Open \<Rightarrow>
          (case opened_at s of
             Some t \<Rightarrow>
               if now - t \<ge> recovery_timeout cfg
               then (Ok (), s\<lparr>cb_state := HalfOpen, half_open_successes := 0\<rparr>)
               else (Err (open_error fmt model (consecutive_failures s) (recovery_timeout cfg - (now2 - t))), s)
           | None \<Rightarrow> (Ok (), s\<lparr>cb_state := Closed\<rparr>)))"

definition record_success :: "breaker_config \<Rightarrow> breaker_state \<Rightarrow> breaker_state" where
  "record_success cfg s =
     (case cb_state s of
        Closed \<Rightarrow> s\<lparr>consecutive_failures := 0\<rparr>
      | HalfOpen \<Rightarrow>
          let s1 = s\<lparr>half_open_successes := half_open_successes s + 1\<rparr> in
          if half_open_successes s1 \<ge> half_open_successes_needed cfg
          then s1\<lparr>cb_state := Closed, consecutive_failures := 0, opened_at := None\<rparr> else s1
      | Open \<Rightarrow> s\<lparr>cb_state := Closed, consecutive_failures := 0, opened_at := None\<rparr>)"

definition record_failure :: "breaker_config \<Rightarrow> instant \<Rightarrow> LlmError \<Rightarrow> breaker_state \<Rightarrow> breaker_state" where
  "record_failure cfg now e s =
     (if \<not> is_transient e then s
      else case cb_state s of
        Closed \<Rightarrow>
          let s1 = s\<lparr>consecutive_failures := consecutive_failures s + 1\<rparr> in
          if consecutive_failures s1 \<ge> failure_threshold cfg
          then s1\<lparr>cb_state := Open, opened_at := Some now\<rparr> else s1
      | HalfOpen \<Rightarrow> s\<lparr>cb_state := Open, opened_at := Some now, half_open_successes := 0\<rparr>
      | Open \<Rightarrow> s)"

definition cb_complete ::
  "(duration \<Rightarrow> string) \<Rightarrow> string \<Rightarrow> ('w \<Rightarrow> instant) \<Rightarrow> breaker_config \<Rightarrow> ('w, 'r) llm_call
     \<Rightarrow> (breaker_state \<times> 'w, 'r) llm_call" where
  "cb_complete fmt model clock cfg inner sw =
     (let (s, w) = sw in
      case check_allowed fmt model cfg (clock w) (clock w) s of
        (Err e, s1) \<Rightarrow> (Err e, (s1, w))
      | (Ok _, s1) \<Rightarrow>
          (case inner w of
             (Ok resp, w1) \<Rightarrow> (Ok resp, (record_success cfg s1, w1))
           | (Err e, w1) \<Rightarrow> (Err e, (record_failure cfg (clock w1) e s1, w1))))"

lemmas cb_defs [claw_defs] = check_allowed_def record_success_def record_failure_def Let_def

interpretation cb: llm_decorator "\<lambda>inner. cb_complete fmt model clock cfg (inner 0)"
    "\<lambda>e. \<exists>n remaining. e = open_error fmt model n remaining"
  for fmt model clock cfg
  by unfold_locales
     (auto simp: cb_complete_def check_allowed_def split: prod.splits sum.splits CircuitState.splits option.splits if_splits)

subsection \<open>Interleaved calls\<close>

text \<open>The breaker with the number of calls that were admitted and have not returned.\<close>

inductive cb_step :: "breaker_config \<Rightarrow> breaker_state \<times> nat \<Rightarrow> breaker_state \<times> nat \<Rightarrow> bool" for cfg where
  admit: "check_allowed fmt model cfg now now2 s = (Ok (), s') \<Longrightarrow> cb_step cfg (s, n) (s', Suc n)"
| reject: "check_allowed fmt model cfg now now2 s = (Err e, s') \<Longrightarrow> cb_step cfg (s, n) (s', n)"
| success: "cb_step cfg (s, Suc n) (record_success cfg s, n)"
| failure: "cb_step cfg (s, Suc n) (record_failure cfg now e s, n)"

definition cb_inv :: "breaker_config \<Rightarrow> breaker_state \<Rightarrow> bool" where
  "cb_inv cfg s \<longleftrightarrow>
     consecutive_failures s \<le> max 1 (failure_threshold cfg) \<and>
     half_open_successes s \<le> max 1 (half_open_successes_needed cfg) \<and>
     (case cb_state s of
        Closed \<Rightarrow> consecutive_failures s < max 1 (failure_threshold cfg) \<and> opened_at s = None
      | Open \<Rightarrow> opened_at s \<noteq> None
      | HalfOpen \<Rightarrow> opened_at s \<noteq> None \<and> half_open_successes s < max 1 (half_open_successes_needed cfg))"

lemma cb_inv_check [claw_inv]:
  "cb_inv cfg s \<Longrightarrow> check_allowed fmt model cfg now now2 s = (r, s') \<Longrightarrow> cb_inv cfg s'"
  by (auto simp: cb_inv_def cb_defs split: CircuitState.splits option.splits if_splits)

lemma cb_inv_success [claw_inv]: "cb_inv cfg s \<Longrightarrow> cb_inv cfg (record_success cfg s)"
  by (auto simp: cb_inv_def cb_defs split: CircuitState.splits)

lemma cb_inv_failure [claw_inv]: "cb_inv cfg s \<Longrightarrow> cb_inv cfg (record_failure cfg now e s)"
  by (auto simp: cb_inv_def cb_defs split: CircuitState.splits)

lemma cb_step_inv: "cb_step cfg a b \<Longrightarrow> cb_inv cfg (fst a) \<Longrightarrow> cb_inv cfg (fst b)"
  by (induction rule: cb_step.induct) (auto intro: claw_inv)

text \<open>
  In every interleaving of calls the failure count stays within the threshold and the probe
  count within the probes needed (so neither counter can overflow), and an open or half-open
  circuit always knows when it opened: the recovery branch for a missing time is never taken.
\<close>

theorem breaker_invariant:
  assumes "(cb_step cfg)\<^sup>*\<^sup>* (new_breaker, 0) (s, n)"
  shows "consecutive_failures s \<le> max 1 (failure_threshold cfg) \<and>
    half_open_successes s \<le> max 1 (half_open_successes_needed cfg) \<and>
    (cb_state s = Closed \<longleftrightarrow> opened_at s = None)"
proof -
  have "cb_inv cfg (fst (new_breaker, 0 :: nat))" by (simp add: cb_inv_def new_breaker_def)
  with assms have "cb_inv cfg (fst (s, n))"
    by (induction rule: rtranclp_induct) (auto dest: cb_step_inv)
  then show ?thesis by (auto simp: cb_inv_def split: CircuitState.splits)
qed

theorem breaker_invariant_witness:
  "consecutive_failures (record_failure default_breaker_config 7 (Http ''x'') new_breaker) \<le> max 1 5"
proof -
  have "(cb_step default_breaker_config)\<^sup>*\<^sup>* (new_breaker, 0) (new_breaker, Suc 0)"
    by (rule r_into_rtranclp, rule admit [of undefined undefined _ 0 0]) (simp add: check_allowed_def new_breaker_def)
  also have "cb_step default_breaker_config (new_breaker, Suc 0)
      (record_failure default_breaker_config 7 (Http ''x'') new_breaker, 0)" by (rule failure)
  finally have "(cb_step default_breaker_config)\<^sup>*\<^sup>* (new_breaker, 0)
      (record_failure default_breaker_config 7 (Http ''x'') new_breaker, 0)" .
  from breaker_invariant [OF this] show ?thesis by (simp add: default_breaker_config_def)
qed

subsection \<open>Tripping and recovering\<close>

lemma fold_failures:
  assumes "\<forall>(now, e) \<in> set fs. is_transient e" "cb_state s = Closed"
    and "consecutive_failures s + length fs < failure_threshold cfg"
  shows "fold (\<lambda>(now, e). record_failure cfg now e) fs s = s\<lparr>consecutive_failures := consecutive_failures s + length fs\<rparr>"
  using assms
  by (induction fs arbitrary: s) (auto simp: record_failure_def Let_def)

lemma fold_successes:
  assumes "cb_state s = HalfOpen" "half_open_successes s + k < half_open_successes_needed cfg"
  shows "(record_success cfg ^^ k) s = s\<lparr>half_open_successes := half_open_successes s + k\<rparr>"
  using assms by (induction k) (auto simp: record_success_def Let_def)

text \<open>
  C37: The cycle of the breaker. As many transient failures in a row as the threshold open the
  circuit at the time of the last one; until the recovery timeout has passed every call is
  rejected without touching the state or the provider; after it a probe is admitted; the needed
  number of successful probes closes the circuit with clean counters, and a failed probe opens
  it again from its own time. Other errors never count.
\<close>

theorem breaker_cycle:
  assumes "\<forall>(now, e) \<in> set fs. is_transient e" "Suc (length fs) = failure_threshold cfg" "is_transient e"
    and "0 < half_open_successes_needed cfg" "\<not> is_transient e'"
    and "tripped = record_failure cfg t e (fold (\<lambda>(now, e). record_failure cfg now e) fs new_breaker)"
    and "half = snd (check_allowed fmt model cfg (t + recovery_timeout cfg + d) now2 tripped)"
  shows "tripped = \<lparr>cb_state = Open, consecutive_failures = failure_threshold cfg, opened_at = Some t, half_open_successes = 0\<rparr> \<and>
    (now - t < recovery_timeout cfg \<longrightarrow>
       clock w = now \<longrightarrow> (\<exists>err. cb_complete fmt model clock cfg inner (tripped, w) = (Err err, (tripped, w)))) \<and>
    cb_state half = HalfOpen \<and>
    (record_success cfg ^^ half_open_successes_needed cfg) half =
      new_breaker\<lparr>half_open_successes := half_open_successes_needed cfg\<rparr> \<and>
    record_failure cfg t' e half = tripped\<lparr>opened_at := Some t'\<rparr> \<and>
    record_failure cfg t' e' half = half"
proof -
  have "fold (\<lambda>(now, e). record_failure cfg now e) fs new_breaker = new_breaker\<lparr>consecutive_failures := length fs\<rparr>"
    using fold_failures [OF assms(1), of new_breaker cfg] assms(2) by (simp add: new_breaker_def)
  then have tr: "tripped = \<lparr>cb_state = Open, consecutive_failures = failure_threshold cfg, opened_at = Some t, half_open_successes = 0\<rparr>"
    using assms(2,3) by (simp add: assms(6) record_failure_def new_breaker_def Let_def)
  then have half: "half = \<lparr>cb_state = HalfOpen, consecutive_failures = failure_threshold cfg, opened_at = Some t, half_open_successes = 0\<rparr>"
    by (simp add: assms(7) check_allowed_def)
  obtain k where k: "half_open_successes_needed cfg = Suc k" using assms(4) by (cases "half_open_successes_needed cfg") auto
  have "(record_success cfg ^^ Suc k) half = new_breaker\<lparr>half_open_successes := Suc k\<rparr>"
    using fold_successes [of half k cfg] half k by (simp add: record_success_def new_breaker_def)
  then show ?thesis
    using assms(3,5) tr half k by (auto simp: cb_complete_def check_allowed_def record_failure_def)
qed

theorem breaker_cycle_witness:
  "record_failure \<lparr>failure_threshold = 1, recovery_timeout = 30, half_open_successes_needed = 2\<rparr> 9 (Http ''x'') new_breaker
     = \<lparr>cb_state = Open, consecutive_failures = 1, opened_at = Some 9, half_open_successes = 0\<rparr>"
  using breaker_cycle [where fs = "[]" and cfg = "\<lparr>failure_threshold = 1, recovery_timeout = 30, half_open_successes_needed = 2\<rparr>"
          and e = "Http ''x''" and e' = "Json ''y''" and t = 9, OF _ _ _ _ _ refl refl, THEN conjunct1]
  by (simp add: is_transient_def)

subsection \<open>A success while the circuit is open\<close>

lemma admit_many:
  assumes "cb_state s = Closed"
  shows "(cb_step cfg)\<^sup>*\<^sup>* (s, n) (s, n + k)"
proof (induction k)
  case (Suc k)
  have "cb_step cfg (s, n + k) (s, Suc (n + k))"
    by (rule admit [of undefined undefined cfg 0 0]) (simp add: check_allowed_def assms)
  with Suc show ?case by (simp add: rtranclp.rtrancl_into_rtrancl)
qed simp

lemma fail_many:
  assumes "\<forall>(now, e) \<in> set fs. is_transient e"
  shows "(cb_step cfg)\<^sup>*\<^sup>* (s, n + length fs) (fold (\<lambda>(now, e). record_failure cfg now e) fs s, n)"
  using assms
proof (induction fs arbitrary: s)
  case (Cons f fs)
  obtain now e where f: "f = (now, e)" by (cases f)
  have "cb_step cfg (s, Suc (n + length fs)) (record_failure cfg now e s, n + length fs)" by (rule failure)
  with Cons f show ?case by (simp add: converse_rtranclp_into_rtranclp)
qed simp

text \<open>
  Whatever the threshold, calls can be interleaved so that a call admitted while the circuit
  was closed succeeds when other calls have opened it in the meantime; the success then closes
  the circuit at once, with no recovery timeout and no probe.
\<close>

theorem success_while_open:
  "\<exists>s n. (cb_step cfg)\<^sup>*\<^sup>* (new_breaker, 0) (s, Suc n) \<and> cb_state s = Open \<and> opened_at s = Some now \<and>
     cb_step cfg (s, Suc n) (record_success cfg s, n) \<and> cb_state (record_success cfg s) = Closed"
proof -
  define k where "k = failure_threshold cfg - 1"
  define fs where "fs = replicate k (now, Http [])"
  let ?s1 = "fold (\<lambda>(now, e). record_failure cfg now e) fs new_breaker"
  let ?s = "record_failure cfg now (Http []) ?s1"
  have t: "is_transient (Http [])" "\<forall>(now, e) \<in> set fs. is_transient e"
    by (auto simp: is_transient_def fs_def)
  have s1: "?s1 = new_breaker\<lparr>consecutive_failures := k\<rparr>"
  proof (cases "failure_threshold cfg")
    case (Suc j)
    then show ?thesis using fold_failures [OF t(2), of new_breaker cfg] by (simp add: fs_def k_def new_breaker_def)
  qed (simp add: fs_def k_def new_breaker_def)
  have "(cb_step cfg)\<^sup>*\<^sup>* (new_breaker, 0) (new_breaker, Suc (Suc 0) + length fs)"
    using admit_many [of new_breaker cfg 0 "Suc (Suc 0) + length fs"] by (simp add: new_breaker_def)
  also have "(cb_step cfg)\<^sup>*\<^sup>* (new_breaker, Suc (Suc 0) + length fs) (?s1, Suc (Suc 0))" by (rule fail_many [OF t(2)])
  also have "cb_step cfg (?s1, Suc (Suc 0)) (?s, Suc 0)" by (rule failure)
  finally have "(cb_step cfg)\<^sup>*\<^sup>* (new_breaker, 0) (?s, Suc 0)" .
  moreover have "cb_state ?s = Open" "opened_at ?s = Some now"
    unfolding s1 using t(1) by (simp_all add: record_failure_def new_breaker_def k_def Let_def)
  ultimately show ?thesis
    using cb_step.success [of cfg ?s 0] by (intro exI [of _ ?s] exI [of _ 0]) (simp add: record_success_def)
qed

end
