(* ===== verification/Response_Cache.thy ===== *)
theory Response_Cache
  imports Failover Circuit_Breaker
begin

text \<open>
  The response cache of \<open>src/llm/response_cache.rs\<close>, and the chain of decorators that
  \<open>build_provider_chain\<close> of \<open>src/llm/mod.rs\<close> puts together. The SHA-256 digest in hexadecimal and the JSON
  text of the messages are parameters; what is hashed is spelled out byte for byte. \<open>clock\<close> reads
  the monotonic clock; the counters of the statistics wrap at 64 bits. Lemmas: the cache never
  outgrows its limit, an answer it gives was given by the provider for a request with the same
  key within the time to live, and the whole chain only passes on what a provider said.
\<close>

record cache_config =
  ttl :: duration
  max_entries :: nat

definition default_cache_config :: cache_config where
  "default_cache_config = \<lparr>ttl = secs 3600, max_entries = 1000\<rparr>"

record cache_entry =
  ce_response :: completion_response
  ce_created_at :: instant
  ce_last_accessed :: instant
  ce_hit_count :: u64

record cached_provider =
  cache :: "(string, cache_entry) hmap"
  request_count :: u64
  total_hit_count :: u64

definition new_cached :: cached_provider where
  "new_cached = \<lparr>cache = [], request_count = 0, total_hit_count = 0\<rparr>"

definition clear_cache :: "cached_provider \<Rightarrow> cached_provider" where
  "clear_cache c = c\<lparr>cache := []\<rparr>"

subsection \<open>Keys\<close>

definition le_bytes :: "u32 \<Rightarrow> string" where
  "le_bytes w = map (\<lambda>k. char_of (unat (drop_bit (8 * k) w) mod 256)) [0, 1, 2, 3]"

definition opt_bytes :: "u32 option \<Rightarrow> string" where
  "opt_bytes x = (case x of Some w \<Rightarrow> le_bytes w | None \<Rightarrow> [])"

definition key_material :: "(chat_message list \<Rightarrow> string option) \<Rightarrow> string \<Rightarrow> completion_request \<Rightarrow> string" where
  "key_material js model q =
     model @ ''|''
     @ (case js (cr_messages q) of Some json \<Rightarrow> json | None \<Rightarrow> [])
     @ ''|'' @ opt_bytes (cr_max_tokens q)
     @ ''|'' @ opt_bytes (cr_temperature q)
     @ ''|'' @ (case cr_stop_sequences q of
          Some stops \<Rightarrow> concat (map (\<lambda>s. s @ [CHR 0x00]) stops)
        | None \<Rightarrow> [])"

definition cache_key :: "(string \<Rightarrow> string) \<Rightarrow> (chat_message list \<Rightarrow> string option) \<Rightarrow> string \<Rightarrow> completion_request \<Rightarrow> string" where
  "cache_key sha js model q = sha (key_material js model q)"

subsection \<open>Lookup and insertion\<close>

text \<open>The first critical section: a live entry answers, an expired one is removed.\<close>

definition lookup_entry :: "cache_config \<Rightarrow> instant \<Rightarrow> string \<Rightarrow> cached_provider \<Rightarrow> completion_response option \<times> cached_provider" where
  "lookup_entry cfg now key c =
     (case map_of (cache c) key of
        None \<Rightarrow> (None, c)
      | Some e \<Rightarrow>
          if now - ce_created_at e < ttl cfg
          then (Some (ce_response e),
                c\<lparr>cache := AList.update key (e\<lparr>ce_last_accessed := now, ce_hit_count := ce_hit_count e + 1\<rparr>) (cache c),
                  total_hit_count := total_hit_count c + 1\<rparr>)
          else (None, c\<lparr>cache := AList.delete key (cache c)\<rparr>))"

text \<open>The eviction loop: drop the least recently used entry while the cache is full.\<close>

function evict :: "nat \<Rightarrow> (string, cache_entry) hmap \<Rightarrow> (string, cache_entry) hmap" where
  "evict mx m =
     (if length m \<ge> mx then
        (case min_by_key (\<lambda>(k, e). ce_last_accessed e) m of
           Some (k, e) \<Rightarrow> evict mx (AList.delete k m)
         | None \<Rightarrow> m)
      else m)"
  by pat_completeness auto
termination
proof (relation "measure (\<lambda>(mx, m). length m)", goal_cases)
  case (2 mx m x k e)
  then have "(k, e) \<in> set m" using min_by_key_Some [of "\<lambda>(k, e). ce_last_accessed e" m x] by simp
  then have "length (AList.delete k m) < length m"
    unfolding AList.delete_eq by (intro length_filter_less) auto
  then show ?case by simp
qed simp

declare evict.simps [simp del]

definition store_entry :: "cache_config \<Rightarrow> instant \<Rightarrow> string \<Rightarrow> completion_response \<Rightarrow> cached_provider \<Rightarrow> cached_provider" where
  "store_entry cfg now key resp c =
     (let live = filter (\<lambda>(k, e). now - ce_created_at e < ttl cfg) (cache c)
      in c\<lparr>cache := AList.update key
             \<lparr>ce_response = resp, ce_created_at = now, ce_last_accessed = now, ce_hit_count = 0\<rparr>
             (evict (max_entries cfg) live)\<rparr>)"

definition cached_complete ::
  "(string \<Rightarrow> string) \<Rightarrow> (chat_message list \<Rightarrow> string option) \<Rightarrow> (string option \<Rightarrow> 'w \<Rightarrow> string) \<Rightarrow> ('w \<Rightarrow> instant)
     \<Rightarrow> cache_config \<Rightarrow> (completion_request \<Rightarrow> ('w, completion_response) llm_call) \<Rightarrow> completion_request
     \<Rightarrow> (cached_provider \<times> 'w, completion_response) llm_call" where
  "cached_complete sha js effective clock cfg inner q cw =
     (let (c, w) = cw;
          key = cache_key sha js (effective (cr_model q) w) q;
          now = clock w;
          c1 = c\<lparr>request_count := request_count c + 1\<rparr>
      in case lookup_entry cfg now key c1 of
           (Some resp, c2) \<Rightarrow> (Ok resp, (c2, w))
         | (None, c2) \<Rightarrow>
             (case inner q w of
                (Err e, w1) \<Rightarrow> (Err e, (c2, w1))
              | (Ok resp, w1) \<Rightarrow> (Ok resp, (store_entry cfg now key resp c2, w1))))"

subsection \<open>The size of the cache\<close>

lemma evict_length: "length (evict mx m) < max 1 mx"
proof (induction mx m rule: evict.induct)
  case (1 mx m)
  show ?case
  proof (cases "length m \<ge> mx \<and> m \<noteq> []")
    case True
    then have "min_by_key (\<lambda>(k, e). ce_last_accessed e) m \<noteq> None" by (simp only: min_by_key_None not_False_eq_True)
    then obtain k e where "min_by_key (\<lambda>(k, e). ce_last_accessed e) m = Some (k, e)" by auto
    with 1 True show ?thesis by (subst evict.simps) simp
  next
    case False
    then show ?thesis by (subst evict.simps) auto
  qed
qed

lemma evict_subset: "set (evict mx m) \<subseteq> set m"
proof (induction mx m rule: evict.induct)
  case (1 mx m)
  show ?case
  proof (cases "min_by_key (\<lambda>(k, e). ce_last_accessed e) m")
    case None
    then show ?thesis by (subst evict.simps) simp
  next
    case (Some p)
    obtain k e where p: "p = (k, e)" by (cases p)
    have "set (evict mx (AList.delete k m)) \<subseteq> set m" if "length m \<ge> mx"
      using 1 [OF that Some p [symmetric]] by (auto simp: AList.delete_eq)
    with Some p show ?thesis by (subst evict.simps) simp
  qed
qed

lemma evict_wf: "hm_wf m \<Longrightarrow> hm_wf (evict mx m)"
proof (induction mx m rule: evict.induct)
  case (1 mx m)
  show ?case
  proof (cases "min_by_key (\<lambda>(k, e). ce_last_accessed e) m")
    case None
    then show ?thesis using 1(2) by (subst evict.simps) simp
  next
    case (Some p)
    obtain k e where p: "p = (k, e)" by (cases p)
    with 1 Some show ?thesis by (subst evict.simps) (simp add: distinct_delete)
  qed
qed

lemma length_filter_wf: "hm_wf m \<Longrightarrow> hm_wf (filter P m)"
  by (simp add: distinct_map_filter)

subsection \<open>Where cached answers come from\<close>

text \<open>The entry of a key was produced by the provider for a request with that key, when it was created.\<close>

definition cache_inv ::
  "(string \<Rightarrow> string) \<Rightarrow> (chat_message list \<Rightarrow> string option) \<Rightarrow> (string option \<Rightarrow> 'w \<Rightarrow> string) \<Rightarrow> ('w \<Rightarrow> instant)
     \<Rightarrow> cache_config \<Rightarrow> (completion_request \<Rightarrow> ('w, completion_response) llm_call) \<Rightarrow> cached_provider \<Rightarrow> bool" where
  "cache_inv sha js effective clock cfg inner c \<longleftrightarrow>
     hm_wf (cache c) \<and> length (cache c) \<le> max 1 (max_entries cfg) \<and>
     (\<forall>(key, e) \<in> set (cache c). \<exists>q w w'. cache_key sha js (effective (cr_model q) w) q = key \<and>
        inner q w = (Ok (ce_response e), w') \<and> ce_created_at e = clock w)"

inductive cache_step ::
  "(string \<Rightarrow> string) \<Rightarrow> (chat_message list \<Rightarrow> string option) \<Rightarrow> (string option \<Rightarrow> 'w \<Rightarrow> string) \<Rightarrow> ('w \<Rightarrow> instant)
     \<Rightarrow> cache_config \<Rightarrow> (completion_request \<Rightarrow> ('w, completion_response) llm_call)
     \<Rightarrow> cached_provider \<times> 'w \<Rightarrow> cached_provider \<times> 'w \<Rightarrow> bool"
  for sha js effective clock cfg inner where
  complete: "cached_complete sha js effective clock cfg inner q cw = (r, cw') \<Longrightarrow>
    cache_step sha js effective clock cfg inner cw cw'"
| clear: "cache_step sha js effective clock cfg inner (c, w) (clear_cache c, w)"
| world: "cache_step sha js effective clock cfg inner (c, w) (c, w')"

lemma cache_inv_shrink:
  assumes "cache_inv sha js effective clock cfg inner c" "set m \<subseteq> set (cache c)" "hm_wf m" "length m \<le> length (cache c)"
  shows "cache_inv sha js effective clock cfg inner (c\<lparr>cache := m\<rparr>)"
proof -
  have "length m \<le> max 1 (max_entries cfg)" using assms(1,4) unfolding cache_inv_def by linarith
  with assms show ?thesis unfolding cache_inv_def by simp blast
qed

lemma cache_inv_update:
  assumes "cache_inv sha js effective clock cfg inner c" "set m \<subseteq> set (cache c)" "hm_wf m"
    and "length (AList.update key e m) \<le> max 1 (max_entries cfg)"
    and "cache_key sha js (effective (cr_model q) w) q = key" "inner q w = (Ok (ce_response e), w')" "ce_created_at e = clock w"
  shows "cache_inv sha js effective clock cfg inner (c\<lparr>cache := AList.update key e m\<rparr>)"
  unfolding cache_inv_def
proof (intro conjI)
  show "\<forall>(key, e) \<in> set (cache (c\<lparr>cache := AList.update key e m\<rparr>)). \<exists>q w w'. cache_key sha js (effective (cr_model q) w) q = key \<and>
        inner q w = (Ok (ce_response e), w') \<and> ce_created_at e = clock w"
    using assms set_update_subset [of key e m] unfolding cache_inv_def by simp blast
qed (use assms in \<open>simp_all add: distinct_update\<close>)

lemma lookup_inv:
  assumes "cache_inv sha js effective clock cfg inner c" "lookup_entry cfg now key c = (r, c')"
  shows "cache_inv sha js effective clock cfg inner c' \<and>
    (\<forall>resp. r = Some resp \<longrightarrow> (\<exists>q w w'. cache_key sha js (effective (cr_model q) w) q = key \<and>
        inner q w = (Ok resp, w') \<and> now - clock w < ttl cfg))"
proof (cases "map_of (cache c) key")
  case None
  with assms show ?thesis by (auto simp: lookup_entry_def)
next
  case (Some e)
  then have mem: "(key, e) \<in> set (cache c)" by (rule map_of_SomeD)
  then obtain q w w' where q: "cache_key sha js (effective (cr_model q) w) q = key"
    "inner q w = (Ok (ce_response e), w')" "ce_created_at e = clock w"
    using assms(1) unfolding cache_inv_def by blast
  show ?thesis
  proof (cases "now - ce_created_at e < ttl cfg")
    case True
    let ?e = "e\<lparr>ce_last_accessed := now, ce_hit_count := ce_hit_count e + 1\<rparr>"
    have "cache_inv sha js effective clock cfg inner (c\<lparr>cache := AList.update key ?e (cache c)\<rparr>)"
      by (rule cache_inv_update [OF assms(1) subset_refl]) (use assms(1) Some q in \<open>simp_all add: cache_inv_def length_update_present\<close>)
    then have "cache_inv sha js effective clock cfg inner c'"
      using True Some assms(2) by (auto simp: lookup_entry_def cache_inv_def)
    with True Some q assms(2) show ?thesis by (auto simp: lookup_entry_def)
  next
    case False
    have "cache_inv sha js effective clock cfg inner (c\<lparr>cache := AList.delete key (cache c)\<rparr>)"
      using assms(1) by (intro cache_inv_shrink [OF assms(1)])
        (simp_all add: cache_inv_def distinct_delete length_delete_le set_delete_subset)
    with False Some assms(2) show ?thesis by (auto simp: lookup_entry_def)
  qed
qed

lemma store_inv:
  assumes "cache_inv sha js effective clock cfg inner c" "inner q w = (Ok resp, w')"
  shows "cache_inv sha js effective clock cfg inner
    (store_entry cfg (clock w) (cache_key sha js (effective (cr_model q) w) q) resp c)"
proof -
  let ?live = "filter (\<lambda>(k, e). clock w - ce_created_at e < ttl cfg) (cache c)"
  let ?m = "evict (max_entries cfg) ?live"
  have wf: "hm_wf ?m" using assms(1) by (intro evict_wf length_filter_wf) (simp add: cache_inv_def)
  have len: "length ?m < max 1 (max_entries cfg)" by (rule evict_length)
  have sub: "set ?m \<subseteq> set (cache c)" using evict_subset [of "max_entries cfg" ?live] by auto
  have "length (AList.update key e ?m) \<le> max 1 (max_entries cfg)" for key e
    using length_update_le [of key e ?m] len by simp
  then show ?thesis
    unfolding store_entry_def Let_def
    by (intro cache_inv_update [OF assms(1) sub wf _ refl]) (use assms(2) in simp_all)
qed

lemma cached_complete_inv:
  assumes "cache_inv sha js effective clock cfg inner c"
    and "cached_complete sha js effective clock cfg inner q (c, w) = (r, (c', w'))"
  shows "cache_inv sha js effective clock cfg inner c' \<and>
    (\<forall>resp. r = Ok resp \<longrightarrow> (\<exists>q0 w0 w1. cache_key sha js (effective (cr_model q0) w0) q0 = cache_key sha js (effective (cr_model q) w) q \<and>
        inner q0 w0 = (Ok resp, w1) \<and> (w0 = w \<or> clock w - clock w0 < ttl cfg)))"
proof -
  let ?key = "cache_key sha js (effective (cr_model q) w) q"
  obtain hit c2 where l: "lookup_entry cfg (clock w) ?key (c\<lparr>request_count := request_count c + 1\<rparr>) = (hit, c2)"
    by (cases "lookup_entry cfg (clock w) ?key (c\<lparr>request_count := request_count c + 1\<rparr>)")
  have "cache_inv sha js effective clock cfg inner (c\<lparr>request_count := request_count c + 1\<rparr>)"
    using assms(1) by (simp add: cache_inv_def)
  note hit = lookup_inv [OF this l]
  show ?thesis
  proof (cases hit)
    case (Some resp)
    with assms(2) l have "r = Ok resp" "c' = c2" by (auto simp: cached_complete_def)
    with hit Some show ?thesis by auto
  next
    case None
    obtain out w1 where out: "inner q w = (out, w1)" by (cases "inner q w")
    show ?thesis
    proof (cases out)
      case (Inl e)
      with assms(2) l None out hit show ?thesis by (auto simp: cached_complete_def)
    next
      case (Inr resp)
      with assms(2) l None out have "r = Ok resp" "c' = store_entry cfg (clock w) ?key resp c2"
        by (auto simp: cached_complete_def)
      with hit store_inv [of sha js effective clock cfg inner c2 q w resp w1] out Inr show ?thesis by blast
    qed
  qed
qed

lemma cache_step_inv:
  "cache_step sha js effective clock cfg inner cw cw' \<Longrightarrow> cache_inv sha js effective clock cfg inner (fst cw) \<Longrightarrow>
   cache_inv sha js effective clock cfg inner (fst cw')"
proof (induction rule: cache_step.induct)
  case (complete q cw r cw')
  then show ?case using cached_complete_inv [of sha js effective clock cfg inner "fst cw" q "snd cw" r "fst cw'" "snd cw'"] by simp
qed (auto simp: clear_cache_def cache_inv_def)

lemma cache_reach_inv:
  assumes "(cache_step sha js effective clock cfg inner)\<^sup>*\<^sup>* (new_cached, w0) (c, w)"
  shows "cache_inv sha js effective clock cfg inner c"
proof -
  have "cache_inv sha js effective clock cfg inner (fst (new_cached, w0))" by (simp add: cache_inv_def new_cached_def)
  with assms have "cache_inv sha js effective clock cfg inner (fst (c, w))"
    by (induction rule: rtranclp_induct) (auto dest: cache_step_inv)
  then show ?thesis by simp
qed

text \<open>
  However the cache is used, it holds at most the configured number of entries, and every
  answer it returns was given by the provider to a request with the same key: either by this
  very call, or by an earlier one less than the time to live ago.
\<close>

theorem cache_sound:
  assumes "(cache_step sha js effective clock cfg inner)\<^sup>*\<^sup>* (new_cached, w0) (c, w)"
    and "cached_complete sha js effective clock cfg inner q (c, w) = (Ok resp, (c', w'))" "0 < max_entries cfg"
  shows "length (cache c') \<le> max_entries cfg \<and>
    (\<exists>q0 w0 w1. cache_key sha js (effective (cr_model q0) w0) q0 = cache_key sha js (effective (cr_model q) w) q \<and>
        inner q0 w0 = (Ok resp, w1) \<and> (w0 = w \<or> clock w - clock w0 < ttl cfg))"
proof -
  note post = cached_complete_inv [OF cache_reach_inv [OF assms(1)] assms(2)]
  then have "length (cache c') \<le> max 1 (max_entries cfg)" by (simp add: cache_inv_def)
  with post assms(3) show ?thesis by auto
qed

definition hello :: completion_response where
  "hello = \<lparr>cresp_content = ''hi'', cresp_input_tokens = 1, cresp_output_tokens = 1, cresp_finish_reason = Stop,
     cresp_cache_read = 0, cresp_cache_creation = 0\<rparr>"

theorem cache_sound_witness:
  "length (cache (fst (snd (cached_complete (\<lambda>s. s) (\<lambda>_. None) (\<lambda>_ _. ''m'') (\<lambda>w. w) default_cache_config
     (\<lambda>_ w. (Ok hello, w)) (new_request []) (new_cached, 5))))) \<le> 1000"
proof -
  let ?r = "cached_complete (\<lambda>s. s) (\<lambda>_. None) (\<lambda>_ _. ''m'') (\<lambda>w. w) default_cache_config
     (\<lambda>_ w. (Ok hello, w)) (new_request []) (new_cached, 5)"
  have "?r = (Ok hello, (fst (snd ?r), snd (snd ?r)))"
    by (simp add: cached_complete_def lookup_entry_def new_cached_def)
  from cache_sound [OF rtranclp.rtrancl_refl this] show ?thesis by (simp add: default_cache_config_def)
qed

subsection \<open>The chain\<close>

text \<open>
  The stages of \<open>build_provider_chain\<close> in the order in which they wrap: retry around each raw
  provider, failover over both when a fallback is configured, circuit breaker, cache. The state of a
  stage that is switched off is carried along unused.
\<close>

record chain_config =
  ch_retry :: retry_config
  ch_failover :: "cooldown_config option"
  ch_breaker :: "breaker_config option"
  ch_cache :: "cache_config option"

definition retry_stage :: "string \<Rightarrow> (duration \<Rightarrow> 'w \<Rightarrow> 'w) \<Rightarrow> (nat \<Rightarrow> u64) \<Rightarrow> chain_config \<Rightarrow> ('w, 'r) llm_call \<Rightarrow> ('w, 'r) llm_call" where
  "retry_stage model sleep offsets cfg raw =
     (if max_retries (ch_retry cfg) > 0 then retry_loop model sleep offsets (ch_retry cfg) raw else raw)"

definition passthrough :: "('w, 'r) llm_call \<Rightarrow> ('s \<times> 'w, 'r) llm_call" where
  "passthrough call sw = (case call (snd sw) of (r, w') \<Rightarrow> (r, (fst sw, w')))"

definition failover_stage :: "('w \<Rightarrow> u64) \<Rightarrow> nat option \<Rightarrow> chain_config \<Rightarrow> (nat \<Rightarrow> ('w, 'r) llm_call) \<Rightarrow> (failover_state \<times> 'w, 'r) llm_call" where
  "failover_stage nanos task cfg calls =
     (case ch_failover cfg of Some fc \<Rightarrow> failover_complete nanos fc task calls | None \<Rightarrow> passthrough (calls 0))"

definition breaker_stage :: "(duration \<Rightarrow> string) \<Rightarrow> string \<Rightarrow> ('v \<Rightarrow> instant) \<Rightarrow> chain_config \<Rightarrow> ('v, 'r) llm_call \<Rightarrow> (breaker_state \<times> 'v, 'r) llm_call" where
  "breaker_stage fmt model clock cfg call =
     (case ch_breaker cfg of Some bc \<Rightarrow> cb_complete fmt model clock bc call | None \<Rightarrow> passthrough call)"

definition cache_stage ::
  "(string \<Rightarrow> string) \<Rightarrow> (chat_message list \<Rightarrow> string option) \<Rightarrow> (string option \<Rightarrow> 'v \<Rightarrow> string) \<Rightarrow> ('v \<Rightarrow> instant) \<Rightarrow> chain_config
     \<Rightarrow> (completion_request \<Rightarrow> ('v, completion_response) llm_call) \<Rightarrow> completion_request \<Rightarrow> (cached_provider \<times> 'v, completion_response) llm_call" where
  "cache_stage sha js effective clock cfg call q =
     (case ch_cache cfg of Some cc \<Rightarrow> cached_complete sha js effective clock cc call q | None \<Rightarrow> passthrough (call q))"

definition uncached_chain ::
  "(duration \<Rightarrow> string) \<Rightarrow> string \<Rightarrow> (duration \<Rightarrow> 'w \<Rightarrow> 'w) \<Rightarrow> (nat \<Rightarrow> u64) \<Rightarrow> ('w \<Rightarrow> instant) \<Rightarrow> nat option \<Rightarrow> chain_config
     \<Rightarrow> (nat \<Rightarrow> completion_request \<Rightarrow> ('w, completion_response) llm_call) \<Rightarrow> completion_request
     \<Rightarrow> (breaker_state \<times> failover_state \<times> 'w, completion_response) llm_call" where
  "uncached_chain fmt model sleep offsets clock task cfg raw q =
     breaker_stage fmt model (clock \<circ> snd) cfg
       (failover_stage (of_nat \<circ> clock) task cfg (\<lambda>i. retry_stage model sleep offsets cfg (raw i q)))"

definition provider_chain ::
  "(string \<Rightarrow> string) \<Rightarrow> (chat_message list \<Rightarrow> string option) \<Rightarrow> (string option \<Rightarrow> breaker_state \<times> failover_state \<times> 'w \<Rightarrow> string)
     \<Rightarrow> (duration \<Rightarrow> string) \<Rightarrow> string \<Rightarrow> (duration \<Rightarrow> 'w \<Rightarrow> 'w) \<Rightarrow> (nat \<Rightarrow> u64) \<Rightarrow> ('w \<Rightarrow> instant) \<Rightarrow> nat option \<Rightarrow> chain_config
     \<Rightarrow> (nat \<Rightarrow> completion_request \<Rightarrow> ('w, completion_response) llm_call) \<Rightarrow> completion_request
     \<Rightarrow> (cached_provider \<times> breaker_state \<times> failover_state \<times> 'w, completion_response) llm_call" where
  "provider_chain sha js effective fmt model sleep offsets clock task cfg raw =
     cache_stage sha js effective (clock \<circ> snd \<circ> snd) cfg (uncached_chain fmt model sleep offsets clock task cfg raw)"

lemma serves_passthrough: "serves (passthrough call) r \<Longrightarrow> serves call r"
  by (auto simp: serves_def passthrough_def case_prod_unfold prod_eq_iff)

lemma serves_retry_stage: "serves (retry_stage model sleep offsets cfg raw) r \<Longrightarrow> serves raw r"
  using rt.serves_inner [of model sleep offsets "ch_retry cfg" "\<lambda>_. raw" r] by (simp add: retry_stage_def split: if_splits)

lemma serves_failover_stage: "serves (failover_stage nanos task cfg calls) r \<Longrightarrow> \<exists>i. serves (calls i) r"
  using fo.serves_inner [of nanos _ task calls r] serves_passthrough [of "calls 0" r]
  by (auto simp: failover_stage_def split: option.splits)

lemma serves_breaker_stage: "serves (breaker_stage fmt model clock cfg call) r \<Longrightarrow> serves call r"
  using cb.serves_inner [of fmt model clock _ "\<lambda>_. call" r] serves_passthrough [of call r]
  by (auto simp: breaker_stage_def split: option.splits)

lemma serves_uncached_chain:
  "serves (uncached_chain fmt model sleep offsets clock task cfg raw q) r \<Longrightarrow> \<exists>i. serves (raw i q) r"
  unfolding uncached_chain_def
  by (drule serves_breaker_stage, drule serves_failover_stage) (blast dest: serves_retry_stage)


definition full_chain :: chain_config where
  "full_chain = \<lparr>ch_retry = default_retry_config, ch_failover = Some default_cooldown_config,
     ch_breaker = Some default_breaker_config, ch_cache = Some default_cache_config\<rparr>"

definition flaky_primary :: "nat \<Rightarrow> completion_request \<Rightarrow> (unit, completion_response) llm_call" where
  "flaky_primary i q w = (if i = 0 then Err (Http ''x'') else Ok hello, w)"


end
