(* ===== verification/Endpoint_Allowlist.thy ===== *)
theory Endpoint_Allowlist
  imports Claw_Prelude
begin

text \<open>
  Which hosts and endpoints a tool may reach: the endpoint patterns of \<open>src/tools/wasm/capabilities.rs\<close> and the
  allowlist validator of \<open>src/tools/wasm/allowlist.rs\<close>. The URL parser (\<open>url::Url\<close>), Unicode case
  mapping and percent decoding (\<open>urlencoding\<close>) are parameters. The locale \<open>host_matcher\<close> states what
  every host pattern of the program promises, in terms of the labels of a domain name; it is
  interpreted on each matcher. Lemmas: an allowed request has an allowed scheme, host, path and
  method; the path that is compared is canonical, so that no segment can climb out of a prefix.
\<close>

subsection \<open>Domain labels\<close>

abbreviation labels :: "string \<Rightarrow> string list" where "labels h \<equiv> split_on (\<lambda>c. c = CHR ''.'') h"

text \<open>The host of a pattern without its wildcard.\<close>

definition pattern_base :: "string \<Rightarrow> string" where
  "pattern_base p = (case strip_prefix ''*.'' p of Some b \<Rightarrow> b | None \<Rightarrow> p)"

lemma split_on_append: "P c \<Longrightarrow> split_on P (xs @ c # ys) = split_on P xs @ split_on P ys"
proof (induction xs)
  case (Cons x xs)
  then show ?case by (cases "split_on P xs") auto
qed simp

locale host_matcher =
  fixes host_match :: "'p \<Rightarrow> string \<Rightarrow> bool" and base :: "'p \<Rightarrow> string"
  assumes below: "host_match p h \<Longrightarrow> h = base p \<or> ends_with h (CHR ''.'' # base p)"
begin

text \<open>A match is the base domain itself or has its labels behind further ones.\<close>

lemma match_labels: "host_match p h \<Longrightarrow> \<exists>sub. labels h = sub @ labels (base p)"
proof -
  assume "host_match p h"
  from below [OF this] consider "h = base p" | t where "h = t @ CHR ''.'' # base p"
    by (auto simp: ends_with_iff)
  then show ?thesis
  proof cases
    case 1
    then show ?thesis by (intro exI [of _ "[]"]) simp
  next
    case 2
    then show ?thesis by (auto simp: split_on_append)
  qed
qed

lemma match_top_label: "host_match p h \<Longrightarrow> base p \<noteq> [] \<Longrightarrow> last (labels h) = last (labels (base p))"
  using match_labels [of p h] by auto

end

subsection \<open>Endpoint patterns\<close>

record endpoint_pattern =
  ep_host :: string
  ep_path_prefix :: "string option"
  ep_methods :: "string list"

definition host_only :: "string \<Rightarrow> endpoint_pattern" where
  "host_only h = \<lparr>ep_host = h, ep_path_prefix = None, ep_methods = []\<rparr>"

definition with_path_prefix :: "string \<Rightarrow> endpoint_pattern \<Rightarrow> endpoint_pattern" where
  "with_path_prefix pre p = p\<lparr>ep_path_prefix := Some pre\<rparr>"

definition with_methods :: "string list \<Rightarrow> endpoint_pattern \<Rightarrow> endpoint_pattern" where
  "with_methods ms p = p\<lparr>ep_methods := ms\<rparr>"

definition host_matches :: "endpoint_pattern \<Rightarrow> string \<Rightarrow> bool" where
  "host_matches p url_host =
     (if ep_host p = url_host then True
      else case strip_prefix ''*.'' (ep_host p) of
             Some suffix \<Rightarrow>
               ends_with url_host suffix \<and> length url_host > length suffix \<and>
               (let prefix = take (length url_host - length suffix) url_host
                in ends_with prefix ''.'' \<or> prefix = [])
           | None \<Rightarrow> False)"

definition path_ok :: "endpoint_pattern \<Rightarrow> string \<Rightarrow> bool" where
  "path_ok p url_path = (case ep_path_prefix p of Some pre \<Rightarrow> starts_with url_path pre | None \<Rightarrow> True)"

definition method_ok :: "(string \<Rightarrow> string) \<Rightarrow> endpoint_pattern \<Rightarrow> string \<Rightarrow> bool" where
  "method_ok upper p m \<longleftrightarrow> ep_methods p = [] \<or> (\<exists>x \<in> set (ep_methods p). upper x = upper m)"

definition ep_matches :: "(string \<Rightarrow> string) \<Rightarrow> endpoint_pattern \<Rightarrow> string \<Rightarrow> string \<Rightarrow> string \<Rightarrow> bool" where
  "ep_matches upper p url_host url_path m =
     (if \<not> host_matches p url_host then False
      else if \<not> path_ok p url_path then False
      else if \<not> method_ok upper p m then False else True)"

text \<open>The shape shared by the wildcard matchers of the program.\<close>

definition wildcard_match :: "string \<Rightarrow> string \<Rightarrow> bool" where
  "wildcard_match p h =
     (if p = h then True
      else case strip_prefix ''*.'' p of
             Some suffix \<Rightarrow>
               ends_with h suffix \<and> length h > length suffix \<and>
               (let prefix = take (length h - length suffix) h in ends_with prefix ''.'' \<or> prefix = [])
           | None \<Rightarrow> False)"

lemma wildcard_match_below:
  assumes "wildcard_match p h" "h \<noteq> p"
  shows "ends_with h (CHR ''.'' # pattern_base p)"
proof -
  obtain suf where suf: "p = ''*.'' @ suf" "ends_with h suf" "length suf < length h"
    and pre: "ends_with (take (length h - length suf) h) ''.'' \<or> take (length h - length suf) h = []"
    using assms unfolding wildcard_match_def Let_def by (auto split: option.splits)
  then obtain t where t: "h = t @ suf" by (auto simp: ends_with_iff)
  with suf(3) pre obtain t' where "t = t' @ ''.''" by (auto simp: ends_with_iff)
  with t suf(1) show ?thesis by (auto simp: ends_with_iff pattern_base_def strip_prefix_def starts_with_def)
qed

lemma host_matches_wildcard: "host_matches p h = wildcard_match (ep_host p) h"
  by (simp add: host_matches_def wildcard_match_def)

text \<open>
  The hosts a pattern can stand for: \<open>h\<close> itself when it is spelled out (even with a star in it), or
  a name below the base.
\<close>

interpretation ep: host_matcher "\<lambda>p h. host_matches p h \<and> h \<noteq> ep_host p" "\<lambda>p. pattern_base (ep_host p)"
  by unfold_locales (auto simp: host_matches_wildcard dest: wildcard_match_below)

subsection \<open>Normalising a path\<close>

definition is_hex :: "char \<Rightarrow> bool" where
  "is_hex c \<longleftrightarrow> (let n = (of_char c :: nat) in
     48 \<le> n \<and> n \<le> 57 \<or> 65 \<le> n \<and> n \<le> 70 \<or> 97 \<le> n \<and> n \<le> 102)"

fun has_valid_percent_encoding :: "string \<Rightarrow> bool" where
  "has_valid_percent_encoding [] = True"
| "has_valid_percent_encoding (c # cs) =
     (if c = CHR ''%'' then
        (case cs of
           a # b # rest \<Rightarrow> is_hex a \<and> is_hex b \<and> has_valid_percent_encoding rest
         | _ \<Rightarrow> False)
      else has_valid_percent_encoding cs)"

fun push_segments :: "(string \<Rightarrow> string option) \<Rightarrow> string list \<Rightarrow> string list \<Rightarrow> (string, string list) result" where
  "push_segments dec [] segs = Ok segs"
| "push_segments dec (raw # raws) segs =
     (if \<not> has_valid_percent_encoding raw then Err (''Invalid percent-encoding in path segment: '' @ raw)
      else case dec raw of
        None \<Rightarrow> Err (''Invalid percent-encoding in path segment: '' @ raw)
      | Some seg \<Rightarrow>
          if CHR ''/'' \<in> set seg \<or> CHR 0x5C \<in> set seg then Err ''Path segment contains encoded path separator''
          else if seg = [] \<or> seg = ''.'' then push_segments dec raws segs
          else if seg = ''..'' then push_segments dec raws (butlast segs)
          else push_segments dec raws (segs @ [seg]))"

definition normalize_path :: "(string \<Rightarrow> string option) \<Rightarrow> string \<Rightarrow> (string, string) result" where
  "normalize_path dec path =
     (case push_segments dec (split_on (\<lambda>c. c = CHR ''/'') path) [] of
        Err e \<Rightarrow> Err e
      | Ok segs \<Rightarrow>
          let res = ''/'' @ join_str ''/'' segs
          in Ok (if length path > 1 \<and> ends_with path ''/'' \<and> \<not> ends_with res ''/'' then res @ ''/'' else res))"

subsection \<open>Validation\<close>

text \<open>What the URL parser returns.\<close>

record url_parts =
  up_scheme :: string
  up_username :: string
  up_password :: "string option"
  up_host :: "string option"
  up_path :: string

record parsed_url =
  pu_scheme :: string
  pu_host :: string
  pu_path :: string

definition strip_brackets :: "string \<Rightarrow> string" where
  "strip_brackets h =
     (case Option.bind (strip_prefix ''['' h) (strip_suffix '']'') of Some v \<Rightarrow> v | None \<Rightarrow> h)"

definition parse_url ::
  "(string \<Rightarrow> (string, url_parts) result) \<Rightarrow> (string \<Rightarrow> string) \<Rightarrow> (string \<Rightarrow> string option) \<Rightarrow> string
     \<Rightarrow> (string, parsed_url) result" where
  "parse_url url_parse lower dec url =
     (case url_parse url of
        Err e \<Rightarrow> Err (''URL parse failed: '' @ e)
      | Ok u \<Rightarrow>
          let scheme = lower (up_scheme u) in
          if scheme \<noteq> ''http'' \<and> scheme \<noteq> ''https'' then Err (''Unsupported scheme: '' @ scheme)
          else if up_username u \<noteq> [] \<or> up_password u \<noteq> None
          then Err ''URL contains userinfo (@) which is not allowed''
          else (case up_host u of
              None \<Rightarrow> Err ''Empty host''
            | Some h \<Rightarrow>
                (case normalize_path dec (up_path u) of
                   Err e \<Rightarrow> Err e
                 | Ok path \<Rightarrow> Ok \<lparr>pu_scheme = scheme, pu_host = lower (strip_brackets h), pu_path = path\<rparr>)))"

datatype DenyReason =
    InvalidUrl string
  | HostNotAllowed string
  | PathNotAllowed string string
  | MethodNotAllowed string string
  | EmptyAllowlist
  | InsecureScheme string

datatype AllowlistResult = Allowed | Denied DenyReason

record allowlist_validator =
  av_patterns :: "endpoint_pattern list"
  require_https :: bool

definition new_validator :: "endpoint_pattern list \<Rightarrow> allowlist_validator" where
  "new_validator ps = \<lparr>av_patterns = ps, require_https = True\<rparr>"

definition allow_http :: "allowlist_validator \<Rightarrow> allowlist_validator" where
  "allow_http v = v\<lparr>require_https := False\<rparr>"

definition validate ::
  "(string \<Rightarrow> (string, url_parts) result) \<Rightarrow> (string \<Rightarrow> string) \<Rightarrow> (string \<Rightarrow> string) \<Rightarrow> (string \<Rightarrow> string option)
     \<Rightarrow> allowlist_validator \<Rightarrow> string \<Rightarrow> string \<Rightarrow> AllowlistResult" where
  "validate url_parse lower upper dec v url m =
     (if av_patterns v = [] then Denied EmptyAllowlist
      else case parse_url url_parse lower dec url of
        Err e \<Rightarrow> Denied (InvalidUrl e)
      | Ok parsed \<Rightarrow>
          if require_https v \<and> pu_scheme parsed \<noteq> ''https'' then Denied (InsecureScheme (pu_scheme parsed))
          else if \<exists>p \<in> set (av_patterns v). ep_matches upper p (pu_host parsed) (pu_path parsed) m then Allowed
          else let host_ms = filter (\<lambda>p. host_matches p (pu_host parsed)) (av_patterns v) in
            if host_ms = [] then Denied (HostNotAllowed (pu_host parsed))
            else let path_ms = filter (\<lambda>p. path_ok p (pu_path parsed)) host_ms in
              if path_ms = [] then Denied (PathNotAllowed (pu_host parsed) (pu_path parsed))
              else Denied (MethodNotAllowed m (pu_host parsed)))"

definition host_allowed :: "allowlist_validator \<Rightarrow> string \<Rightarrow> bool" where
  "host_allowed v h \<longleftrightarrow> (\<exists>p \<in> set (av_patterns v). host_matches p h)"

subsection \<open>The path that is compared\<close>

definition plain_segment :: "string \<Rightarrow> bool" where
  "plain_segment s \<longleftrightarrow> s \<noteq> [] \<and> s \<noteq> ''.'' \<and> s \<noteq> ''..'' \<and> CHR ''/'' \<notin> set s \<and> CHR 0x5C \<notin> set s"

lemma push_segments_step:
  assumes "push_segments dec (raw # raws) segs = Ok out"
  shows "\<exists>segs'. push_segments dec raws segs' = Ok out \<and> (\<forall>s \<in> set segs'. s \<in> set segs \<or> plain_segment s)"
proof -
  obtain seg where seg: "dec raw = Some seg" "\<not> (CHR ''/'' \<in> set seg \<or> CHR 0x5C \<in> set seg)"
    using assms by (cases "dec raw") (simp_all split: if_splits)
  with assms consider (skip) "seg = [] \<or> seg = ''.''" "push_segments dec raws segs = Ok out"
    | (up) "push_segments dec raws (butlast segs) = Ok out"
    | (push) "seg \<noteq> []" "seg \<noteq> ''.''" "seg \<noteq> ''..''" "push_segments dec raws (segs @ [seg]) = Ok out"
    by (simp split: if_splits)
  then show ?thesis
  proof cases
    case push
    then have "plain_segment seg" using seg(2) by (simp add: plain_segment_def)
    with push(4) show ?thesis by (intro exI [of _ "segs @ [seg]"]) simp
  qed (blast dest: in_set_butlastD)+
qed

lemma push_segments_plain:
  "push_segments dec raws segs = Ok out \<Longrightarrow> \<forall>s \<in> set segs. plain_segment s \<Longrightarrow> \<forall>s \<in> set out. plain_segment s"
proof (induction raws arbitrary: segs)
  case (Cons raw raws)
  from push_segments_step [OF Cons.prems(1)] Cons.prems(2) Cons.IH show ?case by blast
qed simp

lemma split_plain: "CHR ''/'' \<notin> set s \<Longrightarrow> split_on (\<lambda>c. c = CHR ''/'') s = [s]"
  by (induction s) auto

lemma split_join:
  "segs \<noteq> [] \<Longrightarrow> \<forall>s \<in> set segs. CHR ''/'' \<notin> set s \<Longrightarrow> split_on (\<lambda>c. c = CHR ''/'') (join_str ''/'' segs) = segs"
proof (induction segs)
  case (Cons x xs)
  then show ?case by (cases xs) (simp_all add: split_on_append split_plain)
qed simp

text \<open>A canonical path: a slash, plain segments, and possibly a closing slash.\<close>

definition canonical_path :: "string \<Rightarrow> bool" where
  "canonical_path path \<longleftrightarrow>
     (\<exists>segs. (\<forall>s \<in> set segs. plain_segment s) \<and>
        (path = ''/'' @ join_str ''/'' segs \<or> segs \<noteq> [] \<and> path = ''/'' @ join_str ''/'' segs @ ''/''))"

lemma normalize_canonical:
  assumes "normalize_path dec path = Ok out"
  shows "canonical_path out"
proof -
  obtain segs where segs: "push_segments dec (split_on (\<lambda>c. c = CHR ''/'') path) [] = Ok segs"
    using assms by (auto simp: normalize_path_def split: sum.splits)
  have "\<forall>s \<in> set segs. plain_segment s" by (rule push_segments_plain [OF segs]) simp
  moreover have "segs = [] \<Longrightarrow> out = ''/''" using assms segs by (simp add: normalize_path_def ends_with_def)
  ultimately show ?thesis
    using assms segs unfolding canonical_path_def
    by (cases "segs = []") (auto simp: normalize_path_def Let_def intro!: exI [of _ segs] split: if_splits)
qed

lemma canonical_segments:
  assumes "canonical_path path" "s \<in> set (split_on (\<lambda>c. c = CHR ''/'') path)"
  shows "s \<noteq> ''.'' \<and> s \<noteq> ''..''"
proof -
  obtain segs where segs: "\<forall>s \<in> set segs. plain_segment s"
    "path = ''/'' @ join_str ''/'' segs \<or> segs \<noteq> [] \<and> path = ''/'' @ join_str ''/'' segs @ ''/''"
    using assms(1) unfolding canonical_path_def by blast
  then have split: "segs \<noteq> [] \<Longrightarrow> split_on (\<lambda>c. c = CHR ''/'') (join_str ''/'' segs) = segs"
    by (intro split_join) (auto simp: plain_segment_def)
  show ?thesis
  proof (cases "segs = []")
    case True
    with segs(2) assms(2) show ?thesis by auto
  next
    case False
    with segs(2) split have "set (split_on (\<lambda>c. c = CHR ''/'') path) \<subseteq> insert [] (set segs)"
      by (auto simp: split_on_append)
    with segs(1) assms(2) show ?thesis by (auto simp: plain_segment_def)
  qed
qed

lemma parse_url_Ok:
  assumes "parse_url url_parse lower dec url = Ok parsed"
  obtains u h where "url_parse url = Ok u" "up_username u = []" "up_password u = None" "up_host u = Some h"
    "pu_scheme parsed = lower (up_scheme u)" "lower (up_scheme u) = ''http'' \<or> lower (up_scheme u) = ''https''"
    "pu_host parsed = lower (strip_brackets h)" "normalize_path dec (up_path u) = Ok (pu_path parsed)"
  using assms by (auto simp: parse_url_def Let_def split: sum.splits if_splits option.splits)

lemma ep_matches_iff: "ep_matches upper p h path m \<longleftrightarrow> host_matches p h \<and> path_ok p path \<and> method_ok upper p m"
  by (simp add: ep_matches_def)

lemma validate_iff:
  "validate url_parse lower upper dec v url m = Allowed \<longleftrightarrow>
     (\<exists>parsed. parse_url url_parse lower dec url = Ok parsed \<and> (require_https v \<longrightarrow> pu_scheme parsed = ''https'') \<and>
        (\<exists>p \<in> set (av_patterns v). host_matches p (pu_host parsed) \<and> path_ok p (pu_path parsed) \<and> method_ok upper p m))"
proof (cases "parse_url url_parse lower dec url")
  case (Inr parsed)
  then show ?thesis by (auto simp: validate_def ep_matches_iff Let_def split: if_splits)
qed (simp add: validate_def)

text \<open>
  C4: A request is allowed only if its URL parses without user information, its scheme is https
  (or http where that is permitted), and one pattern of the list fits it as a whole: the host is
  the one named or has the pattern's domain as its last labels, so no look-alike host passes; the
  normalised path starts with the pattern's prefix and contains no \<open>.\<close> or \<open>..\<close> segment with which it
  could leave it; and the method is one of those listed.
\<close>

theorem validate_allowed:
  assumes "validate url_parse lower upper dec v url m = Allowed"
  shows "\<exists>u h path. \<exists>p \<in> set (av_patterns v). url_parse url = Ok u \<and> up_username u = [] \<and> up_password u = None \<and>
    (lower (up_scheme u) = ''https'' \<or> \<not> require_https v \<and> lower (up_scheme u) = ''http'') \<and>
    up_host u = Some h \<and> normalize_path dec (up_path u) = Ok path \<and>
    (lower (strip_brackets h) = ep_host p \<or>
       (\<exists>sub. labels (lower (strip_brackets h)) = sub @ labels (pattern_base (ep_host p)))) \<and>
    (\<forall>pre. ep_path_prefix p = Some pre \<longrightarrow> (\<exists>rest. path = pre @ rest)) \<and>
    (\<forall>s \<in> set (split_on (\<lambda>c. c = CHR ''/'') path). s \<noteq> ''.'' \<and> s \<noteq> ''..'') \<and>
    (ep_methods p = [] \<or> (\<exists>x \<in> set (ep_methods p). upper x = upper m))"
proof -
  obtain parsed p where parsed: "parse_url url_parse lower dec url = Ok parsed" "require_https v \<longrightarrow> pu_scheme parsed = ''https''"
    and p: "p \<in> set (av_patterns v)" "host_matches p (pu_host parsed)" "path_ok p (pu_path parsed)" "method_ok upper p m"
    using assms validate_iff [THEN iffD1] by blast
  from parsed(1) obtain u h where u: "url_parse url = Ok u" "up_username u = []" "up_password u = None" "up_host u = Some h"
    "pu_scheme parsed = lower (up_scheme u)" "lower (up_scheme u) = ''http'' \<or> lower (up_scheme u) = ''https''"
    "pu_host parsed = lower (strip_brackets h)" "normalize_path dec (up_path u) = Ok (pu_path parsed)"
    by (rule parse_url_Ok)
  have "pu_host parsed = ep_host p \<or> (\<exists>sub. labels (pu_host parsed) = sub @ labels (pattern_base (ep_host p)))"
    using ep.match_labels [of p "pu_host parsed"] p(2) by blast
  moreover have "\<forall>pre. ep_path_prefix p = Some pre \<longrightarrow> (\<exists>rest. pu_path parsed = pre @ rest)"
    using p(3) by (auto simp: path_ok_def starts_with_iff)
  moreover have "\<forall>s \<in> set (split_on (\<lambda>c. c = CHR ''/'') (pu_path parsed)). s \<noteq> ''.'' \<and> s \<noteq> ''..''"
    using canonical_segments [OF normalize_canonical [OF u(8)]] by blast
  ultimately show ?thesis
    using u p(1,4) parsed(2) unfolding method_ok_def by (intro exI bexI [of _ p] conjI) auto
qed

definition demo_url :: url_parts where
  "demo_url = \<lparr>up_scheme = ''https'', up_username = [], up_password = None, up_host = Some ''api.x.com'', up_path = ''/v1/a''\<rparr>"

theorem validate_allowed_witness:
  "\<exists>u h path. \<exists>p \<in> {with_path_prefix ''/v1/'' (host_only ''*.x.com'')}. Ok demo_url = (Ok u :: (string, url_parts) result) \<and>
     up_host u = Some h \<and> normalize_path Some (up_path u) = Ok path \<and> (\<exists>rest. path = ''/v1/'' @ rest)"
proof -
  let ?v = "new_validator [with_path_prefix ''/v1/'' (host_only ''*.x.com'')]"
  have "validate (\<lambda>_. Ok demo_url) id id Some ?v ''u'' ''GET'' = Allowed" by code_simp
  from validate_allowed [OF this] show ?thesis
    by (auto simp: new_validator_def with_path_prefix_def host_only_def)
qed

end

