(* ===== verification/Rate_Limiter.thy ===== *)
theory Rate_Limiter
  imports Claw_Prelude
begin

text \<open>
  The per-user, per-tool rate limiter of \<open>src/tools/rate_limiter.rs\<close> with its configuration from
  \<open>src/tools/tool.rs\<close>. One call reads the clock several times under the lock; \<open>clk i\<close> is reading
  number \<open>i\<close> of the call. Counters are 32-bit words. Lemmas: an abstract account of a counter that
  restarts with its window, which both windows of the limiter refine, and from it the bound on
  the invocations that get through in any minute and any hour.
\<close>

definition MINUTE_SECS :: nat where "MINUTE_SECS = 60"
definition HOUR_SECS :: nat where "HOUR_SECS = 3600"

datatype LimitType = PerMinute | PerHour

datatype RateLimitResult = RateAllowed u32 u32 | RateLimited_after duration LimitType

record rate_limit_config =
  requests_per_minute :: u32
  requests_per_hour :: u32

definition default_rate_limit :: rate_limit_config where
  "default_rate_limit = \<lparr>requests_per_minute = 60, requests_per_hour = 1000\<rparr>"

record window_state =
  window_start :: instant
  win_count :: u32

definition new_window :: "instant \<Rightarrow> window_state" where
  "new_window now = \<lparr>window_start = now, win_count = 0\<rparr>"

definition maybe_reset :: "instant \<Rightarrow> instant \<Rightarrow> duration \<Rightarrow> window_state \<Rightarrow> window_state" where
  "maybe_reset now1 now2 d w =
     (if now1 - window_start w \<ge> d then \<lparr>window_start = now2, win_count = 0\<rparr> else w)"

definition time_until_reset :: "instant \<Rightarrow> duration \<Rightarrow> window_state \<Rightarrow> duration" where
  "time_until_reset now d w =
     (let elapsed = now - window_start w in if elapsed \<ge> d then 0 else d - elapsed)"

record tool_rate_state =
  minute_window :: window_state
  hour_window :: window_state

definition new_tool_rate_state :: "instant \<Rightarrow> instant \<Rightarrow> tool_rate_state" where
  "new_tool_rate_state now1 now2 = \<lparr>minute_window = new_window now1, hour_window = new_window now2\<rparr>"

type_synonym rate_key = "string \<times> string"
type_synonym rate_limiter = "(rate_key, tool_rate_state) hmap"

text \<open>The decision on one entry; \<open>record\<close> tells whether an allowed request is counted.\<close>

definition check_entry ::
  "(nat \<Rightarrow> instant) \<Rightarrow> rate_limit_config \<Rightarrow> bool \<Rightarrow> tool_rate_state \<Rightarrow> RateLimitResult \<times> tool_rate_state" where
  "check_entry clk cfg rec s =
     (let mw = maybe_reset (clk 2) (clk 3) (secs MINUTE_SECS) (minute_window s);
          hw = maybe_reset (clk 4) (clk 5) (secs HOUR_SECS) (hour_window s)
      in if win_count mw \<ge> requests_per_minute cfg
         then (RateLimited_after (time_until_reset (clk 6) (secs MINUTE_SECS) mw) PerMinute,
               \<lparr>minute_window = mw, hour_window = hw\<rparr>)
         else if win_count hw \<ge> requests_per_hour cfg
         then (RateLimited_after (time_until_reset (clk 6) (secs HOUR_SECS) hw) PerHour,
               \<lparr>minute_window = mw, hour_window = hw\<rparr>)
         else let mw' = (if rec then mw\<lparr>win_count := win_count mw + 1\<rparr> else mw);
                  hw' = (if rec then hw\<lparr>win_count := win_count hw + 1\<rparr> else hw)
              in (RateAllowed (requests_per_minute cfg - win_count mw') (requests_per_hour cfg - win_count hw'),
                  \<lparr>minute_window = mw', hour_window = hw'\<rparr>))"

definition check_internal ::
  "(nat \<Rightarrow> instant) \<Rightarrow> rate_key \<Rightarrow> rate_limit_config \<Rightarrow> bool \<Rightarrow> rate_limiter \<Rightarrow> RateLimitResult \<times> rate_limiter" where
  "check_internal clk key cfg rec lim =
     (let s = (case map_of lim key of Some s \<Rightarrow> s | None \<Rightarrow> new_tool_rate_state (clk 0) (clk 1));
          (res, s') = check_entry clk cfg rec s
      in (res, AList.update key s' lim))"

definition check_and_record :: "(nat \<Rightarrow> instant) \<Rightarrow> rate_key \<Rightarrow> rate_limit_config \<Rightarrow> rate_limiter \<Rightarrow> RateLimitResult \<times> rate_limiter" where
  "check_and_record clk key cfg = check_internal clk key cfg True"

definition check_rate :: "(nat \<Rightarrow> instant) \<Rightarrow> rate_key \<Rightarrow> rate_limit_config \<Rightarrow> rate_limiter \<Rightarrow> RateLimitResult \<times> rate_limiter" where
  "check_rate clk key cfg = check_internal clk key cfg False"

definition get_usage :: "rate_key \<Rightarrow> rate_limiter \<Rightarrow> (u32 \<times> u32) option" where
  "get_usage key lim = map_option (\<lambda>s. (win_count (minute_window s), win_count (hour_window s))) (map_of lim key)"

definition clear_rate :: "rate_key \<Rightarrow> rate_limiter \<Rightarrow> rate_limiter" where
  "clear_rate key lim = AList.delete key lim"

definition clear_all_rates :: "rate_limiter \<Rightarrow> rate_limiter" where
  "clear_all_rates lim = []"

definition is_allowed :: "RateLimitResult \<Rightarrow> bool" where
  "is_allowed r = (case r of RateAllowed _ _ \<Rightarrow> True | _ \<Rightarrow> False)"

subsection \<open>A counter that restarts with its window\<close>

text \<open>The times of the granted requests in a span of length \<open>d\<close>.\<close>

definition in_span :: "duration \<Rightarrow> instant \<Rightarrow> instant list \<Rightarrow> nat" where
  "in_span d a ts = length (filter (\<lambda>t. a \<le> t \<and> t < a + d) ts)"

text \<open>
  \<open>old\<close> and \<open>cur\<close> are the grants before and since the start \<open>s\<close> of the window: those of the window are
  counted and within the limit \<open>l\<close>, those of the length \<open>d\<close> before it are within the limit, and
  no span has seen more than twice the limit.
\<close>

definition window_inv :: "duration \<Rightarrow> nat \<Rightarrow> instant \<Rightarrow> nat \<Rightarrow> instant list \<Rightarrow> instant list \<Rightarrow> bool" where
  "window_inv d l s c old cur \<longleftrightarrow>
     length cur = c \<and> c \<le> l \<and> (\<forall>t \<in> set cur. s \<le> t) \<and> (\<forall>t \<in> set old. t \<le> s) \<and>
     length (filter (\<lambda>t. s < t + d) old) \<le> l \<and> (\<forall>a. in_span d a old \<le> 2 * l)"

lemma in_span_append: "in_span d a (xs @ ys) = in_span d a xs + in_span d a ys"
  by (simp add: in_span_def)

lemma in_span_le: "in_span d a xs \<le> length xs"
  by (simp add: in_span_def)

lemma length_filter_mono: "(\<And>x. P x \<Longrightarrow> Q x) \<Longrightarrow> length (filter P xs) \<le> length (filter Q xs)"
  by (induction xs) (auto simp: le_SucI)

lemma window_inv_span:
  assumes "window_inv d l s c old cur"
  shows "in_span d a (old @ cur) \<le> 2 * l"
proof -
  have cur: "in_span d a cur \<le> l" using assms in_span_le [of d a cur] by (auto simp: window_inv_def)
  consider "a + d \<le> s" | "s < a + d" by linarith
  then show ?thesis
  proof cases
    case 1
    then have "in_span d a cur = 0" using assms by (auto simp: in_span_def window_inv_def filter_empty_conv)
    then show ?thesis using assms by (simp add: in_span_append window_inv_def)
  next
    case 2
    have "in_span d a old \<le> length (filter (\<lambda>t. s < t + d) old)"
      unfolding in_span_def using 2 by (intro length_filter_mono) auto
    with assms cur show ?thesis by (simp add: in_span_append window_inv_def)
  qed
qed

lemma window_inv_restart:
  assumes "window_inv d l s c old cur" "s + d \<le> s'" "\<forall>t \<in> set cur. t \<le> s'"
  shows "window_inv d l s' 0 (old @ cur) []"
proof -
  have "filter (\<lambda>t. s' < t + d) old = []"
    using assms(1,2) by (fastforce simp: window_inv_def filter_empty_conv)
  moreover have "length (filter (\<lambda>t. s' < t + d) cur) \<le> l"
    using assms(1) length_filter_le [of "\<lambda>t. s' < t + d" cur] unfolding window_inv_def by linarith
  moreover have "t \<le> s'" if "t \<in> set old" for t
    using assms(1,2) that unfolding window_inv_def by (meson add_leD1 order_trans)
  ultimately show ?thesis
    using window_inv_span [OF assms(1)] assms(3) by (auto simp: window_inv_def)
qed

lemma window_inv_grant:
  "window_inv d l s c old cur \<Longrightarrow> c < l \<Longrightarrow> s \<le> t \<Longrightarrow> window_inv d l s (Suc c) old (cur @ [t])"
  by (auto simp: window_inv_def)

subsection \<open>The limiter refines it\<close>

text \<open>The window \<open>w\<close> accounts for the grants \<open>g\<close>, all of them before \<open>now\<close>.\<close>

definition accounts :: "duration \<Rightarrow> nat \<Rightarrow> instant \<Rightarrow> instant list \<Rightarrow> window_state \<Rightarrow> bool" where
  "accounts d l now g w \<longleftrightarrow> window_start w \<le> now \<and> (\<forall>t \<in> set g. t \<le> now) \<and>
     (\<exists>old cur. g = old @ cur \<and> window_inv d l (window_start w) (unat (win_count w)) old cur)"

lemma accountsI:
  "window_start w \<le> now \<Longrightarrow> \<forall>t \<in> set (old @ cur). t \<le> now \<Longrightarrow>
   window_inv d l (window_start w) (unat (win_count w)) old cur \<Longrightarrow> accounts d l now (old @ cur) w"
  unfolding accounts_def by blast

lemma accountsD: "accounts d l now g w \<Longrightarrow> now \<le> t \<Longrightarrow> window_start w \<le> t \<and> (\<forall>x \<in> set g. x \<le> t)"
  unfolding accounts_def by (meson order_trans)

lemma accounts_new: "t \<le> now \<Longrightarrow> accounts d l now [] (new_window t)"
  by (auto simp: accounts_def new_window_def window_inv_def in_span_def)

lemma accounts_later: "accounts d l now g w \<Longrightarrow> now \<le> now' \<Longrightarrow> accounts d l now' g w"
  by (auto simp: accounts_def)

lemma accounts_span: "accounts d l now g w \<Longrightarrow> in_span d a g \<le> 2 * l"
  by (auto simp: accounts_def dest: window_inv_span)

lemma accounts_reset:
  assumes "accounts d l now g w" "now \<le> t1" "t1 \<le> t2" "0 < d"
  shows "accounts d l t2 g (maybe_reset t1 t2 d w)"
proof (cases "t1 - window_start w \<ge> d")
  case True
  obtain old cur where g: "g = old @ cur" "window_inv d l (window_start w) (unat (win_count w)) old cur"
    using assms(1) by (auto simp: accounts_def)
  have bound: "\<forall>t \<in> set g. t \<le> t2" using accountsD [OF assms(1), of t2] assms(2,3) by simp
  have "window_inv d l t2 0 (old @ cur) []"
  proof (rule window_inv_restart [OF g(2)])
    show "window_start w + d \<le> t2" using True assms(3,4) by simp
    show "\<forall>t \<in> set cur. t \<le> t2" using bound g(1) by simp
  qed
  with accountsI [of "\<lparr>window_start = t2, win_count = 0\<rparr>" t2 "old @ cur" "[]"] True bound g(1) show ?thesis
    by (simp add: maybe_reset_def)
next
  case False
  with accounts_later [OF assms(1), of t2] assms(2,3) show ?thesis by (simp add: maybe_reset_def)
qed

lemma accounts_grant:
  assumes "accounts d (unat l) now g w" "win_count w < l" "now \<le> t"
  shows "accounts d (unat l) t (g @ [t]) (w\<lparr>win_count := win_count w + 1\<rparr>)"
proof -
  have "unat (win_count w) < unat l" using assms(2) by (simp add: word_less_nat_alt)
  moreover have "unat l < 2 ^ 32" by (rule order_less_le_trans [OF unsigned_less]) simp
  ultimately have c: "unat (win_count w + 1) = Suc (unat (win_count w))"
    using unat_plus_no_wrap [of "win_count w" 1] by simp
  obtain old cur where "g = old @ cur" "window_inv d (unat l) (window_start w) (unat (win_count w)) old cur"
    using assms(1) by (auto simp: accounts_def)
  moreover from this have "window_inv d (unat l) (window_start w) (Suc (unat (win_count w))) old (cur @ [t])"
    using assms by (intro window_inv_grant) (auto simp: accounts_def word_less_nat_alt)
  ultimately show ?thesis
    using accountsI [of "w\<lparr>win_count := win_count w + 1\<rparr>" t old "cur @ [t]" d "unat l"] accountsD [OF assms(1,3)] c by simp
qed

definition entry_inv :: "rate_limit_config \<Rightarrow> instant \<Rightarrow> instant list \<Rightarrow> tool_rate_state \<Rightarrow> bool" where
  "entry_inv cfg now g s \<longleftrightarrow>
     accounts (secs MINUTE_SECS) (unat (requests_per_minute cfg)) now g (minute_window s) \<and>
     accounts (secs HOUR_SECS) (unat (requests_per_hour cfg)) now g (hour_window s)"

definition granted_by :: "bool \<Rightarrow> RateLimitResult \<Rightarrow> instant \<Rightarrow> instant list" where
  "granted_by rec res t = (if rec \<and> is_allowed res then [t] else [])"

lemma check_entry_inv:
  assumes "entry_inv cfg now g s" "mono clk" "now \<le> clk 2" "check_entry clk cfg rec s = (res, s')"
  shows "entry_inv cfg (clk 6) (g @ granted_by rec res (clk 6)) s'"
proof -
  let ?mw = "maybe_reset (clk 2) (clk 3) (secs MINUTE_SECS) (minute_window s)"
  let ?hw = "maybe_reset (clk 4) (clk 5) (secs HOUR_SECS) (hour_window s)"
  have le: "clk i \<le> clk j" if "i \<le> j" for i j using assms(2) that by (auto simp: mono_def)
  have clk: "now \<le> clk 2" "now \<le> clk 4" using le [of 2 4] assms(3) by auto
  have m: "accounts (secs MINUTE_SECS) (unat (requests_per_minute cfg)) (clk 6) g ?mw"
    using assms(1) clk le [of 2 3] le [of 3 6]
    by (intro accounts_later [OF accounts_reset]) (auto simp: entry_inv_def MINUTE_SECS_def)
  have h: "accounts (secs HOUR_SECS) (unat (requests_per_hour cfg)) (clk 6) g ?hw"
    using assms(1) clk le [of 4 5] le [of 5 6]
    by (intro accounts_later [OF accounts_reset]) (auto simp: entry_inv_def HOUR_SECS_def)
  show ?thesis
  proof (cases "rec \<and> is_allowed res")
    case True
    then have lt: "win_count ?mw < requests_per_minute cfg" "win_count ?hw < requests_per_hour cfg"
      and s': "s' = \<lparr>minute_window = ?mw\<lparr>win_count := win_count ?mw + 1\<rparr>, hour_window = ?hw\<lparr>win_count := win_count ?hw + 1\<rparr>\<rparr>"
      using assms(4) by (auto simp: check_entry_def Let_def is_allowed_def split: if_splits)
    show ?thesis
      using accounts_grant [OF m lt(1)] accounts_grant [OF h lt(2)] True by (simp add: entry_inv_def granted_by_def s')
  next
    case False
    then have "s' = \<lparr>minute_window = ?mw, hour_window = ?hw\<rparr>"
      using assms(4) by (auto simp: check_entry_def Let_def is_allowed_def split: if_splits)
    with False m h show ?thesis by (auto simp: entry_inv_def granted_by_def)
  qed
qed

text \<open>A log of calls for any keys, in the order in which they take the lock.\<close>

type_synonym rate_call = "rate_key \<times> bool \<times> (nat \<Rightarrow> instant)"

fun granted :: "rate_limit_config \<Rightarrow> rate_key \<Rightarrow> rate_limiter \<Rightarrow> rate_call list \<Rightarrow> instant list" where
  "granted cfg k lim [] = []"
| "granted cfg k lim ((key, rec, clk) # calls) =
     (let (res, lim') = check_internal clk key cfg rec lim
      in (if key = k then granted_by rec res (clk 6) else []) @ granted cfg k lim' calls)"

fun timed :: "instant \<Rightarrow> rate_call list \<Rightarrow> bool" where
  "timed now [] = True"
| "timed now ((key, rec, clk) # calls) \<longleftrightarrow> mono clk \<and> now \<le> clk 0 \<and> timed (clk 6) calls"

definition key_inv :: "rate_limit_config \<Rightarrow> instant \<Rightarrow> instant list \<Rightarrow> rate_key \<Rightarrow> rate_limiter \<Rightarrow> bool" where
  "key_inv cfg now g k lim = (case map_of lim k of None \<Rightarrow> g = [] | Some s \<Rightarrow> entry_inv cfg now g s)"

lemma key_inv_spans:
  "key_inv cfg now g k lim \<Longrightarrow> in_span (secs MINUTE_SECS) a g \<le> 2 * unat (requests_per_minute cfg) \<and>
     in_span (secs HOUR_SECS) b g \<le> 2 * unat (requests_per_hour cfg)"
  by (auto simp: key_inv_def entry_inv_def in_span_def [of _ _ "[]"] intro: accounts_span split: option.splits)

lemma key_inv_later: "key_inv cfg now g k lim \<Longrightarrow> now \<le> now' \<Longrightarrow> key_inv cfg now' g k lim"
  by (auto simp: key_inv_def entry_inv_def intro: accounts_later split: option.splits)

lemma key_inv_check:
  assumes "key_inv cfg now g k lim" "mono clk" "now \<le> clk 0" "check_internal clk key cfg rec lim = (res, lim')"
  shows "key_inv cfg (clk 6) (g @ (if key = k then granted_by rec res (clk 6) else [])) k lim'"
proof -
  have le: "clk i \<le> clk j" if "i \<le> j" for i j using assms(2) that by (auto simp: mono_def)
  show ?thesis
  proof (cases "key = k")
    case False
    then have "map_of lim' k = map_of lim k" using assms(4) by (auto simp: check_internal_def Let_def update_conv' split: prod.splits)
    with False key_inv_later [OF assms(1), of "clk 6"] assms(3) le [of 0 6] show ?thesis by (simp add: key_inv_def)
  next
    case True
    define s where "s = (case map_of lim key of Some s \<Rightarrow> s | None \<Rightarrow> new_tool_rate_state (clk 0) (clk 1))"
    obtain s' where s': "check_entry clk cfg rec s = (res, s')" "map_of lim' k = Some s'"
      using assms(4) True by (auto simp: check_internal_def Let_def s_def update_conv' split: prod.splits)
    show ?thesis
    proof (cases "map_of lim k")
      case None
      then have "g = []" "s = new_tool_rate_state (clk 0) (clk 1)" using assms(1) True by (simp_all add: key_inv_def s_def)
      moreover have "accounts d l (clk 1) [] (new_window (clk i))" if "i \<le> 1" for d l i
        using le [OF that] by (rule accounts_new)
      ultimately have "entry_inv cfg (clk 1) g s" by (simp add: entry_inv_def new_tool_rate_state_def)
      then have "entry_inv cfg (clk 6) (g @ granted_by rec res (clk 6)) s'"
        using assms(2) le [of 1 2] s'(1) by (intro check_entry_inv) auto
      with True s'(2) show ?thesis by (simp add: key_inv_def)
    next
      case (Some s0)
      with assms(1) True have "entry_inv cfg now g s" by (simp add: key_inv_def s_def)
      from check_entry_inv [OF this assms(2) _ s'(1)] le [of 0 2] assms(3) True s'(2) show ?thesis by (simp add: key_inv_def)
    qed
  qed
qed

lemma granted_spans:
  assumes "key_inv cfg now g k lim" "timed now calls"
  shows "in_span (secs MINUTE_SECS) a (g @ granted cfg k lim calls) \<le> 2 * unat (requests_per_minute cfg) \<and>
    in_span (secs HOUR_SECS) b (g @ granted cfg k lim calls) \<le> 2 * unat (requests_per_hour cfg)"
  using assms
proof (induction calls arbitrary: now g lim)
  case Nil
  then show ?case using key_inv_spans by simp
next
  case (Cons call calls)
  obtain key rec clk where call: "call = (key, rec, clk)" by (cases call)
  obtain res lim' where c: "check_internal clk key cfg rec lim = (res, lim')" by (cases "check_internal clk key cfg rec lim")
  from Cons.prems call have "mono clk" "now \<le> clk 0" "timed (clk 6) calls" by auto
  from Cons.IH [OF key_inv_check [OF Cons.prems(1) this(1,2) c] this(3)] show ?case by (simp add: call c)
qed

text \<open>
  C21: Whatever calls arrive for whatever users and tools, in any span of a minute at most twice
  the configured requests per minute of one user for one tool are let through, and in any hour
  at most twice the requests per hour. Calls for other keys neither use up nor extend the quota.
  (Clearing the state by hand starts the account anew.)
\<close>

theorem rate_limit_spans:
  assumes "timed now calls"
  shows "in_span (secs 60) a (granted cfg k [] calls) \<le> 2 * unat (requests_per_minute cfg) \<and>
    in_span (secs 3600) b (granted cfg k [] calls) \<le> 2 * unat (requests_per_hour cfg)"
  using granted_spans [of cfg now "[]" k "[]" calls a b] assms
  by (simp add: key_inv_def MINUTE_SECS_def HOUR_SECS_def)

theorem rate_limit_spans_witness:
  "in_span (secs 60) 5 (granted \<lparr>requests_per_minute = 1, requests_per_hour = 9\<rparr> (''u'', ''t'') []
     [((''u'', ''t''), True, \<lambda>_. 7), ((''u'', ''t''), True, \<lambda>_. 8)]) \<le> 2"
proof -
  have "timed 0 [((''u'', ''t''), True, \<lambda>_. 7), ((''u'', ''t''), True, \<lambda>_. 8)]" by (simp add: mono_def)
  from rate_limit_spans [OF this, of 5 "\<lparr>requests_per_minute = 1, requests_per_hour = 9\<rparr>" "(''u'', ''t'')" 0] show ?thesis
    by (simp del: granted.simps)
qed

text \<open>A call that is let through reports the true remainder: the subtractions do not wrap. A refusal names the
  end of the window it ran into.\<close>

lemma rate_limit_report:
  assumes "check_entry clk cfg True s = (res, s')" "mono clk" "window_start (minute_window s) \<le> clk 2" "window_start (hour_window s) \<le> clk 4"
  shows "(\<forall>rm rh. res = RateAllowed rm rh \<longrightarrow>
      unat rm + unat (win_count (minute_window s')) = unat (requests_per_minute cfg) \<and>
      unat rh + unat (win_count (hour_window s')) = unat (requests_per_hour cfg)) \<and>
    (\<forall>wait. res = RateLimited_after wait PerMinute \<longrightarrow> requests_per_minute cfg \<noteq> 0 \<longrightarrow>
       (clk 6 < window_start (minute_window s') + secs 60 \<longrightarrow> clk 6 + wait = window_start (minute_window s') + secs 60))"
proof -
  let ?mw = "maybe_reset (clk 2) (clk 3) (secs MINUTE_SECS) (minute_window s)"
  let ?hw = "maybe_reset (clk 4) (clk 5) (secs HOUR_SECS) (hour_window s)"
  have le: "clk i \<le> clk j" if "i \<le> j" for i j using assms(2) that by (auto simp: mono_def)
  have sub: "unat (l - (c + 1)) + unat (c + 1) = unat l" if "c < l" for c l :: u32
  proof -
    have "c + 1 \<le> l" using that by (rule inc_le)
    then show ?thesis by (simp add: unat_sub word_le_nat_alt)
  qed
  have "window_start ?mw \<le> clk 6"
    using assms(3) le [of 2 6] le [of 3 6] by (auto simp: maybe_reset_def)
  then show ?thesis
    using assms(1) sub
    by (auto simp: check_entry_def Let_def time_until_reset_def MINUTE_SECS_def not_le split: if_splits)
qed

end
