(* ===== verification/Cost_Guard.thy ===== *)
theory Cost_Guard
  imports Complex_Main Claw_Prelude
begin

text \<open>
  The cost guard of \<open>src/agent/cost_guard.rs\<close>. Decimals (\<open>rust_decimal\<close>) are a type with the arithmetic
  that is used, conversion from machine integers, a zero test and conversion to whole cents being
  parameters; the day and the monotonic clock are arguments. Warnings are not modelled. The agent
  asks before a model call and records after it (\<open>call_llm\<close> of \<open>src/agent/dispatcher.rs\<close>, the only
  caller), which is the step relation \<open>cg_step\<close>. Lemmas: what an admitted call is known to be
  within, and that an exhausted daily budget is never renewed.
\<close>

record cost_guard_config =
  max_cost_per_day_cents :: "u64 option"
  max_actions_per_hour :: "u64 option"

datatype CostLimitExceeded = DailyBudget u64 u64 | HourlyRate u64 u64

record 'd model_tokens =
  mt_input_tokens :: u64
  mt_output_tokens :: u64
  mt_cost :: 'd

record 'd daily_cost =
  dc_total :: 'd
  reset_date :: int

record 'd cost_guard =
  cg_config :: cost_guard_config
  daily :: "'d daily_cost"
  action_window :: "instant list"
  cg_budget_exceeded :: bool
  model_tokens :: "(string, 'd model_tokens) hmap"

definition new_cost_guard :: "int \<Rightarrow> cost_guard_config \<Rightarrow> ('d::zero) cost_guard" where
  "new_cost_guard today cfg =
     \<lparr>cg_config = cfg, daily = \<lparr>dc_total = 0, reset_date = today\<rparr>, action_window = [],
      cg_budget_exceeded = False, model_tokens = []\<rparr>"

text \<open>\<open>checked_sub\<close> of an hour, and the loop that drops the expired entries at the front.\<close>

definition drain :: "instant \<Rightarrow> instant list \<Rightarrow> instant list" where
  "drain now w = (if secs 3600 \<le> now then dropWhile (\<lambda>t. t < now - secs 3600) w else w)"

definition cg_check_allowed :: "('d \<Rightarrow> u64) \<Rightarrow> instant \<Rightarrow> 'd cost_guard \<Rightarrow> (CostLimitExceeded, unit) result \<times> 'd cost_guard" where
  "cg_check_allowed cents now g =
     (let spent = cents (dc_total (daily g)) in
      if cg_budget_exceeded g
      then (Err (DailyBudget spent (case max_cost_per_day_cents (cg_config g) of Some l \<Rightarrow> l | None \<Rightarrow> 0)), g)
      else case max_cost_per_day_cents (cg_config g) of
        Some l \<Rightarrow>
          if spent \<ge> l then (Err (DailyBudget spent l), g\<lparr>cg_budget_exceeded := True\<rparr>)
          else (case max_actions_per_hour (cg_config g) of
              Some limit \<Rightarrow>
                let g1 = g\<lparr>action_window := drain now (action_window g)\<rparr>;
                    count = of_nat (length (action_window g1))
                in if count \<ge> limit then (Err (HourlyRate count limit), g1) else (Ok (), g1)
            | None \<Rightarrow> (Ok (), g))
      | None \<Rightarrow>
          (case max_actions_per_hour (cg_config g) of
              Some limit \<Rightarrow>
                let g1 = g\<lparr>action_window := drain now (action_window g)\<rparr>;
                    count = of_nat (length (action_window g1))
                in if count \<ge> limit then (Err (HourlyRate count limit), g1) else (Ok (), g1)
            | None \<Rightarrow> (Ok (), g)))"

text \<open>One model call as it is billed.\<close>

record 'd llm_usage =
  us_model :: string
  us_input :: u32
  us_output :: u32
  us_cache_read :: u32
  us_cache_write :: u32
  us_read_discount :: 'd
  us_write_multiplier :: 'd
  us_rates :: "('d \<times> 'd) option"

definition call_cost ::
  "(string \<Rightarrow> ('d \<times> 'd) option) \<Rightarrow> 'd \<times> 'd \<Rightarrow> (u32 \<Rightarrow> 'd) \<Rightarrow> ('d \<Rightarrow> bool) \<Rightarrow> ('d::{plus,times,inverse,one}) llm_usage \<Rightarrow> 'd" where
  "call_cost model_cost default_cost of_u32 is_zero u =
     (let (input_rate, output_rate) = (case us_rates u of Some r \<Rightarrow> r
            | None \<Rightarrow> (case model_cost (us_model u) of Some r \<Rightarrow> r | None \<Rightarrow> default_cost));
          cached_total = saturating_add (us_cache_read u) (us_cache_write u);
          uncached_input = saturating_sub (us_input u) cached_total;
          effective_discount = (if is_zero (us_read_discount u) then 1 else us_read_discount u);
          cache_read_cost = input_rate * of_u32 (us_cache_read u) / effective_discount;
          cache_write_cost = input_rate * of_u32 (us_cache_write u) * us_write_multiplier u
      in input_rate * of_u32 uncached_input + cache_read_cost + cache_write_cost + output_rate * of_u32 (us_output u))"

definition add_daily :: "('d \<Rightarrow> u64) \<Rightarrow> int \<Rightarrow> 'd \<Rightarrow> ('d::{plus,zero}) cost_guard \<Rightarrow> 'd cost_guard" where
  "add_daily cents today cost g =
     (let g1 = (if today \<noteq> reset_date (daily g)
                then g\<lparr>daily := \<lparr>dc_total = 0, reset_date = today\<rparr>, cg_budget_exceeded := False\<rparr> else g);
          g2 = g1\<lparr>daily := (daily g1)\<lparr>dc_total := dc_total (daily g1) + cost\<rparr>\<rparr>
      in case max_cost_per_day_cents (cg_config g2) of
           Some l \<Rightarrow> if cents (dc_total (daily g2)) \<ge> l then g2\<lparr>cg_budget_exceeded := True\<rparr> else g2
         | None \<Rightarrow> g2)"

definition add_usage :: "'d \<Rightarrow> ('d::{plus,zero}) llm_usage \<Rightarrow> 'd cost_guard \<Rightarrow> 'd cost_guard" where
  "add_usage cost u g =
     (let e = (case map_of (model_tokens g) (us_model u) of Some e \<Rightarrow> e
               | None \<Rightarrow> \<lparr>mt_input_tokens = 0, mt_output_tokens = 0, mt_cost = 0\<rparr>)
      in g\<lparr>model_tokens := AList.update (us_model u)
            \<lparr>mt_input_tokens = mt_input_tokens e + ucast (us_input u), mt_output_tokens = mt_output_tokens e + ucast (us_output u),
             mt_cost = mt_cost e + cost\<rparr> (model_tokens g)\<rparr>)"

definition record_llm_call ::
  "(string \<Rightarrow> ('d \<times> 'd) option) \<Rightarrow> 'd \<times> 'd \<Rightarrow> (u32 \<Rightarrow> 'd) \<Rightarrow> ('d \<Rightarrow> bool) \<Rightarrow> ('d \<Rightarrow> u64) \<Rightarrow> int \<Rightarrow> instant
     \<Rightarrow> ('d::{plus,times,inverse,one,zero}) llm_usage \<Rightarrow> 'd cost_guard \<Rightarrow> 'd \<times> 'd cost_guard" where
  "record_llm_call model_cost default_cost of_u32 is_zero cents today now u g =
     (let cost = call_cost model_cost default_cost of_u32 is_zero u;
          g1 = add_daily cents today cost g;
          g2 = g1\<lparr>action_window := action_window g1 @ [now]\<rparr>
      in (cost, add_usage cost u g2))"

definition daily_spend :: "int \<Rightarrow> ('d::zero) cost_guard \<Rightarrow> 'd" where
  "daily_spend today g = (if today \<noteq> reset_date (daily g) then 0 else dc_total (daily g))"

definition actions_this_hour :: "instant \<Rightarrow> 'd cost_guard \<Rightarrow> u64 \<times> 'd cost_guard" where
  "actions_this_hour now g =
     (let g1 = g\<lparr>action_window := drain now (action_window g)\<rparr> in (of_nat (length (action_window g1)), g1))"

text \<open>Whole cents: the product with one hundred is truncated, printed and parsed.\<close>

definition to_cents :: "('d::times) \<Rightarrow> ('d \<Rightarrow> string) \<Rightarrow> (string \<Rightarrow> u64 option) \<Rightarrow> 'd \<Rightarrow> u64" where
  "to_cents hundred trunc_text parse usd = (case parse (trunc_text (usd * hundred)) of Some c \<Rightarrow> c | None \<Rightarrow> 0)"

subsection \<open>What an admitted call is within\<close>

lemma filter_drop_sorted: "sorted w \<Longrightarrow> dropWhile (\<lambda>t. t < c) w = filter (\<lambda>t. c \<le> t) w"
proof (induction w)
  case (Cons a w)
  show ?case
  proof (cases "a < c")
    case False
    with Cons.prems have "filter (\<lambda>t. c \<le> t) w = w" by (force simp: filter_id_conv)
    with False show ?thesis by simp
  qed (use Cons in simp)
qed simp

lemma drain_sorted: "sorted w \<Longrightarrow> drain now w = filter (\<lambda>t. now \<le> t + secs 3600) w"
  by (auto simp: drain_def filter_drop_sorted filter_id_conv intro: filter_cong)

text \<open>
  When the guard lets a call through, the money recorded for the day is below the daily limit
  and fewer actions than the hourly limit were recorded during the past hour; a refusal for the
  hourly rate is exact too.
\<close>

theorem guard_admits_within_limits:
  assumes "cg_check_allowed cents now g = (res, g')" "sorted (action_window g)" "length (action_window g) < 2 ^ 64"
  shows "(res = Ok () \<longrightarrow>
      (\<forall>l. max_cost_per_day_cents (cg_config g) = Some l \<longrightarrow> cents (dc_total (daily g)) < l) \<and>
      (\<forall>l. max_actions_per_hour (cg_config g) = Some l \<longrightarrow>
         length (filter (\<lambda>t. now \<le> t + secs 3600) (action_window g)) < unat l)) \<and>
    (\<forall>n l. res = Err (HourlyRate n l) \<longrightarrow>
       unat n = length (filter (\<lambda>t. now \<le> t + secs 3600) (action_window g)) \<and> l \<le> n) \<and>
    daily g' = daily g"
proof -
  let ?f = "filter (\<lambda>t. now \<le> t + secs 3600) (action_window g)"
  have d: "drain now (action_window g) = ?f" by (rule drain_sorted [OF assms(2)])
  have "length ?f < 2 ^ 64" by (rule le_less_trans [OF length_filter_le assms(3)])
  then have len: "unat (of_nat (length ?f) :: u64) = length ?f" using unat_of_nat [of "length ?f", where 'a = 64] by simp
  show ?thesis
    using assms(1) len
    by (auto simp: cg_check_allowed_def d Let_def not_le word_less_nat_alt split: if_splits option.splits)
qed

theorem guard_admits_within_limits_witness:
  "length (filter (\<lambda>t. 9000000000000 \<le> t + secs 3600) [100, 8000000000000]) < 5"
proof -
  let ?g = "(new_cost_guard 0 \<lparr>max_cost_per_day_cents = None, max_actions_per_hour = Some 5\<rparr> :: nat cost_guard)
      \<lparr>action_window := [100, 8000000000000]\<rparr>"
  have "cg_check_allowed of_nat 9000000000000 ?g = (Ok (), ?g\<lparr>action_window := [8000000000000]\<rparr>)"
    by (simp add: cg_check_allowed_def new_cost_guard_def drain_def Let_def word_le_nat_alt)
  from guard_admits_within_limits [OF this] show ?thesis by (simp add: new_cost_guard_def)
qed

subsection \<open>The daily budget is never renewed\<close>

text \<open>The guard with the number of admitted calls that have not been recorded yet.\<close>

inductive cg_step ::
  "(string \<Rightarrow> ('d \<times> 'd) option) \<Rightarrow> 'd \<times> 'd \<Rightarrow> (u32 \<Rightarrow> 'd) \<Rightarrow> ('d \<Rightarrow> bool) \<Rightarrow> ('d \<Rightarrow> u64)
     \<Rightarrow> ('d::{plus,times,inverse,one,zero}) cost_guard \<times> nat \<Rightarrow> 'd cost_guard \<times> nat \<Rightarrow> bool"
  for model_cost default_cost of_u32 is_zero cents where
  admit: "cg_check_allowed cents now g = (Ok (), g') \<Longrightarrow> cg_step model_cost default_cost of_u32 is_zero cents (g, n) (g', Suc n)"
| refuse: "cg_check_allowed cents now g = (Err e, g') \<Longrightarrow> cg_step model_cost default_cost of_u32 is_zero cents (g, n) (g', n)"
| bill: "cg_step model_cost default_cost of_u32 is_zero cents (g, Suc n)
    (snd (record_llm_call model_cost default_cost of_u32 is_zero cents today now u g), n)"
| failed: "cg_step model_cost default_cost of_u32 is_zero cents (g, Suc n) (g, n)"
| query: "cg_step model_cost default_cost of_u32 is_zero cents (g, n) (snd (actions_this_hour now g), n)"

inductive_cases cg_stepE: "cg_step model_cost default_cost of_u32 is_zero cents (g, 0) (g', n)"

lemma exhausted_check: "cg_budget_exceeded g \<Longrightarrow>
    cg_check_allowed cents now g = (Err (DailyBudget (cents (dc_total (daily g)))
      (case max_cost_per_day_cents (cg_config g) of Some l \<Rightarrow> l | None \<Rightarrow> 0)), g)"
  by (simp add: cg_check_allowed_def)

lemma exhausted_step:
  assumes "cg_step model_cost default_cost of_u32 is_zero cents (g, 0) (g', n)" "cg_budget_exceeded g"
  shows "n = 0 \<and> cg_budget_exceeded g' \<and> daily g' = daily g \<and> cg_config g' = cg_config g"
  using assms by (auto elim!: cg_stepE simp: exhausted_check actions_this_hour_def Let_def)

text \<open>
  Once the daily budget is exhausted and the calls under way have been recorded, no sequence
  of requests ever gets a call admitted again, on whatever day: the spending of a new day is
  zero, but the guard keeps refusing with the old total, because the reset happens only when an
  admitted call is recorded.
\<close>

theorem budget_never_renewed:
  assumes "(cg_step model_cost default_cost of_u32 is_zero cents)\<^sup>*\<^sup>* (g, 0) (g', n)" "cg_budget_exceeded g"
    and "today \<noteq> reset_date (daily g)"
  shows "n = 0 \<and> daily_spend today g' = 0 \<and>
    (\<exists>spent limit. cg_check_allowed cents now g' = (Err (DailyBudget spent limit), g'))"
proof -
  have "n = 0 \<and> cg_budget_exceeded g' \<and> daily g' = daily g \<and> cg_config g' = cg_config g"
    using assms(1)
  proof (induction "(g', n)" arbitrary: g' n rule: rtranclp_induct)
    case base
    then show ?case using assms(2) by simp
  next
    case (step y)
    then show ?case by (cases y) (metis exhausted_step)
  qed
  then show ?thesis using assms(3) exhausted_check [of g' cents now] by (simp add: daily_spend_def)
qed

definition spent_guard :: "rat cost_guard" where
  "spent_guard = add_daily (\<lambda>d. of_nat (nat \<lfloor>d * 100\<rfloor>)) 1 3 (new_cost_guard 1 \<lparr>max_cost_per_day_cents = Some 200, max_actions_per_hour = None\<rparr>)"

theorem budget_never_renewed_witness:
  "cg_budget_exceeded spent_guard \<and> daily_spend 2 spent_guard = 0 \<and>
   (\<exists>spent limit. cg_check_allowed (\<lambda>d. of_nat (nat \<lfloor>d * 100\<rfloor>)) 7 spent_guard = (Err (DailyBudget spent limit), spent_guard))"
proof -
  have g: "cg_budget_exceeded spent_guard" "(2 :: int) \<noteq> reset_date (daily spent_guard)"
    by (simp_all add: spent_guard_def add_daily_def new_cost_guard_def)
  from budget_never_renewed [OF rtranclp.rtrancl_refl g, where now = 7] g(1) show ?thesis by blast
qed

end
