(* ===== verification/Text_Ops.thy ===== *)
theory Text_Ops
  imports Claw_Prelude
begin

text \<open>
  The string operations of the Rust standard library that the safety layer, the message parsers and
  the context tools use, on the bytes of a \<open>str\<close>: searching (\<open>find\<close>, \<open>rfind\<close>), \<open>replace\<close>,
  trimming of Unicode white space, \<open>chars\<close> and the lossy decoding of bytes, with the lemmas their
  clients share.
\<close>

type_synonym span = "nat \<times> nat"

text \<open>A slice between two byte offsets, and the backslash.\<close>

definition slice :: "string \<Rightarrow> nat \<Rightarrow> nat \<Rightarrow> string" where
  "slice s a b = take (b - a) (drop a s)"

abbreviation BSL :: string where "BSL \<equiv> [CHR 0x5C]"

subsection \<open>Searching\<close>

fun find_str :: "string \<Rightarrow> string \<Rightarrow> nat option" where
  "find_str [] p = (if p = [] then Some 0 else None)"
| "find_str (c # cs) p =
     (if starts_with (c # cs) p then Some 0 else map_option Suc (find_str cs p))"

fun rfind_str :: "string \<Rightarrow> string \<Rightarrow> nat option" where
  "rfind_str [] p = (if p = [] then Some 0 else None)"
| "rfind_str (c # cs) p =
     (case rfind_str cs p of
        Some n \<Rightarrow> Some (Suc n)
      | None \<Rightarrow> if starts_with (c # cs) p then Some 0 else None)"

lemma find_str_None: "find_str s p = None \<longleftrightarrow> \<not> contains_str s p"
  by (induction s) auto

lemma find_str_Some: "find_str s p = Some n \<Longrightarrow> starts_with (drop n s) p \<and> n \<le> length s"
  by (induction s arbitrary: n) (auto simp: starts_with_def split: if_splits)

lemma find_str_first: "find_str s p = Some n \<Longrightarrow> m < n \<Longrightarrow> \<not> starts_with (drop m s) p"
proof (induction s arbitrary: n m)
  case (Cons c cs)
  then show ?case by (cases m) (auto split: if_splits)
qed (auto split: if_splits)

lemma rfind_str_None: "rfind_str s p = None \<longleftrightarrow> \<not> contains_str s p"
  by (induction s) (auto split: option.splits)

lemma rfind_str_Some: "rfind_str s p = Some n \<Longrightarrow> starts_with (drop n s) p \<and> n \<le> length s"
  by (induction s arbitrary: n) (auto simp: starts_with_def split: if_splits option.splits)

lemma rfind_str_append:
  "p \<noteq> [] \<Longrightarrow> rfind_str (tl p) p = None \<Longrightarrow> rfind_str (a @ p) p = Some (length a)"
proof (induction a)
  case Nil
  then obtain c cs where "p = c # cs" by (cases p) auto
  with Nil show ?case by (simp add: starts_with_def)
qed simp

lemma contains_str_Nil [simp]: "contains_str s []"
  by (induction s) (auto simp: starts_with_def)

lemma contains_str_append_right: "contains_str t p \<Longrightarrow> contains_str (s @ t) p"
  by (induction s) auto

text \<open>A pattern cannot begin in a text without its first byte.\<close>

lemma contains_str_skip: "h \<notin> set s \<Longrightarrow> contains_str (s @ t) (h # p) \<longleftrightarrow> contains_str t (h # p)"
  by (induction s) (auto simp: starts_with_def)

lemma contains_str_absent: "h \<in> set p \<Longrightarrow> h \<notin> set s \<Longrightarrow> \<not> contains_str s p"
  by (auto simp: contains_str_iff)

lemma starts_with_drop_append: "starts_with (drop m (a @ t)) (h # p) \<Longrightarrow> m < length a \<Longrightarrow> h \<in> set a"
  by (induction a arbitrary: m) (auto simp: starts_with_def drop_Cons split: nat.splits)

text \<open>A pattern whose first byte does not recur cannot straddle a point where that byte stands.\<close>

lemma occurrence_split:
  assumes "u @ h # v = a @ (h # p) @ b" and "h \<notin> set p"
  shows "(\<exists>b'. u = a @ (h # p) @ b') \<or> (\<exists>a'. a = u @ a')"
proof -
  from assms(1) obtain us where
    "(u = a @ us \<and> us @ h # v = (h # p) @ b) \<or> (u @ us = a \<and> h # v = us @ (h # p) @ b)"
    by (auto simp: append_eq_append_conv2)
  then show ?thesis
  proof
    assume *: "u = a @ us \<and> us @ h # v = (h # p) @ b"
    then have "\<exists>w. us = (h # p) @ w \<or> (us @ w = h # p \<and> h # v = w @ b)"
      using append_eq_append_conv2 [of us "h # v" "h # p" b] by blast
    then consider w where "us = (h # p) @ w" | w where "us @ w = h # p" "h # v = w @ b" by blast
    then show ?thesis
    proof cases
      case 1
      with * show ?thesis by simp
    next
      case 2
      show ?thesis
      proof (cases us)
        case (Cons x xs)
        with 2 assms(2) have "w = []" by (cases w) auto
        with 2 * show ?thesis by auto
      qed (use * in simp)
    qed
  qed auto
qed

subsection \<open>Replacing\<close>

text \<open>\<open>str::replace\<close> for a pattern that is not empty: leftmost occurrences that do not overlap.\<close>

fun replace_str :: "string \<Rightarrow> string \<Rightarrow> string \<Rightarrow> string" where
  "replace_str p r [] = []"
| "replace_str p r (c # cs) =
     (if p \<noteq> [] \<and> starts_with (c # cs) p then r @ replace_str p r (drop (length p - 1) cs)
      else c # replace_str p r cs)"

lemma replace_str_id: "\<not> contains_str s p \<Longrightarrow> replace_str p r s = s"
  by (induction s) auto

lemma replace_str_append_skip:
  "p \<noteq> [] \<Longrightarrow> hd p \<notin> set s \<Longrightarrow> replace_str p r (s @ t) = s @ replace_str p r t"
  by (induction s) (auto simp: starts_with_def neq_Nil_conv)

subsection \<open>White space\<close>

text \<open>
  The characters with the Unicode property \<open>White_Space\<close>, as \<open>char::is_whitespace\<close> has them, in
  UTF-8.
\<close>

definition white_space :: "string list" where
  "white_space =
     [[CHR 0x09], [CHR 0x0A], [CHR 0x0B], [CHR 0x0C], [CHR 0x0D], [CHR 0x20],
      [CHR 0xC2, CHR 0x85], [CHR 0xC2, CHR 0xA0], [CHR 0xE1, CHR 0x9A, CHR 0x80],
      [CHR 0xE2, CHR 0x80, CHR 0x80], [CHR 0xE2, CHR 0x80, CHR 0x81], [CHR 0xE2, CHR 0x80, CHR 0x82],
      [CHR 0xE2, CHR 0x80, CHR 0x83], [CHR 0xE2, CHR 0x80, CHR 0x84], [CHR 0xE2, CHR 0x80, CHR 0x85],
      [CHR 0xE2, CHR 0x80, CHR 0x86], [CHR 0xE2, CHR 0x80, CHR 0x87], [CHR 0xE2, CHR 0x80, CHR 0x88],
      [CHR 0xE2, CHR 0x80, CHR 0x89], [CHR 0xE2, CHR 0x80, CHR 0x8A], [CHR 0xE2, CHR 0x80, CHR 0xA8],
      [CHR 0xE2, CHR 0x80, CHR 0xA9], [CHR 0xE2, CHR 0x80, CHR 0xAF],
      [CHR 0xE2, CHR 0x81, CHR 0x9F], [CHR 0xE3, CHR 0x80, CHR 0x80]]"

fun strip_any :: "string list \<Rightarrow> string \<Rightarrow> string option" where
  "strip_any [] s = None"
| "strip_any (w # ws) s = (case strip_prefix w s of Some t \<Rightarrow> Some t | None \<Rightarrow> strip_any ws s)"

lemma strip_any_Some: "strip_any ws s = Some t \<Longrightarrow> \<exists>w\<in>set ws. s = w @ t"
  by (induction ws) (auto split: option.splits)

lemma strip_any_None: "strip_any ws s = None \<longleftrightarrow> (\<forall>w\<in>set ws. \<not> starts_with s w)"
  by (induction ws) (auto simp: strip_prefix_def)

lemma strip_any_length [termination_simp]:
  "strip_any ws s = Some t \<Longrightarrow> [] \<notin> set ws \<Longrightarrow> length t < length s"
  using strip_any_Some [of ws s t] by (cases s) (auto simp: Cons_eq_append_conv)

lemma white_space_nonempty [simp]: "[] \<notin> set white_space" "[] \<notin> set (map rev white_space)"
  by (simp_all add: white_space_def)

function trim_start :: "string \<Rightarrow> string" where
  "trim_start s = (case strip_any white_space s of Some t \<Rightarrow> trim_start t | None \<Rightarrow> s)"
  by auto
termination
  by (relation "measure length") (auto dest: strip_any_length)

function trim_rev :: "string \<Rightarrow> string" where
  "trim_rev s = (case strip_any (map rev white_space) s of Some t \<Rightarrow> trim_rev t | None \<Rightarrow> s)"
  by auto
termination
  by (relation "measure length") (auto dest!: strip_any_length simp del: set_map)

definition trim_end :: "string \<Rightarrow> string" where
  "trim_end s = rev (trim_rev (rev s))"

definition trim_str :: "string \<Rightarrow> string" where
  "trim_str s = trim_end (trim_start s)"

declare trim_start.simps [simp del] trim_rev.simps [simp del]

lemma trim_start_id_iff: "strip_any white_space s = None \<Longrightarrow> trim_start s = s"
  by (subst trim_start.simps) simp

lemma trim_rev_id_iff: "strip_any (map rev white_space) s = None \<Longrightarrow> trim_rev s = s"
  by (subst trim_rev.simps) simp

lemma trim_start_stop: "strip_any white_space (trim_start s) = None"
  by (induction s rule: trim_start.induct) (subst trim_start.simps, simp split: option.splits)

lemma trim_start_suffix: "\<exists>w. s = w @ trim_start s"
proof (induction s rule: trim_start.induct)
  case (1 s)
  show ?case
  proof (cases "strip_any white_space s")
    case (Some t)
    with 1 obtain w where "t = w @ trim_start t" by blast
    moreover from Some obtain v where "s = v @ t" by (auto dest!: strip_any_Some)
    moreover from Some have "trim_start s = trim_start t" by (subst trim_start.simps) simp
    ultimately show ?thesis by (metis append.assoc)
  qed (simp add: trim_start_id_iff)
qed

lemma trim_rev_stop: "strip_any (map rev white_space) (trim_rev s) = None"
  by (induction s rule: trim_rev.induct) (subst trim_rev.simps, simp split: option.splits)

lemma trim_rev_length: "length (trim_rev s) \<le> length s"
proof (induction s rule: trim_rev.induct)
  case (1 s)
  show ?case
  proof (cases "strip_any (map rev white_space) s")
    case (Some t)
    then have "length t < length s" using strip_any_length by fastforce
    moreover from Some have "trim_rev s = trim_rev t" by (subst trim_rev.simps) simp
    ultimately show ?thesis using 1 [OF Some] by simp
  qed (simp add: trim_rev_id_iff)
qed

text \<open>A trimmed text neither starts nor ends with white space.\<close>

lemma trimmed_iff:
  "trim_str s = s \<longleftrightarrow> strip_any white_space s = None \<and> strip_any (map rev white_space) (rev s) = None"
proof
  assume t: "trim_str s = s"
  have "length (trim_str s) \<le> length (trim_start s)"
    using trim_rev_length [of "rev (trim_start s)"] by (simp add: trim_str_def trim_end_def)
  moreover obtain w where w: "s = w @ trim_start s" using trim_start_suffix by blast
  ultimately have "w = []" using t by (metis add_le_same_cancel2 length_append le_zero_eq length_0_conv)
  with w have s: "trim_start s = s" by simp
  then have "strip_any white_space s = None" using trim_start_stop [of s] by simp
  moreover from t s have "trim_rev (rev s) = rev s" by (simp add: trim_str_def trim_end_def rev_swap)
  then have "strip_any (map rev white_space) (rev s) = None" using trim_rev_stop [of "rev s"] by simp
  ultimately show "strip_any white_space s = None \<and> strip_any (map rev white_space) (rev s) = None" by simp
qed (simp add: trim_str_def trim_end_def trim_start_id_iff trim_rev_id_iff)

lemma trim_str_lines:
  assumes "trim_str s = s"
  shows "trim_str ([CHR 0x0A] @ s @ [CHR 0x0A]) = s"
proof -
  have strip: "strip_any white_space (CHR 0x0A # x) = Some x"
      "strip_any (map rev white_space) (CHR 0x0A # x) = Some x" for x
    by (simp_all add: white_space_def strip_prefix_def starts_with_def)
  have nl: "trim_start (CHR 0x0A # x) = trim_start x" "trim_rev (CHR 0x0A # x) = trim_rev x" for x
    using trim_start.simps [of "CHR 0x0A # x"] trim_rev.simps [of "CHR 0x0A # x"] by (simp_all add: strip)
  have ws: "list_all (\<lambda>w. length w \<le> 1 \<or> last w \<noteq> CHR 0x0A) white_space" by code_simp
  have none: "strip_any white_space (s @ [CHR 0x0A]) = None" if "s \<noteq> []"
    unfolding strip_any_None
  proof (intro ballI notI)
    fix w assume w: "w \<in> set white_space" "starts_with (s @ [CHR 0x0A]) w"
    then obtain t where t: "s @ [CHR 0x0A] = w @ t" by (auto simp: starts_with_iff)
    show False
    proof (cases t rule: rev_cases)
      case Nil
      with t have "w = s @ [CHR 0x0A]" by simp
      with ws w(1) that show False by (fastforce simp: list_all_iff)
    next
      case (snoc t' x)
      with t have "s = w @ t'" by auto
      then have "starts_with s w" by (auto simp: starts_with_iff)
      with w(1) assms show False by (auto simp: trimmed_iff strip_any_None)
    qed
  qed
  have "trim_start (s @ [CHR 0x0A]) = (if s = [] then [] else s @ [CHR 0x0A])"
  proof -
    have "trim_start [] = []"
      by (rule trim_start_id_iff) (use white_space_nonempty(1) in \<open>auto simp: strip_any_None starts_with_def\<close>)
    then show ?thesis using none by (simp add: nl trim_start_id_iff)
  qed
  moreover have "trim_rev (rev s) = rev s" using assms by (simp add: trimmed_iff trim_rev_id_iff)
  moreover have "trim_rev [] = []"
    by (rule trim_rev_id_iff)
       (use white_space_nonempty(2) in \<open>auto simp: strip_any_None starts_with_def simp del: set_map\<close>)
  ultimately show ?thesis by (auto simp: trim_str_def trim_end_def nl)
qed

lemma find_str_char: "h \<notin> set a \<Longrightarrow> find_str (a @ h # b) [h] = Some (length a)"
  by (induction a) (auto simp: starts_with_def)

subsection \<open>Characters\<close>

lemma length_dropWhile_less [termination_simp]: "length (dropWhile P xs) < Suc (length xs)"
  by (simp add: less_Suc_eq_le length_dropWhile_le)

text \<open>\<open>str::chars\<close>: a byte that is not a continuation byte with the continuation bytes after it.\<close>

fun str_chars :: "string \<Rightarrow> string list" where
  "str_chars [] = []"
| "str_chars (c # cs) = (c # takeWhile utf8_cont cs) # str_chars (dropWhile utf8_cont cs)"

lemma concat_str_chars [simp]: "concat (str_chars s) = s"
  by (induction s rule: str_chars.induct) auto

lemma length_str_chars: "length (str_chars s) \<le> length s"
  by (induction s rule: str_chars.induct)
     (auto intro: order_trans [OF _ length_dropWhile_le])

lemma str_chars_ascii: "(\<And>c. c \<in> set s \<Longrightarrow> \<not> utf8_cont c) \<Longrightarrow> str_chars s = map (\<lambda>c. [c]) s"
proof (induction s)
  case (Cons c cs)
  then have "takeWhile utf8_cont cs = []" "dropWhile utf8_cont cs = cs"
    by (cases cs; auto)+
  with Cons show ?case by simp
qed simp

subsection \<open>Words\<close>

text \<open>\<open>split_whitespace\<close>; the first argument is the word read so far, in reverse.\<close>

function words_from :: "string \<Rightarrow> string \<Rightarrow> string list" where
  "words_from acc [] = (if acc = [] then [] else [rev acc])"
| "words_from acc (c # cs) =
     (case strip_any white_space (c # cs) of
        Some t \<Rightarrow> if acc = [] then words_from [] t else rev acc # words_from [] t
      | None \<Rightarrow> words_from (c # acc) cs)"
  by pat_completeness auto
termination
  by (relation "measure (\<lambda>(acc, s). length s)") (auto dest: strip_any_length)

definition split_ws :: "string \<Rightarrow> string list" where
  "split_ws s = words_from [] s"

lemma words_from_nonempty: "[] \<notin> set (words_from acc s)"
  by (induction acc s rule: words_from.induct) (auto split: option.splits)

subsection \<open>What a replacement leaves\<close>

lemma set_replace_str: "set (replace_str p r s) \<subseteq> set r \<union> set s"
  by (induction p r s rule: replace_str.induct) (auto dest: in_set_dropD)

lemma replace_char_absent: "h \<notin> set r \<Longrightarrow> h \<notin> set (replace_str [h] r s)"
  by (induction s) (auto simp: starts_with_def)

lemma replace_str_keeps_absent: "h \<notin> set r \<Longrightarrow> h \<notin> set s \<Longrightarrow> h \<notin> set (replace_str p r s)"
  using set_replace_str [of p r s] by blast

end
