(* ===== verification/Input_Validator.thy ===== *)
theory Input_Validator
  imports Text_Ops
begin

text \<open>
  \<open>crates/ironclaw_safety/src/validator.rs\<close>, the validation of user input and of tool parameters, and
  \<open>credential_detect.rs\<close>, which looks for credentials in the parameters of an HTTP request. The Unicode
  lower-casing of \<open>str::to_lowercase\<close> and the URL parser are parameters.
\<close>

subsection \<open>Results\<close>

datatype ValidationErrorCode =
  Empty | TooLong | TooShort | InvalidFormat | ForbiddenContent | InvalidEncoding | SuspiciousPattern

record validation_error =
  ve_field :: string
  ve_message :: string
  ve_code :: ValidationErrorCode

record validation_result =
  vr_is_valid :: bool
  vr_errors :: "validation_error list"
  vr_warnings :: "string list"

definition vr_ok :: validation_result where
  "vr_ok = \<lparr>vr_is_valid = True, vr_errors = [], vr_warnings = []\<rparr>"

definition vr_error :: "validation_error \<Rightarrow> validation_result" where
  "vr_error e = \<lparr>vr_is_valid = False, vr_errors = [e], vr_warnings = []\<rparr>"

definition with_warning :: "string \<Rightarrow> validation_result \<Rightarrow> validation_result" where
  "with_warning w r = r\<lparr>vr_warnings := vr_warnings r @ [w]\<rparr>"

definition vr_merge :: "validation_result \<Rightarrow> validation_result \<Rightarrow> validation_result" where
  "vr_merge a b = \<lparr>vr_is_valid = (vr_is_valid a \<and> vr_is_valid b),
                   vr_errors = vr_errors a @ vr_errors b,
                   vr_warnings = vr_warnings a @ vr_warnings b\<rparr>"

subsection \<open>Validator\<close>

text \<open>The set of forbidden patterns is the list of its elements in iteration order.\<close>

record validator =
  va_max_length :: nat
  va_min_length :: nat
  va_forbidden :: "string list"

definition validator_new :: validator where
  "validator_new = \<lparr>va_max_length = 100000, va_min_length = 1, va_forbidden = []\<rparr>"

definition with_max_length :: "nat \<Rightarrow> validator \<Rightarrow> validator" where
  "with_max_length m v = v\<lparr>va_max_length := m\<rparr>"

definition with_min_length :: "nat \<Rightarrow> validator \<Rightarrow> validator" where
  "with_min_length m v = v\<lparr>va_min_length := m\<rparr>"

definition forbid_pattern :: "(string \<Rightarrow> string) \<Rightarrow> string \<Rightarrow> validator \<Rightarrow> validator" where
  "forbid_pattern lowercase p v = v\<lparr>va_forbidden := List.insert (lowercase p) (va_forbidden v)\<rparr>"

text \<open>The loop of \<open>has_excessive_repetition\<close>: the longest run so far and the current one.\<close>

fun longest_run :: "string list \<Rightarrow> nat \<Rightarrow> nat \<Rightarrow> nat" where
  "longest_run (a # b # cs) cur mx =
     (if b = a then longest_run (b # cs) (Suc cur) (max mx (Suc cur)) else longest_run (b # cs) 1 mx)"
| "longest_run _ cur mx = mx"

definition has_excessive_repetition :: "string \<Rightarrow> bool" where
  "has_excessive_repetition s \<longleftrightarrow> \<not> length s < 50 \<and> 20 < longest_run (str_chars s) 1 1"

text \<open>
  The white space ratio is a quotient of two \<open>f64\<close> values compared with \<open>0.9\<close>. The quotient of
  integers below \<open>10\<^sup>1\<^sup>4\<close> is correctly rounded, so the comparison is that of the exact quotient.
\<close>

definition mostly_white_space :: "string \<Rightarrow> bool" where
  "mostly_white_space s \<longleftrightarrow>
     9 * length s < 10 * length (filter (\<lambda>c. c \<in> set white_space) (str_chars s)) \<and> 100 < length s"

definition show_verr :: "string \<Rightarrow> string \<Rightarrow> ValidationErrorCode \<Rightarrow> validation_error" where
  "show_verr field msg code = \<lparr>ve_field = field, ve_message = msg, ve_code = code\<rparr>"

definition validate_non_empty_input ::
  "(string \<Rightarrow> string) \<Rightarrow> validator \<Rightarrow> string \<Rightarrow> string \<Rightarrow> validation_result" where
  "validate_non_empty_input lowercase v input field =
     (let r0 = vr_ok;
          r1 = (if va_max_length v < length input
                then vr_merge r0 (vr_error (show_verr field
                  (''Input too long: '' @ show_nat (length input) @ '' bytes (max '' @ show_nat (va_max_length v) @ '')'') TooLong))
                else r0);
          r2 = (if length input < va_min_length v
                then vr_merge r1 (vr_error (show_verr field
                  (''Input too short: '' @ show_nat (length input) @ '' bytes (min '' @ show_nat (va_min_length v) @ '')'') TooShort))
                else r1);
          r3 = (if CHR 0x00 \<in> set input
                then vr_merge r2 (vr_error (show_verr field ''Input contains null bytes'' InvalidEncoding))
                else r2);
          r4 = foldl (\<lambda>r p. if contains_str (lowercase input) p
                            then vr_merge r (vr_error (show_verr field
                              (''Input contains forbidden pattern: '' @ p) ForbiddenContent))
                            else r) r3 (va_forbidden v);
          r5 = (if mostly_white_space input
                then with_warning ''Input has unusually high whitespace ratio'' r4 else r4)
      in if has_excessive_repetition input
         then with_warning ''Input has excessive character repetition'' r5 else r5)"

definition validate_input :: "(string \<Rightarrow> string) \<Rightarrow> validator \<Rightarrow> string \<Rightarrow> validation_result" where
  "validate_input lowercase v input =
     (if input = [] then vr_error (show_verr ''input'' ''Input cannot be empty'' Empty)
      else validate_non_empty_input lowercase v input ''input'')"

abbreviation MAX_PARAM_DEPTH :: nat where "MAX_PARAM_DEPTH \<equiv> 32"

fun check_strings ::
    "(string \<Rightarrow> string) \<Rightarrow> validator \<Rightarrow> json \<Rightarrow> string \<Rightarrow> nat \<Rightarrow> validation_result \<Rightarrow> validation_result"
  and check_items ::
    "(string \<Rightarrow> string) \<Rightarrow> validator \<Rightarrow> json list \<Rightarrow> nat \<Rightarrow> string \<Rightarrow> nat \<Rightarrow> validation_result \<Rightarrow> validation_result"
  and check_members ::
    "(string \<Rightarrow> string) \<Rightarrow> validator \<Rightarrow> (string \<times> json) list \<Rightarrow> string \<Rightarrow> nat \<Rightarrow> validation_result \<Rightarrow> validation_result"
where
  "check_strings lc v val path depth r =
     (if MAX_PARAM_DEPTH < depth then r
      else case val of
        JString s \<Rightarrow> vr_merge r (if s = [] then vr_ok else validate_non_empty_input lc v s path)
      | JArray arr \<Rightarrow> check_items lc v arr 0 path depth r
      | JObject obj \<Rightarrow> check_members lc v obj path depth r
      | _ \<Rightarrow> r)"
| "check_items lc v [] i path depth r = r"
| "check_items lc v (x # xs) i path depth r =
     check_items lc v xs (Suc i) path depth
       (check_strings lc v x (path @ ''['' @ show_nat i @ '']'') (depth + 1) r)"
| "check_members lc v [] path depth r = r"
| "check_members lc v ((k, x) # kvs) path depth r =
     check_members lc v kvs path depth
       (check_strings lc v x (if path = [] then k else path @ ''.'' @ k) (depth + 1) r)"

definition validate_tool_params :: "(string \<Rightarrow> string) \<Rightarrow> validator \<Rightarrow> json \<Rightarrow> validation_result" where
  "validate_tool_params lc v params = check_strings lc v params [] 0 vr_ok"

declare check_strings.simps [simp del]

subsection \<open>Properties of the validator\<close>

text \<open>The condition on a string that is not empty, with no reference to fields and messages.\<close>

definition acceptable :: "(string \<Rightarrow> string) \<Rightarrow> validator \<Rightarrow> string \<Rightarrow> bool" where
  "acceptable lc v s \<longleftrightarrow>
     length s \<le> va_max_length v \<and> va_min_length v \<le> length s \<and> CHR 0x00 \<notin> set s \<and>
     list_all (\<lambda>p. \<not> contains_str (lc s) p) (va_forbidden v)"

definition vr_wf :: "validation_result \<Rightarrow> bool" where
  "vr_wf r \<longleftrightarrow> (vr_is_valid r \<longleftrightarrow> vr_errors r = [])"

lemma vr_simps [simp]:
  "vr_is_valid vr_ok" "\<not> vr_is_valid (vr_error e)" "vr_is_valid (with_warning w r) = vr_is_valid r"
  "vr_is_valid (vr_merge a b) \<longleftrightarrow> vr_is_valid a \<and> vr_is_valid b"
  "vr_errors vr_ok = []" "vr_errors (vr_error e) = [e]" "vr_errors (with_warning w r) = vr_errors r"
  "vr_errors (vr_merge a b) = vr_errors a @ vr_errors b"
  by (simp_all add: vr_ok_def vr_error_def with_warning_def vr_merge_def)

lemma vr_wf_intros [simp, intro]:
  "vr_wf vr_ok" "vr_wf (vr_error e)" "vr_wf r \<Longrightarrow> vr_wf (with_warning w r)"
  "vr_wf a \<Longrightarrow> vr_wf b \<Longrightarrow> vr_wf (vr_merge a b)"
  by (auto simp: vr_wf_def)

lemma foldl_forbidden:
  "vr_is_valid (foldl (\<lambda>r p. if Q p then vr_merge r (vr_error (f p)) else r) r ps) \<longleftrightarrow>
     vr_is_valid r \<and> list_all (\<lambda>p. \<not> Q p) ps"
  "vr_wf r \<Longrightarrow> vr_wf (foldl (\<lambda>r p. if Q p then vr_merge r (vr_error (f p)) else r) r ps)"
  by (induction ps arbitrary: r) auto

lemma validate_non_empty_valid:
  "vr_is_valid (validate_non_empty_input lc v s field) \<longleftrightarrow> acceptable lc v s"
  by (auto simp: validate_non_empty_input_def Let_def foldl_forbidden acceptable_def)

lemma validate_non_empty_wf: "vr_wf (validate_non_empty_input lc v s field)"
  by (simp add: validate_non_empty_input_def Let_def foldl_forbidden)

text \<open>The strings of a JSON value that lie at most \<open>d\<close> levels deep.\<close>

fun strings_upto :: "nat \<Rightarrow> json \<Rightarrow> string list" where
  "strings_upto d (JString s) = [s]"
| "strings_upto (Suc d) (JArray vs) = concat (map (strings_upto d) vs)"
| "strings_upto (Suc d) (JObject kvs) = concat (map (\<lambda>kv. strings_upto d (snd kv)) kvs)"
| "strings_upto _ _ = []"

lemma check_strings_valid:
  "depth \<le> MAX_PARAM_DEPTH \<Longrightarrow> vr_is_valid (check_strings lc v val path depth r) \<longleftrightarrow>
     vr_is_valid r \<and> list_all (\<lambda>s. s = [] \<or> acceptable lc v s) (strings_upto (MAX_PARAM_DEPTH - depth) val)"
  "depth \<le> MAX_PARAM_DEPTH \<Longrightarrow> vr_is_valid (check_items lc v vs i path depth r) \<longleftrightarrow>
     vr_is_valid r \<and> list_all (\<lambda>s. s = [] \<or> acceptable lc v s) (strings_upto (MAX_PARAM_DEPTH - depth) (JArray vs))"
  "depth \<le> MAX_PARAM_DEPTH \<Longrightarrow> vr_is_valid (check_members lc v kvs path depth r) \<longleftrightarrow>
     vr_is_valid r \<and> list_all (\<lambda>s. s = [] \<or> acceptable lc v s) (strings_upto (MAX_PARAM_DEPTH - depth) (JObject kvs))"
proof (induction lc v val path depth r and lc v vs i path depth r and lc v kvs path depth r
    rule: check_strings_check_items_check_members.induct)
  case (1 lc v val path depth r)
  then show ?case
    by (cases val; subst check_strings.simps) (auto simp: validate_non_empty_valid strings_upto.simps)
next
  case (2 lc v i path depth r)
  then show ?case by (cases "MAX_PARAM_DEPTH - depth") auto
next
  case (3 lc v x xs i path depth r)
  show ?case
  proof (cases "depth = MAX_PARAM_DEPTH")
    case True
    then have "check_strings lc v x p (depth + 1) r = r" for p by (subst check_strings.simps) simp
    with 3 True show ?thesis by (simp add: strings_upto.simps)
  next
    case False
    with 3(3) have "MAX_PARAM_DEPTH - depth = Suc (MAX_PARAM_DEPTH - (depth + 1))" by simp
    with 3 False show ?thesis by (auto simp: strings_upto.simps)
  qed
next
  case (4 lc v path depth r)
  then show ?case by (cases "MAX_PARAM_DEPTH - depth") auto
next
  case (5 lc v k x kvs path depth r)
  show ?case
  proof (cases "depth = MAX_PARAM_DEPTH")
    case True
    then have "check_strings lc v x p (depth + 1) r = r" for p by (subst check_strings.simps) simp
    with 5 True show ?thesis by (simp add: strings_upto.simps)
  next
    case False
    with 5(3) have "MAX_PARAM_DEPTH - depth = Suc (MAX_PARAM_DEPTH - (depth + 1))" by simp
    with 5 False show ?thesis by (auto simp: strings_upto.simps)
  qed
qed

lemma check_strings_wf:
  "vr_wf r \<Longrightarrow> vr_wf (check_strings lc v val path depth r)"
  "vr_wf r \<Longrightarrow> vr_wf (check_items lc v vs i path depth r)"
  "vr_wf r \<Longrightarrow> vr_wf (check_members lc v kvs path depth r)"
proof (induction lc v val path depth r and lc v vs i path depth r and lc v kvs path depth r
    rule: check_strings_check_items_check_members.induct)
  case (1 lc v val path depth r)
  then show ?case
    by (cases val; subst check_strings.simps) (auto simp: validate_non_empty_wf)
qed auto

text \<open>
  Validation of tool parameters covers every string down to 32 levels and nothing below: the
  parameters are valid exactly when each such string is empty or acceptable, and there is an error
  message exactly when they are not.
\<close>

theorem tool_params_validated:
  "(vr_is_valid (validate_tool_params lc v params) \<longleftrightarrow>
      list_all (\<lambda>s. s = [] \<or> acceptable lc v s) (strings_upto MAX_PARAM_DEPTH params)) \<and>
   (vr_is_valid (validate_tool_params lc v params) \<longleftrightarrow> vr_errors (validate_tool_params lc v params) = []) \<and>
   (vr_is_valid (validate_input lc v input) \<longleftrightarrow> input \<noteq> [] \<and> acceptable lc v input)"
proof -
  have "vr_wf (validate_tool_params lc v params)"
    by (simp add: validate_tool_params_def check_strings_wf)
  then show ?thesis
    using check_strings_valid(1) [of 0 lc v params "[]" vr_ok]
    by (simp add: validate_tool_params_def vr_wf_def validate_input_def validate_non_empty_valid)
qed

subsection \<open>Credentials in request parameters\<close>

definition AUTH_HEADER_EXACT :: "string list" where
  "AUTH_HEADER_EXACT =
    [''authorization'', ''proxy-authorization'', ''cookie'', ''x-api-key'', ''api-key'',
     ''x-auth-token'', ''x-token'', ''x-access-token'', ''x-session-token'', ''x-csrf-token'',
     ''x-secret'', ''x-api-secret'']"

definition AUTH_HEADER_SUBSTRINGS :: "string list" where
  "AUTH_HEADER_SUBSTRINGS =
    [''auth'', ''token'', ''secret'', ''credential'', ''password'']"

definition AUTH_VALUE_PREFIXES :: "string list" where
  "AUTH_VALUE_PREFIXES =
    [''bearer '', ''basic '', ''token '', ''digest '', ''hoba '', ''mutual '',
     ''aws4-hmac-sha256 '']"

definition AUTH_QUERY_EXACT :: "string list" where
  "AUTH_QUERY_EXACT =
    [''api_key'', ''apikey'', ''api-key'', ''access_token'', ''token'', ''key'', ''secret'',
     ''password'', ''auth'', ''auth_token'', ''session_token'', ''client_secret'',
     ''client_id'', ''app_key'', ''app_secret'', ''sig'', ''signature'']"

definition AUTH_QUERY_SUBSTRINGS :: "string list" where
  "AUTH_QUERY_SUBSTRINGS =
    [''token'', ''secret'', ''auth'', ''password'', ''credential'']"

text \<open>What the URL library returns for a URL it accepts.\<close>

record parsed_url =
  pu_query_pairs :: "(string \<times> string) list"
  pu_username :: string
  pu_password :: "string option"

definition header_name_is_credential :: "(string \<Rightarrow> string) \<Rightarrow> string \<Rightarrow> bool" where
  "header_name_is_credential lc name \<longleftrightarrow>
     lc name \<in> set AUTH_HEADER_EXACT \<or> list_ex (\<lambda>sub. contains_str (lc name) sub) AUTH_HEADER_SUBSTRINGS"

definition header_value_is_credential :: "(string \<Rightarrow> string) \<Rightarrow> string \<Rightarrow> bool" where
  "header_value_is_credential lc val \<longleftrightarrow> list_ex (\<lambda>pfx. starts_with (lc val) pfx) AUTH_VALUE_PREFIXES"

definition is_some_and :: "'a option \<Rightarrow> ('a \<Rightarrow> bool) \<Rightarrow> bool" where
  "is_some_and x P \<longleftrightarrow> (case x of None \<Rightarrow> False | Some v \<Rightarrow> P v)"

definition headers_contain_credentials :: "(string \<Rightarrow> string) \<Rightarrow> json \<Rightarrow> bool" where
  "headers_contain_credentials lc params \<longleftrightarrow>
     (case jget params ''headers'' of
        Some (JObject kvs) \<Rightarrow>
          list_ex (\<lambda>(k, v). header_name_is_credential lc k \<or>
                            is_some_and (as_str v) (header_value_is_credential lc)) kvs
      | Some (JArray items) \<Rightarrow>
          list_ex (\<lambda>it. is_some_and (jget_str it ''name'') (header_name_is_credential lc) \<or>
                        is_some_and (jget_str it ''value'') (header_value_is_credential lc)) items
      | _ \<Rightarrow> False)"

definition query_param_is_credential :: "(string \<Rightarrow> string) \<Rightarrow> string \<Rightarrow> bool" where
  "query_param_is_credential lc name \<longleftrightarrow>
     lc name \<in> set AUTH_QUERY_EXACT \<or> list_ex (\<lambda>sub. contains_str (lc name) sub) AUTH_QUERY_SUBSTRINGS"

definition url_contains_credential_params ::
  "(string \<Rightarrow> parsed_url option) \<Rightarrow> (string \<Rightarrow> string) \<Rightarrow> json \<Rightarrow> bool" where
  "url_contains_credential_params parse lc params \<longleftrightarrow>
     (case jget_str params ''url'' of
        None \<Rightarrow> False
      | Some u \<Rightarrow> (case parse u of
                     None \<Rightarrow> False
                   | Some p \<Rightarrow> list_ex (\<lambda>(name, _). query_param_is_credential lc name) (pu_query_pairs p)))"

definition url_contains_userinfo :: "(string \<Rightarrow> parsed_url option) \<Rightarrow> json \<Rightarrow> bool" where
  "url_contains_userinfo parse params \<longleftrightarrow>
     (case jget_str params ''url'' of
        None \<Rightarrow> False
      | Some u \<Rightarrow> (case parse u of
                     None \<Rightarrow> False
                   | Some p \<Rightarrow> pu_username p \<noteq> [] \<or> pu_password p \<noteq> None))"

definition params_contain_manual_credentials ::
  "(string \<Rightarrow> parsed_url option) \<Rightarrow> (string \<Rightarrow> string) \<Rightarrow> json \<Rightarrow> bool" where
  "params_contain_manual_credentials parse lc params \<longleftrightarrow>
     headers_contain_credentials lc params \<or> url_contains_credential_params parse lc params \<or>
     url_contains_userinfo parse params"

text \<open>The two encodings of headers are judged alike: an object and the array of its pairs.\<close>

lemma header_encodings_agree:
  "headers_contain_credentials lc (JObject [(''headers'', JArray
      (map (\<lambda>(k, v). JObject [(''name'', JString k), (''value'', v)]) kvs))])
   = headers_contain_credentials lc (JObject [(''headers'', JObject kvs)])"
  by (induction kvs) (auto simp: headers_contain_credentials_def jget_def jget_str_def as_str_def is_some_and_def)

end
