(* ===== verification/Token_Store.thy ===== *)
theory Token_Store
  imports Claw_Prelude
begin

text \<open>
  Worker authentication of \<open>src/orchestrator/auth.rs\<close>: the token store, the hexadecimal tokens, the
  middleware and the extraction of the job from a path. The random bytes are an argument,
  \<open>Uuid::parse_str\<close> is the parameter \<open>parse\<close>, and the constant-time comparison is equality. Lemmas:
  a worker's request passes only with the token last issued for the very job in its path and
  not revoked since; tokens of different random bytes differ.
\<close>

record credential_grant =
  cg_secret_name :: string
  env_var :: string

record token_store =
  tokens :: "(uuid, string) hmap"
  credential_grants :: "(uuid, credential_grant list) hmap"

definition new_token_store :: token_store where
  "new_token_store = \<lparr>tokens = [], credential_grants = []\<rparr>"

definition hex_digit :: "nat \<Rightarrow> char" where
  "hex_digit n = (if n < 10 then char_of (48 + n) else char_of (87 + n))"

definition hex_byte :: "8 word \<Rightarrow> string" where
  "hex_byte b = [hex_digit (unat b div 16), hex_digit (unat b mod 16)]"

definition generate_token :: "8 word list \<Rightarrow> string" where
  "generate_token bytes = foldl (\<lambda>s b. s @ hex_byte b) [] bytes"

definition create_token :: "8 word list \<Rightarrow> uuid \<Rightarrow> token_store \<Rightarrow> string \<times> token_store" where
  "create_token bytes job st =
     (let token = generate_token bytes in (token, st\<lparr>tokens := AList.update job token (tokens st)\<rparr>))"

definition validate_token :: "uuid \<Rightarrow> string \<Rightarrow> token_store \<Rightarrow> bool" where
  "validate_token job token st = (case map_of (tokens st) job of Some stored \<Rightarrow> stored = token | None \<Rightarrow> False)"

definition revoke :: "uuid \<Rightarrow> token_store \<Rightarrow> token_store" where
  "revoke job st = st\<lparr>tokens := AList.delete job (tokens st), credential_grants := AList.delete job (credential_grants st)\<rparr>"

definition active_tokens :: "token_store \<Rightarrow> nat" where
  "active_tokens st = length (tokens st)"

definition store_grants :: "uuid \<Rightarrow> credential_grant list \<Rightarrow> token_store \<Rightarrow> token_store" where
  "store_grants job grants st =
     (if grants \<noteq> [] then st\<lparr>credential_grants := AList.update job grants (credential_grants st)\<rparr> else st)"

definition get_grants :: "uuid \<Rightarrow> token_store \<Rightarrow> credential_grant list option" where
  "get_grants job st = map_of (credential_grants st) job"

definition extract_job_id_from_path :: "(string \<Rightarrow> uuid option) \<Rightarrow> string \<Rightarrow> uuid option" where
  "extract_job_id_from_path parse path =
     (case split_on (\<lambda>c. c = CHR ''/'') (dropWhile (\<lambda>c. c = CHR ''/'') path) of
        p0 # p1 # _ \<Rightarrow> if p0 = ''worker'' then parse p1 else None
      | _ \<Rightarrow> None)"

datatype StatusCode = BAD_REQUEST | UNAUTHORIZED

text \<open>The \<open>authorization\<close> header as text, if there is one; \<open>Ok\<close> hands the request on.\<close>

definition worker_auth_middleware ::
  "(string \<Rightarrow> uuid option) \<Rightarrow> token_store \<Rightarrow> string \<Rightarrow> string option \<Rightarrow> (StatusCode, unit) result" where
  "worker_auth_middleware parse st path header =
     (case extract_job_id_from_path parse path of
        None \<Rightarrow> Err BAD_REQUEST
      | Some job \<Rightarrow>
          (case Option.bind header (strip_prefix ''Bearer '') of
             None \<Rightarrow> Err UNAUTHORIZED
           | Some token \<Rightarrow> if \<not> validate_token job token st then Err UNAUTHORIZED else Ok ()))"

subsection \<open>Tokens\<close>

lemma hex_digit_inj: "m < 16 \<Longrightarrow> n < 16 \<Longrightarrow> hex_digit m = hex_digit n \<Longrightarrow> m = n"
  by (auto simp: hex_digit_def split: if_splits dest!: arg_cong [of _ _ "of_char :: char \<Rightarrow> nat"])

lemma hex_byte_inj: "hex_byte a = hex_byte b \<Longrightarrow> a = b"
proof -
  assume eq: "hex_byte a = hex_byte b"
  have lt: "unat a < 256" "unat b < 256" using unsigned_less [of a] unsigned_less [of b] by simp_all
  then have "unat a div 16 = unat b div 16" "unat a mod 16 = unat b mod 16"
    using eq by (auto simp: hex_byte_def intro: hex_digit_inj)
  then have "unat a = unat b" by (metis div_mult_mod_eq)
  then show "a = b" by (simp add: unsigned_word_eqI)
qed

lemma generate_token_concat: "generate_token bytes = concat (map hex_byte bytes)"
proof -
  have "foldl (\<lambda>s b. s @ hex_byte b) acc bytes = acc @ concat (map hex_byte bytes)" for acc
    by (induction bytes arbitrary: acc) auto
  then show ?thesis by (simp add: generate_token_def)
qed

lemma generate_token_inj: "generate_token xs = generate_token ys \<Longrightarrow> xs = ys"
  unfolding generate_token_concat
proof (induction xs arbitrary: ys)
  case Nil
  then show ?case by (cases ys) (auto simp: hex_byte_def)
next
  case (Cons x xs)
  note prems = Cons.prems and IH = Cons.IH
  show ?case
  proof (cases ys)
    case (Cons y ys')
    with prems have "hex_byte x = hex_byte y" "concat (map hex_byte xs) = concat (map hex_byte ys')"
      by (simp_all add: hex_byte_def [of x] hex_byte_def [of y])
    with Cons IH hex_byte_inj show ?thesis by blast
  qed (use prems in \<open>simp add: hex_byte_def\<close>)
qed

lemma generate_token_length: "length (generate_token bytes) = 2 * length bytes"
  unfolding generate_token_concat by (induction bytes) (auto simp: hex_byte_def)

subsection \<open>A run of the store\<close>

datatype token_op = Create "8 word list" uuid | Revoke uuid | StoreGrants uuid "credential_grant list"

fun run_op :: "token_op \<Rightarrow> token_store \<Rightarrow> token_store" where
  "run_op (Create bytes job) st = snd (create_token bytes job st)"
| "run_op (Revoke job) st = revoke job st"
| "run_op (StoreGrants job gs) st = store_grants job gs st"

text \<open>The bytes of the token a job holds after a history, newest operation first.\<close>

fun issued :: "uuid \<Rightarrow> token_op list \<Rightarrow> 8 word list option" where
  "issued job [] = None"
| "issued job (Create bytes j # ops) = (if j = job then Some bytes else issued job ops)"
| "issued job (Revoke j # ops) = (if j = job then None else issued job ops)"
| "issued job (StoreGrants _ _ # ops) = issued job ops"

lemma tokens_issued: "map_of (tokens (fold run_op ops new_token_store)) job = map_option generate_token (issued job (rev ops))"
proof (induction ops rule: rev_induct)
  case Nil
  then show ?case by (simp add: new_token_store_def)
next
  case (snoc op ops)
  then show ?case
    by (cases op) (auto simp: create_token_def revoke_def store_grants_def update_conv' delete_conv' Let_def)
qed

lemma bearer_iff: "Option.bind header (strip_prefix ''Bearer '') = Some t \<longleftrightarrow> header = Some (''Bearer '' @ t)"
  by (cases header) (simp_all only: Option.bind.simps strip_prefix_Some_iff option.inject, simp_all)

text \<open>
  C2: After any history of issued, revoked and granted credentials, the middleware hands on a
  worker's request exactly when its path names a job, its header carries the token made from the
  bytes last drawn for that job, and the job was not revoked since; and different bytes make
  different tokens, so that neither another job's token nor a replaced one passes.
\<close>

theorem worker_auth_exact:
  "(worker_auth_middleware parse (fold run_op ops new_token_store) path header = Ok () \<longleftrightarrow>
     (\<exists>job bytes. extract_job_id_from_path parse path = Some job \<and> issued job (rev ops) = Some bytes \<and>
        header = Some (''Bearer '' @ generate_token bytes))) \<and> inj generate_token"
proof
  show "inj generate_token" by (rule injI) (rule generate_token_inj)
  let ?st = "fold run_op ops new_token_store"
  show "worker_auth_middleware parse ?st path header = Ok () \<longleftrightarrow>
     (\<exists>job bytes. extract_job_id_from_path parse path = Some job \<and> issued job (rev ops) = Some bytes \<and>
        header = Some (''Bearer '' @ generate_token bytes))"
  proof (cases "Option.bind header (strip_prefix ''Bearer '')")
    case None
    then have "header \<noteq> Some (''Bearer '' @ t)" for t using bearer_iff [of header t] by simp
    with None show ?thesis by (auto simp: worker_auth_middleware_def split: option.split)
  next
    case (Some t)
    then have h: "header = Some (''Bearer '' @ t)" by (simp only: bearer_iff)
    have "worker_auth_middleware parse ?st path header = Ok () \<longleftrightarrow>
        (\<exists>job. extract_job_id_from_path parse path = Some job \<and> validate_token job t ?st)"
      unfolding worker_auth_middleware_def Some by (simp split: option.split)
    then show ?thesis
      unfolding h by (auto simp: validate_token_def tokens_issued split: option.split)
  qed
qed

end
