(* ===== verification/Skill_Selection.thy ===== *)
theory Skill_Selection
  imports Chat_Message "HOL-Library.Sublist" "HOL-Library.Multiset"
begin

text \<open>
  Skills: \<open>src/skills/mod.rs\<close> (the data model, trust order and activation limits),
  \<open>src/skills/selector.rs\<close> (the deterministic scoring that selects the active skills) and
  \<open>src/skills/attenuation.rs\<close> (the tool ceiling that the least trusted active skill imposes).

  Regular expressions are an external crate: a compiled pattern is a value of a type parameter and
  matching is the argument \<open>is_match\<close>; \<open>compile\<close> builds one from its text or fails.  The Unicode
  tables behind \<open>to_lowercase\<close>, \<open>split_whitespace\<close> and \<open>trim_matches\<close> of non-alphanumeric
  characters are the arguments \<open>lower\<close>, \<open>split_ws\<close> and \<open>trim\<close>.  Scores are \<open>u32\<close> words and the
  declared token count, which comes from the skill's own file, is a 64-bit \<open>usize\<close> word, so doubling it can wrap.
\<close>

subsection \<open>Data model\<close>

datatype SkillTrust = Installed | Trusted

instantiation SkillTrust :: linorder
begin

definition less_eq_SkillTrust :: "SkillTrust \<Rightarrow> SkillTrust \<Rightarrow> bool" where
  "less_eq_SkillTrust a b = (a = Installed \<or> b = Trusted)"

definition less_SkillTrust :: "SkillTrust \<Rightarrow> SkillTrust \<Rightarrow> bool" where
  "less_SkillTrust a b = (a = Installed \<and> b = Trusted)"

instance
proof
  fix x y z :: SkillTrust
  show "x < y \<longleftrightarrow> x \<le> y \<and> \<not> y \<le> x"
    by (cases x; cases y) (simp_all add: less_SkillTrust_def less_eq_SkillTrust_def)
  show "x \<le> x" by (cases x) (simp_all add: less_eq_SkillTrust_def)
  show "x \<le> y \<Longrightarrow> y \<le> z \<Longrightarrow> x \<le> z"
    by (cases x; cases y; cases z) (simp_all add: less_eq_SkillTrust_def)
  show "x \<le> y \<Longrightarrow> y \<le> x \<Longrightarrow> x = y"
    by (cases x; cases y) (simp_all add: less_eq_SkillTrust_def)
  show "x \<le> y \<or> y \<le> x"
    by (cases x; cases y) (simp_all add: less_eq_SkillTrust_def)
qed

end

datatype SkillSource = SrcWorkspace string | SrcUser string | SrcBundled string

record activation_criteria =
  act_keywords :: "string list"
  exclude_keywords :: "string list"
  patterns :: "string list"
  tags :: "string list"
  max_context_tokens :: u64

record gating_requirements =
  req_bins :: "string list"
  req_env :: "string list"
  req_config :: "string list"

record openclaw_meta =
  requires :: gating_requirements

record skill_metadata =
  openclaw :: "openclaw_meta option"

record skill_manifest =
  sk_name :: string
  sk_version :: string
  sk_description :: string
  activation :: activation_criteria
  metadata :: "skill_metadata option"

record 're loaded_skill =
  manifest :: skill_manifest
  prompt_content :: string
  trust :: SkillTrust
  source :: SkillSource
  content_hash :: string
  compiled_patterns :: "'re list"
  lowercased_keywords :: "string list"
  lowercased_exclude_keywords :: "string list"
  lowercased_tags :: "string list"

definition MAX_KEYWORDS_PER_SKILL :: nat where [simp]: "MAX_KEYWORDS_PER_SKILL = 20"
definition MAX_PATTERNS_PER_SKILL :: nat where [simp]: "MAX_PATTERNS_PER_SKILL = 5"
definition MAX_TAGS_PER_SKILL :: nat where [simp]: "MAX_TAGS_PER_SKILL = 10"
definition MIN_KEYWORD_TAG_LENGTH :: nat where [simp]: "MIN_KEYWORD_TAG_LENGTH = 3"

text \<open>\<open>retain\<close> on the minimum length, then \<open>truncate\<close>; patterns are only truncated.\<close>

definition enforce_limits :: "activation_criteria \<Rightarrow> activation_criteria" where
  "enforce_limits a =
     a\<lparr>act_keywords := take MAX_KEYWORDS_PER_SKILL
         (filter (\<lambda>k. length k \<ge> MIN_KEYWORD_TAG_LENGTH) (act_keywords a)),
       exclude_keywords := take MAX_KEYWORDS_PER_SKILL
         (filter (\<lambda>k. length k \<ge> MIN_KEYWORD_TAG_LENGTH) (exclude_keywords a)),
       patterns := take MAX_PATTERNS_PER_SKILL (patterns a),
       tags := take MAX_TAGS_PER_SKILL
         (filter (\<lambda>t. length t \<ge> MIN_KEYWORD_TAG_LENGTH) (tags a))\<rparr>"

definition compile_patterns :: "(string \<Rightarrow> 're option) \<Rightarrow> string list \<Rightarrow> 're list" where
  "compile_patterns compile ps = List.map_filter compile ps"

subsection \<open>Scoring\<close>

definition MAX_KEYWORD_SCORE :: u32 where "MAX_KEYWORD_SCORE = 30"
definition MAX_TAG_SCORE :: u32 where "MAX_TAG_SCORE = 15"
definition MAX_REGEX_SCORE :: u32 where "MAX_REGEX_SCORE = 40"

lemmas max_score_defs = MAX_KEYWORD_SCORE_def MAX_TAG_SCORE_def MAX_REGEX_SCORE_def

definition keyword_points ::
  "(string \<Rightarrow> string list) \<Rightarrow> (string \<Rightarrow> string) \<Rightarrow> string \<Rightarrow> string \<Rightarrow> u32" where
  "keyword_points split_ws trim ml kw =
     (if \<exists>w \<in> set (split_ws ml). trim w = kw then 10
      else if contains_str ml kw then 5 else 0)"

definition tag_points :: "string \<Rightarrow> string \<Rightarrow> u32" where
  "tag_points ml t = (if contains_str ml t then 3 else 0)"

definition score_skill ::
  "(string \<Rightarrow> string list) \<Rightarrow> (string \<Rightarrow> string) \<Rightarrow> ('re \<Rightarrow> string \<Rightarrow> bool) \<Rightarrow>
   're loaded_skill \<Rightarrow> string \<Rightarrow> string \<Rightarrow> u32" where
  "score_skill split_ws trim is_match sk ml mo =
     (if \<exists>x \<in> set (lowercased_exclude_keywords sk). contains_str ml x then 0
      else
        let ks = fold (\<lambda>kw s. s + keyword_points split_ws trim ml kw) (lowercased_keywords sk) 0;
            ts = fold (\<lambda>t s. s + tag_points ml t) (lowercased_tags sk) 0;
            rs = fold (\<lambda>re s. s + (if is_match re mo then 20 else 0)) (compiled_patterns sk) 0
        in min ks MAX_KEYWORD_SCORE + min ts MAX_TAG_SCORE + min rs MAX_REGEX_SCORE)"

record 're scored_skill =
  skill :: "'re loaded_skill"
  score :: u32

subsection \<open>Selection\<close>

text \<open>
  The size estimate \<open>(len as f64 * 0.25) as usize\<close> is the length divided by four, rounded down
  (exact for every length below \<open>2^53\<close>).
\<close>

definition approx_tokens :: "'re loaded_skill \<Rightarrow> nat" where
  "approx_tokens sk = length (prompt_content sk) div 4"

definition token_cost :: "'re loaded_skill \<Rightarrow> nat" where
  "token_cost sk =
     (let declared = max_context_tokens (activation (manifest sk));
          raw = (if approx_tokens sk > unat (declared * 2) then approx_tokens sk else unat declared)
      in max raw 1)"

fun take_budget ::
  "nat \<Rightarrow> nat \<Rightarrow> 're loaded_skill list \<Rightarrow> 're scored_skill list \<Rightarrow> 're loaded_skill list" where
  "take_budget max_candidates budget acc [] = acc"
| "take_budget max_candidates budget acc (e # es) =
     (if length acc \<ge> max_candidates then acc
      else if token_cost (skill e) \<le> budget
      then take_budget max_candidates (budget - token_cost (skill e)) (acc @ [skill e]) es
      else take_budget max_candidates budget acc es)"

definition score_all ::
  "('re loaded_skill \<Rightarrow> u32) \<Rightarrow> 're loaded_skill list \<Rightarrow> 're scored_skill list" where
  "score_all sc sks =
     filter (\<lambda>e. score e > 0) (map (\<lambda>sk. \<lparr>skill = sk, score = sc sk\<rparr>) sks)"

definition prefilter_skills ::
  "(string \<Rightarrow> string) \<Rightarrow> (string \<Rightarrow> string list) \<Rightarrow> (string \<Rightarrow> string) \<Rightarrow>
   ('re \<Rightarrow> string \<Rightarrow> bool) \<Rightarrow> string \<Rightarrow> 're loaded_skill list \<Rightarrow> nat \<Rightarrow> nat \<Rightarrow>
   're loaded_skill list" where
  "prefilter_skills lower split_ws trim is_match msg available max_candidates max_tokens =
     (if available = [] \<or> msg = [] then []
      else
        let scored = score_all (\<lambda>sk. score_skill split_ws trim is_match sk (lower msg) msg) available
        in take_budget max_candidates max_tokens []
             (sort_key (\<lambda>e. - int (unat (score e))) scored))"

subsection \<open>Attenuation\<close>

definition READ_ONLY_TOOLS :: "string list" where
  "READ_ONLY_TOOLS =
     [''memory_search'', ''memory_read'', ''memory_tree'', ''time'', ''echo'', ''json'',
      ''skill_list'', ''skill_search'']"

record attenuation_result =
  att_tools :: "tool_definition list"
  min_trust :: SkillTrust
  explanation :: string
  removed_tools :: "string list"

definition split_tools ::
  "tool_definition list \<Rightarrow> tool_definition list \<times> string list" where
  "split_tools tools =
     fold (\<lambda>t (kept, removed).
             if td_name t \<in> set READ_ONLY_TOOLS then (kept @ [t], removed)
             else (kept, removed @ [td_name t])) tools ([], [])"

definition iter_min :: "SkillTrust list \<Rightarrow> SkillTrust option" where
  "iter_min ts = (case ts of [] \<Rightarrow> None | x # xs \<Rightarrow> Some (fold min xs x))"

definition attenuate_tools ::
  "tool_definition list \<Rightarrow> 're loaded_skill list \<Rightarrow> attenuation_result" where
  "attenuate_tools tools active =
     (if active = [] then
        \<lparr>att_tools = tools, min_trust = Trusted,
         explanation = ''No skills active, all tools available'', removed_tools = []\<rparr>
      else
        let mt = (case iter_min (map trust active) of None \<Rightarrow> Trusted | Some t \<Rightarrow> t) in
        case mt of
          Trusted \<Rightarrow>
            \<lparr>att_tools = tools, min_trust = mt,
             explanation = ''All active skills are trusted (full trust), all tools available'',
             removed_tools = []\<rparr>
        | Installed \<Rightarrow>
            let (kept, removed) = split_tools tools in
            \<lparr>att_tools = kept, min_trust = mt,
             explanation =
               ''Installed skill present: restricted to read-only tools, removed ''
               @ show_nat (length removed) @ '' tool(s): '' @ join_str '', '' removed,
             removed_tools = removed\<rparr>)"

text \<open>
  One turn of the dispatcher: the skills are selected for the message and the tool list offered to
  the model is attenuated by them (\<open>before_llm_call\<close>).
\<close>

definition offered_tools ::
  "(string \<Rightarrow> string) \<Rightarrow> (string \<Rightarrow> string list) \<Rightarrow> (string \<Rightarrow> string) \<Rightarrow>
   ('re \<Rightarrow> string \<Rightarrow> bool) \<Rightarrow> string \<Rightarrow> 're loaded_skill list \<Rightarrow> nat \<Rightarrow> nat \<Rightarrow>
   tool_definition list \<Rightarrow> tool_definition list" where
  "offered_tools lower split_ws trim is_match msg available max_candidates max_tokens tool_defs =
     (let active =
            prefilter_skills lower split_ws trim is_match msg available max_candidates max_tokens
      in if active \<noteq> [] then att_tools (attenuate_tools tool_defs active) else tool_defs)"

subsection \<open>Activation limits\<close>

lemma filter_take_idem: "take n (filter P (take n (filter P xs))) = take n (filter P xs)"
proof -
  have "P x" if "x \<in> set (take n (filter P xs))" for x
    using in_set_takeD [OF that] by simp
  then have "filter P (take n (filter P xs)) = take n (filter P xs)"
    by (rule filter_True [OF ballI])
  then show ?thesis by (simp only: take_take min.idem)
qed

text \<open>Enforcing the limits twice is enforcing them once, so a reload changes nothing.\<close>

lemma enforce_limits_idem: "enforce_limits (enforce_limits a) = enforce_limits a"
  by (simp add: enforce_limits_def filter_take_idem
      del: MAX_KEYWORDS_PER_SKILL_def MAX_TAGS_PER_SKILL_def MIN_KEYWORD_TAG_LENGTH_def)

lemma enforce_limits_compiled:
  "length (compile_patterns compile (patterns (enforce_limits a))) \<le> MAX_PATTERNS_PER_SKILL"
proof -
  have "length (compile_patterns compile ps) \<le> length ps" for ps
    by (simp add: compile_patterns_def map_filter_def length_filter_le)
  from this [of "patterns (enforce_limits a)"] show ?thesis by (simp add: enforce_limits_def)
qed

subsection \<open>Lemmas on scoring\<close>

lemma min_word_le: "min (a :: u32) b \<le> b"
  by simp

lemma capped_sum_bound:
  fixes a b c :: u32
  assumes "a \<le> 30" "b \<le> 15" "c \<le> 40"
  shows "unat (a + b + c) = unat a + unat b + unat c" "a + b + c \<le> 85"
proof -
  have n: "unat a \<le> 30" "unat b \<le> 15" "unat c \<le> 40"
    using assms by (simp_all add: word_le_nat_alt)
  have ab: "unat (a + b) = unat a + unat b"
    using n by (subst unat_add_lem [symmetric]) simp
  show abc: "unat (a + b + c) = unat a + unat b + unat c"
    using n ab by (subst unat_add_lem [THEN iffD1]) simp_all
  show "a + b + c \<le> 85"
    using n abc by (simp add: word_le_nat_alt)
qed

lemma score_bound: "score_skill sw tr im sk ml mo \<le> 85"
proof -
  have "min x MAX_KEYWORD_SCORE + min y MAX_TAG_SCORE + min z MAX_REGEX_SCORE \<le> 85" for x y z
    by (rule capped_sum_bound(2)) (simp_all add: max_score_defs)
  then show ?thesis by (simp add: score_skill_def Let_def)
qed

lemma score_vetoed:
  "x \<in> set (lowercased_exclude_keywords sk) \<Longrightarrow> contains_str ml x \<Longrightarrow>
   score_skill sw tr im sk ml mo = 0"
  by (auto simp: score_skill_def)

subsection \<open>Lemmas on the budget loop\<close>

lemma token_cost_pos: "1 \<le> token_cost sk"
  by (simp add: token_cost_def Let_def)

lemma unat_double_le: "unat ((d :: u64) * 2) \<le> 2 * unat d"
  by (simp add: unat_mult_lem unat_word_ariths(2) mult.commute)

lemma approx_le_cost: "approx_tokens sk \<le> 2 * token_cost sk"
  using unat_double_le [of "max_context_tokens (activation (manifest sk))"]
  by (auto simp: token_cost_def Let_def max_def)

lemma take_budget_split:
  "\<exists>ys. take_budget m b acc es = acc @ ys \<and> subseq ys (map skill es)
     \<and> sum_list (map token_cost ys) \<le> b \<and> length ys \<le> m - length acc"
proof (induction m b acc es rule: take_budget.induct)
  case (1 m b acc)
  then show ?case by simp
next
  case (2 m b acc e es)
  consider "length acc \<ge> m" | "length acc < m" "token_cost (skill e) \<le> b"
    | "length acc < m" "\<not> token_cost (skill e) \<le> b" by linarith
  then show ?case
  proof cases
    case 1
    then show ?thesis by (intro exI [of _ "[]"]) simp
  next
    case 2
    with "2.IH"(1) obtain ys where
      "take_budget m (b - token_cost (skill e)) (acc @ [skill e]) es = (acc @ [skill e]) @ ys"
      "subseq ys (map skill es)" "sum_list (map token_cost ys) \<le> b - token_cost (skill e)"
      "length ys \<le> m - length (acc @ [skill e])" by auto
    with 2 show ?thesis by (intro exI [of _ "skill e # ys"]) auto
  next
    case 3
    with "2.IH"(2) obtain ys where
      "take_budget m b acc es = acc @ ys" "subseq ys (map skill es)"
      "sum_list (map token_cost ys) \<le> b" "length ys \<le> m - length acc" by auto
    with 3 show ?thesis by (intro exI [of _ ys]) auto
  qed
qed

text \<open>The greedy loop leaves out a skill only for want of room.\<close>

lemma take_budget_greedy:
  assumes "take_budget m b acc es = acc @ ys" "length acc + length ys < m" "e \<in> set es"
    "skill e \<notin> set ys"
  shows "b < sum_list (map token_cost ys) + token_cost (skill e)"
  using assms
proof (induction m b acc es arbitrary: ys rule: take_budget.induct)
  case (2 m b acc x es)
  show ?case
  proof (cases "token_cost (skill x) \<le> b")
    case True
    obtain zs where zs:
      "take_budget m (b - token_cost (skill x)) (acc @ [skill x]) es = (acc @ [skill x]) @ zs"
      using take_budget_split [of m "b - token_cost (skill x)" "acc @ [skill x]" es] by blast
    with True 2 have ys: "ys = skill x # zs" by auto
    then have "b - token_cost (skill x) < sum_list (map token_cost zs) + token_cost (skill e)"
      using 2 True zs by (intro "2.IH"(1)) auto
    with ys True show ?thesis by simp
  next
    case False
    then have *: "take_budget m b acc es = acc @ ys" using 2 by simp
    show ?thesis
    proof (cases "e \<in> set es")
      case True
      with False 2 * show ?thesis by (intro "2.IH"(2)) auto
    next
      case False
      with 2(5) have "e = x" by simp
      with \<open>\<not> token_cost (skill x) \<le> b\<close> show ?thesis by simp
    qed
  qed
qed simp

lemma score_all_mem:
  "e \<in> set (score_all sc sks) \<longleftrightarrow> skill e \<in> set sks \<and> score e = sc (skill e) \<and> sc (skill e) > 0"
proof -
  have "skill e \<in> set sks \<Longrightarrow> score e = sc (skill e) \<Longrightarrow>
      e \<in> (\<lambda>sk. \<lparr>skill = sk, score = sc sk\<rparr>) ` set sks"
    by (rule image_eqI [of _ _ "skill e"]) simp_all
  then show ?thesis by (auto simp: score_all_def)
qed

lemma sum_list_approx: "sum_list (map approx_tokens ys) \<le> 2 * sum_list (map token_cost ys)"
  by (induction ys) (auto intro: add_mono approx_le_cost)

subsection \<open>Lemmas on attenuation\<close>

lemma split_tools_eq:
  "split_tools tools =
     (filter (\<lambda>t. td_name t \<in> set READ_ONLY_TOOLS) tools,
      map td_name (filter (\<lambda>t. td_name t \<notin> set READ_ONLY_TOOLS) tools))"
proof -
  have "fold (\<lambda>t (kept, removed).
             if td_name t \<in> set READ_ONLY_TOOLS then (kept @ [t], removed)
             else (kept, removed @ [td_name t])) tools (k, r) =
     (k @ filter (\<lambda>t. td_name t \<in> set READ_ONLY_TOOLS) tools,
      r @ map td_name (filter (\<lambda>t. td_name t \<notin> set READ_ONLY_TOOLS) tools))" for k r
    by (induction tools arbitrary: k r) auto
  then show ?thesis by (simp add: split_tools_def)
qed

lemma SkillTrust_least: "Installed \<le> t" "t \<le> Trusted" "t \<le> Installed \<longleftrightarrow> t = Installed"
  by (auto simp: less_eq_SkillTrust_def)

lemma fold_min_Installed: "fold min ts t = Installed \<longleftrightarrow> t = Installed \<or> Installed \<in> set ts"
  by (induction ts arbitrary: t) (auto simp: min_def less_eq_SkillTrust_def)

lemma Installed_image: "Installed \<in> trust ` A \<longleftrightarrow> (\<exists>s \<in> A. trust s = Installed)"
  by (metis imageE imageI)

lemma iter_min_spec:
  assumes "active \<noteq> []"
  shows "iter_min (map trust active)
           = Some (if \<exists>s \<in> set active. trust s = Installed then Installed else Trusted)"
proof -
  obtain s ss where a: "active = s # ss" using assms by (cases active) auto
  have "fold min (map trust ss) (trust s) = Installed
          \<longleftrightarrow> (\<exists>s \<in> set active. trust s = Installed)"
    using fold_min_Installed [of "map trust ss" "trust s"] a by (auto simp: Installed_image)
  then have "fold min (map trust ss) (trust s)
          = (if \<exists>s \<in> set active. trust s = Installed then Installed else Trusted)"
    by (cases "fold min (map trust ss) (trust s)") (simp_all split: if_split)
  then show ?thesis by (simp add: iter_min_def a)
qed

lemma attenuate_tools_eq:
  "att_tools (attenuate_tools tools active) =
     (if \<exists>s \<in> set active. trust s = Installed
      then filter (\<lambda>t. td_name t \<in> set READ_ONLY_TOOLS) tools else tools)"
  "removed_tools (attenuate_tools tools active) =
     (if \<exists>s \<in> set active. trust s = Installed
      then map td_name (filter (\<lambda>t. td_name t \<notin> set READ_ONLY_TOOLS) tools) else [])"
  "min_trust (attenuate_tools tools active) =
     (if \<exists>s \<in> set active. trust s = Installed then Installed else Trusted)"
  by (cases "active = []"; simp add: attenuate_tools_def iter_min_spec split_tools_eq)+

subsection \<open>Properties\<close>

lemma subseq_mset: "subseq xs ys \<Longrightarrow> mset xs \<subseteq># mset ys"
proof (induction rule: list_emb.induct)
  case (list_emb_Cons xs ys y)
  then show ?case by (simp add: subset_mset.le_iff_add) (metis add_mset_add_single union_assoc)
qed simp_all

lemma subseq_sorted_wrt: "subseq xs ys \<Longrightarrow> sorted_wrt R ys \<Longrightarrow> sorted_wrt R xs"
proof (induction rule: list_emb.induct)
  case (list_emb_Cons2 x y xs ys)
  then show ?case using list_emb_set [of "(=)" xs ys] by auto
qed simp_all

lemma score_all_mset: "mset (map skill (score_all sc sks)) \<subseteq># mset sks"
proof (induction sks)
  case (Cons a sks)
  have "mset sks \<subseteq># add_mset a (mset sks)" by simp
  with Cons have "mset (map skill (score_all sc sks)) \<subseteq># add_mset a (mset sks)"
    by (rule subset_mset.order_trans)
  with Cons show ?case by (simp add: score_all_def)
qed (simp add: score_all_def)

lemma score_sorted:
  fixes sc :: "'re loaded_skill \<Rightarrow> u32" and sks :: "'re loaded_skill list"
  defines "es \<equiv> sort_key (\<lambda>e. - int (unat (score e))) (score_all sc sks)"
  shows "sorted_wrt (\<lambda>a b. sc b \<le> sc a) (map skill es)"
proof -
  have "sorted_wrt (\<lambda>a b. - int (unat (score a)) \<le> - int (unat (score b))) es"
    using sorted_sort_key [of "\<lambda>e. - int (unat (score e))" "score_all sc sks"]
    by (simp add: es_def sorted_map)
  then have "sorted_wrt (\<lambda>a b. sc (skill b) \<le> sc (skill a)) es"
    by (rule sorted_wrt_mono_rel [rotated])
      (auto simp: es_def score_all_mem word_le_def)
  then show ?thesis by (simp add: sorted_wrt_map)
qed

text \<open>
  skill selection is a bounded, prioritised and greedy choice.  The selected skills are drawn
  from the available ones (with multiplicity), at most \<open>max_candidates\<close> of them, best score first;
  every selected skill scored between 1 and 85 and none of its exclusion words occurs in the message;
  their charged cost fits the context budget and, whatever token counts the skill files declare
  (doubling may wrap), the text they bring is at most twice the budget by the size estimate; and a
  scoring skill is left out of a selection that is not full only if its cost exceeds what remains.
\<close>

theorem prefilter_skills_spec:
  "let sel = prefilter_skills lower sw tr im msg available max_candidates max_tokens;
       sc = (\<lambda>sk. score_skill sw tr im sk (lower msg) msg)
   in mset sel \<subseteq># mset available \<and> length sel \<le> max_candidates
      \<and> sorted_wrt (\<lambda>a b. sc b \<le> sc a) sel
      \<and> (\<forall>s \<in> set sel. 0 < sc s \<and> sc s \<le> 85
            \<and> (\<forall>x \<in> set (lowercased_exclude_keywords s). \<not> contains_str (lower msg) x))
      \<and> sum_list (map token_cost sel) \<le> max_tokens
      \<and> sum_list (map approx_tokens sel) \<le> 2 * max_tokens
      \<and> (msg \<noteq> [] \<and> length sel < max_candidates \<longrightarrow>
           (\<forall>s \<in> set available - set sel. 0 < sc s \<longrightarrow>
              max_tokens < sum_list (map token_cost sel) + token_cost s))"
proof (cases "available = [] \<or> msg = []")
  case True
  then show ?thesis by (auto simp: prefilter_skills_def Let_def)
next
  case False
  define sc where "sc = (\<lambda>sk. score_skill sw tr im sk (lower msg) msg)"
  define es where "es = sort_key (\<lambda>e. - int (unat (score e))) (score_all sc available)"
  obtain ys where tb: "take_budget max_candidates max_tokens [] es = ys"
    and ss: "subseq ys (map skill es)" and cost: "sum_list (map token_cost ys) \<le> max_tokens"
    and len: "length ys \<le> max_candidates"
    using take_budget_split [of max_candidates max_tokens "[]" es] by auto
  have sel: "prefilter_skills lower sw tr im msg available max_candidates max_tokens = ys"
    using False tb by (simp add: prefilter_skills_def es_def sc_def)
  have "mset ys \<subseteq># mset (map skill es)" by (rule subseq_mset [OF ss])
  also have "mset (map skill es) = mset (map skill (score_all sc available))"
    by (simp add: es_def)
  also have "\<dots> \<subseteq># mset available" by (rule score_all_mset)
  finally have "mset ys \<subseteq># mset available" .
  moreover have "sorted_wrt (\<lambda>a b. sc b \<le> sc a) ys"
    using score_sorted ss unfolding es_def by (rule subseq_sorted_wrt [rotated])
  moreover have "0 < sc s \<and> sc s \<le> 85
      \<and> (\<forall>x \<in> set (lowercased_exclude_keywords s). \<not> contains_str (lower msg) x)"
    if "s \<in> set ys" for s
  proof -
    have "s \<in> set (map skill es)" using list_emb_set [OF ss that] by auto
    then have pos: "0 < sc s" by (auto simp: es_def score_all_mem)
    moreover have "sc s \<le> 85" unfolding sc_def by (rule score_bound)
    moreover have "\<not> contains_str (lower msg) x" if "x \<in> set (lowercased_exclude_keywords s)" for x
      using score_vetoed [OF that] pos unfolding sc_def by fastforce
    ultimately show ?thesis by blast
  qed
  moreover have "sum_list (map approx_tokens ys) \<le> 2 * max_tokens"
    using sum_list_approx [of ys] cost by linarith
  moreover have "max_tokens < sum_list (map token_cost ys) + token_cost s"
    if "length ys < max_candidates" "s \<in> set available - set ys" "0 < sc s" for s
  proof -
    have "\<lparr>skill = s, score = sc s\<rparr> \<in> set es" using that by (simp add: es_def score_all_mem)
    from take_budget_greedy [of max_candidates max_tokens "[]" es ys, OF _ _ this] tb that
    show ?thesis by simp
  qed
  ultimately show ?thesis
    using cost len by (simp add: sel Let_def flip: sc_def)
qed

definition sample_skill :: "string \<Rightarrow> SkillTrust \<Rightarrow> u64 \<Rightarrow> unit loaded_skill" where
  "sample_skill kw t declared =
     \<lparr>manifest = \<lparr>sk_name = kw, sk_version = ''1.0.0'', sk_description = [],
        activation = \<lparr>act_keywords = [kw], exclude_keywords = [], patterns = [], tags = [],
          max_context_tokens = declared\<rparr>,
        metadata = None\<rparr>,
      prompt_content = ''prompt'', trust = t, source = SrcUser ''/tmp'', content_hash = [],
      compiled_patterns = [], lowercased_keywords = [kw], lowercased_exclude_keywords = [],
      lowercased_tags = []\<rparr>"

abbreviation sample_select :: "unit loaded_skill list \<Rightarrow> unit loaded_skill list" where
  "sample_select av \<equiv> prefilter_skills id (\<lambda>s. [s]) id (\<lambda>_ _. False) ''mail'' av 3 4000"

lemma sample_select_eq:
  "sample_select [sample_skill ''mail'' Installed 3000, sample_skill ''mail'' Trusted 2000]
     = [sample_skill ''mail'' Installed 3000]"
  by (simp add: prefilter_skills_def score_all_def score_skill_def keyword_points_def
      max_score_defs token_cost_def approx_tokens_def sample_skill_def)

theorem prefilter_skills_spec_witness:
  "sample_select [sample_skill ''mail'' Installed 3000, sample_skill ''mail'' Trusted 2000]
     = [sample_skill ''mail'' Installed 3000]
   \<and> 4000 < sum_list (map token_cost [sample_skill ''mail'' Installed 3000])
             + token_cost (sample_skill ''mail'' Trusted 2000)"
  using prefilter_skills_spec [of id "\<lambda>s. [s]" id "\<lambda>_ _. False" "''mail''"
      "[sample_skill ''mail'' Installed 3000, sample_skill ''mail'' Trusted 2000]" 3 4000]
  unfolding Let_def sample_select_eq
  by (simp add: score_skill_def keyword_points_def max_score_defs sample_skill_def)

text \<open>
  C22: authority attenuation.  If any active skill is merely installed, the tools offered are exactly
  the read-only ones in their order, the others are reported as removed and the reported trust is
  the lower one; otherwise every tool stays.  Activating more skills never adds a tool.  In a turn
  of the dispatcher the tools offered to the model are among the registered ones, and all of them
  are read-only as soon as the message selects an installed skill.
\<close>

theorem attenuation_ceiling:
  "let r = attenuate_tools tools active;
       sel = prefilter_skills lower sw tr im msg available max_candidates max_tokens;
       offered = offered_tools lower sw tr im msg available max_candidates max_tokens tools
   in (if \<exists>s \<in> set active. trust s = Installed
       then min_trust r = Installed
          \<and> att_tools r = filter (\<lambda>t. td_name t \<in> set READ_ONLY_TOOLS) tools
          \<and> removed_tools r = map td_name (filter (\<lambda>t. td_name t \<notin> set READ_ONLY_TOOLS) tools)
       else min_trust r = Trusted \<and> att_tools r = tools \<and> removed_tools r = [])
    \<and> set (att_tools (attenuate_tools tools (active @ added))) \<subseteq> set (att_tools r)
    \<and> set offered \<subseteq> set tools
    \<and> ((\<exists>s \<in> set sel. trust s = Installed) \<longrightarrow>
          (\<forall>t \<in> set offered. td_name t \<in> set READ_ONLY_TOOLS))"
  by (auto simp: Let_def attenuate_tools_eq offered_tools_def)

theorem attenuation_ceiling_witness:
  "list_all (\<lambda>t. td_name t \<in> set READ_ONLY_TOOLS) (offered_tools id (\<lambda>s. [s]) id (\<lambda>_ _. False) ''mail''
      [sample_skill ''mail'' Installed 3000, sample_skill ''mail'' Trusted 2000] 3 4000
      [\<lparr>td_name = ''shell'', td_description = [], td_parameters = JNull\<rparr>,
       \<lparr>td_name = ''time'', td_description = [], td_parameters = JNull\<rparr>])"
  using attenuation_ceiling [of
      "[\<lparr>td_name = ''shell'', td_description = [], td_parameters = JNull\<rparr>,
        \<lparr>td_name = ''time'', td_description = [], td_parameters = JNull\<rparr>]" "[]"
      id "\<lambda>s. [s]" id "\<lambda>_ _. False" "''mail''"
      "[sample_skill ''mail'' Installed 3000, sample_skill ''mail'' Trusted 2000]" 3 4000 "[]"]
  unfolding Let_def sample_select_eq list_all_iff
  by (elim conjE) (erule mp, simp add: sample_skill_def)

end
