(* ===== verification/Hooks.thy ===== *)
theory Hooks
  imports Claw_Prelude "HOL-Library.Multiset"
begin

text \<open>
  Lifecycle hooks: the events, outcomes and errors of \<open>src/hooks/hook.rs\<close> and the registry of
  \<open>src/hooks/registry.rs\<close>.

  A hook is a trait object, so it is a record of its methods; \<open>hk_execute\<close> is the method under
  \<open>tokio::time::timeout\<close>: \<open>None\<close> when the time is up, else its result.  It may act on the world \<open>'w\<close>.
  \<open>enc\<close> and \<open>dec\<close> are \<open>serde_json::to_string\<close> and \<open>from_str\<close>, \<open>fmt\<close> prints a duration.
  Lemmas: what a run of the registry returns, which hooks it executed and what it can change, and the
  order and uniqueness of the registered hooks.
\<close>

subsection \<open>Events and outcomes\<close>

datatype HookPoint =
  BeforeInbound | BeforeToolCall | BeforeOutbound | OnSessionStart | OnSessionEnd | TransformResponse

datatype HookEvent =
    InboundEvent string string string "string option"
  | ToolCallEvent string json string string
  | OutboundEvent string string string "string option"
  | SessionStartEvent string string
  | SessionEndEvent string string
  | ResponseTransformEvent string string string

fun hook_point :: "HookEvent \<Rightarrow> HookPoint" where
  "hook_point (InboundEvent _ _ _ _) = BeforeInbound"
| "hook_point (ToolCallEvent _ _ _ _) = BeforeToolCall"
| "hook_point (OutboundEvent _ _ _ _) = BeforeOutbound"
| "hook_point (SessionStartEvent _ _) = OnSessionStart"
| "hook_point (SessionEndEvent _ _) = OnSessionEnd"
| "hook_point (ResponseTransformEvent _ _ _) = TransformResponse"

fun apply_modification :: "(string \<Rightarrow> json option) \<Rightarrow> string \<Rightarrow> HookEvent \<Rightarrow> HookEvent" where
  "apply_modification dec v (InboundEvent u ch c t) = InboundEvent u ch v t"
| "apply_modification dec v (OutboundEvent u ch c t) = OutboundEvent u ch v t"
| "apply_modification dec v (ToolCallEvent n p u cx) =
     (case dec v of Some parsed \<Rightarrow> ToolCallEvent n parsed u cx | None \<Rightarrow> ToolCallEvent n p u cx)"
| "apply_modification dec v (ResponseTransformEvent u t r) = ResponseTransformEvent u t v"
| "apply_modification dec v (SessionStartEvent u s) = SessionStartEvent u s"
| "apply_modification dec v (SessionEndEvent u s) = SessionEndEvent u s"

fun extract_content :: "(json \<Rightarrow> string) \<Rightarrow> HookEvent \<Rightarrow> string" where
  "extract_content enc (InboundEvent u ch c t) = c"
| "extract_content enc (OutboundEvent u ch c t) = c"
| "extract_content enc (ToolCallEvent n p u cx) = enc p"
| "extract_content enc (ResponseTransformEvent u t r) = r"
| "extract_content enc (SessionStartEvent u s) = s"
| "extract_content enc (SessionEndEvent u s) = s"

datatype HookOutcome = HookContinue "string option" | HookReject string

definition hook_ok :: HookOutcome where "hook_ok = HookContinue None"
definition hook_modify :: "string \<Rightarrow> HookOutcome" where "hook_modify v = HookContinue (Some v)"

datatype HookFailureMode = FailOpen | FailClosed

datatype HookError = HookExecutionFailed string | HookTimeout duration | HookRejected string

fun show_hook_error :: "(duration \<Rightarrow> string) \<Rightarrow> HookError \<Rightarrow> string" where
  "show_hook_error fmt (HookExecutionFailed r) = ''Hook execution failed: '' @ r"
| "show_hook_error fmt (HookTimeout d) = ''Hook timed out after '' @ fmt d"
| "show_hook_error fmt (HookRejected r) = ''Hook rejected: '' @ r"

record 'w hook =
  hk_name :: string
  hk_points :: "HookPoint list"
  failure_mode :: HookFailureMode
  hk_timeout :: duration
  hk_execute :: "HookEvent \<Rightarrow> 'w \<Rightarrow> (HookError, HookOutcome) result option \<times> 'w"

subsection \<open>Registry\<close>

record 'w hook_entry =
  he_hook :: "'w hook"
  he_priority :: u32

type_synonym 'w hook_registry = "'w hook_entry list"

definition new_registry :: "'w hook_registry" where "new_registry = []"

fun replace_first :: "('a \<Rightarrow> bool) \<Rightarrow> ('a \<Rightarrow> 'a) \<Rightarrow> 'a list \<Rightarrow> 'a list" where
  "replace_first P f [] = []"
| "replace_first P f (x # xs) = (if P x then f x # xs else x # replace_first P f xs)"

definition register_with_priority :: "'w hook \<Rightarrow> u32 \<Rightarrow> 'w hook_registry \<Rightarrow> 'w hook_registry" where
  "register_with_priority h p hooks =
     sort_key (\<lambda>e. unat (he_priority e))
       (if \<exists>e \<in> set hooks. hk_name (he_hook e) = hk_name h
        then replace_first (\<lambda>e. hk_name (he_hook e) = hk_name h)
               (\<lambda>e. e\<lparr>he_hook := h, he_priority := p\<rparr>) hooks
        else hooks @ [\<lparr>he_hook = h, he_priority = p\<rparr>])"

definition register_hook :: "'w hook \<Rightarrow> 'w hook_registry \<Rightarrow> 'w hook_registry" where
  "register_hook h = register_with_priority h 100"

definition unregister :: "string \<Rightarrow> 'w hook_registry \<Rightarrow> bool \<times> 'w hook_registry" where
  "unregister nm hooks =
     (let hooks' = filter (\<lambda>e. hk_name (he_hook e) \<noteq> nm) hooks in (length hooks' < length hooks, hooks'))"

definition list_hooks :: "'w hook_registry \<Rightarrow> string list" where
  "list_hooks = map (\<lambda>e. hk_name (he_hook e))"

subsection \<open>Running the hooks of an event\<close>

fun run_chain ::
  "(string \<Rightarrow> json option) \<Rightarrow> (duration \<Rightarrow> string) \<Rightarrow> 'w hook list \<Rightarrow> HookEvent \<Rightarrow> 'w
     \<Rightarrow> (HookError, HookEvent) result \<times> 'w" where
  "run_chain dec fmt [] ev w = (Ok ev, w)"
| "run_chain dec fmt (h # hs) ev w =
     (case hk_execute h ev w of
        (Some (Ok (HookReject reason)), w1) \<Rightarrow> (Err (HookRejected reason), w1)
      | (Some (Ok (HookContinue (Some v))), w1) \<Rightarrow> run_chain dec fmt hs (apply_modification dec v ev) w1
      | (Some (Ok (HookContinue None)), w1) \<Rightarrow> run_chain dec fmt hs ev w1
      | (Some (Err err), w1) \<Rightarrow>
          (case failure_mode h of
             FailOpen \<Rightarrow> run_chain dec fmt hs ev w1
           | FailClosed \<Rightarrow>
               (Err (HookExecutionFailed (''Hook '' @ [CHR 0x27] @ hk_name h @ [CHR 0x27] @ '' failed: ''
                  @ show_hook_error fmt err)), w1))
      | (None, w1) \<Rightarrow>
          (case failure_mode h of
             FailOpen \<Rightarrow> run_chain dec fmt hs ev w1
           | FailClosed \<Rightarrow> (Err (HookTimeout (hk_timeout h)), w1)))"

definition matching_hooks :: "HookPoint \<Rightarrow> 'w hook_registry \<Rightarrow> 'w hook list" where
  "matching_hooks pt hooks = map he_hook (filter (\<lambda>e. pt \<in> set (hk_points (he_hook e))) hooks)"

definition run_hooks ::
  "(json \<Rightarrow> string) \<Rightarrow> (string \<Rightarrow> json option) \<Rightarrow> (duration \<Rightarrow> string) \<Rightarrow> 'w hook_registry \<Rightarrow> HookEvent
     \<Rightarrow> 'w \<Rightarrow> (HookError, HookOutcome) result \<times> 'w" where
  "run_hooks enc dec fmt hooks ev w =
     (let matching = matching_hooks (hook_point ev) hooks in
      if matching = [] then (Ok hook_ok, w)
      else case run_chain dec fmt matching ev w of
             (Err e, w1) \<Rightarrow> (Err e, w1)
           | (Ok ev1, w1) \<Rightarrow>
               (if extract_content enc ev1 \<noteq> extract_content enc ev
                then (Ok (hook_modify (extract_content enc ev1)), w1)
                else (Ok hook_ok, w1)))"

subsection \<open>The order of a run\<close>

text \<open>
  \<open>passes hs ev w ev' w'\<close>: the hooks \<open>hs\<close> are executed in order from \<open>ev\<close> and \<open>w\<close>, none of them stops the
  chain and they leave \<open>ev'\<close> and \<open>w'\<close>.  \<open>stops\<close> is what ends a chain at one hook.
\<close>

fun hook_effect :: "(string \<Rightarrow> json option) \<Rightarrow> (HookError, HookOutcome) result option \<Rightarrow> HookEvent \<Rightarrow> HookEvent" where
  "hook_effect dec (Some (Inr (HookContinue (Some v)))) ev = apply_modification dec v ev"
| "hook_effect dec _ ev = ev"

fun stops :: "(duration \<Rightarrow> string) \<Rightarrow> 'w hook \<Rightarrow> (HookError, HookOutcome) result option \<Rightarrow> HookError option" where
  "stops fmt h (Some (Inr (HookReject reason))) = Some (HookRejected reason)"
| "stops fmt h (Some (Inr (HookContinue _))) = None"
| "stops fmt h (Some (Inl err)) =
     (if failure_mode h = FailClosed
      then Some (HookExecutionFailed (''Hook '' @ [CHR 0x27] @ hk_name h @ [CHR 0x27] @ '' failed: ''
             @ show_hook_error fmt err))
      else None)"
| "stops fmt h None = (if failure_mode h = FailClosed then Some (HookTimeout (hk_timeout h)) else None)"

inductive passes ::
  "(string \<Rightarrow> json option) \<Rightarrow> (duration \<Rightarrow> string) \<Rightarrow> 'w hook list \<Rightarrow> HookEvent \<Rightarrow> 'w \<Rightarrow> HookEvent \<Rightarrow> 'w \<Rightarrow> bool"
  for dec fmt where
  passes_Nil: "passes dec fmt [] ev w ev w"
| passes_Cons:
    "hk_execute h ev w = (r, w1) \<Longrightarrow> stops fmt h r = None \<Longrightarrow>
     passes dec fmt hs (hook_effect dec r ev) w1 ev' w' \<Longrightarrow> passes dec fmt (h # hs) ev w ev' w'"

inductive_cases passes_NilE: "passes dec fmt [] ev w ev' w'"
inductive_cases passes_ConsE: "passes dec fmt (h # hs) ev w ev' w'"

lemma run_chain_Cons:
  "run_chain dec fmt (h # hs) ev w =
     (case hk_execute h ev w of (r, w1) \<Rightarrow>
        (case stops fmt h r of Some e \<Rightarrow> (Err e, w1) | None \<Rightarrow> run_chain dec fmt hs (hook_effect dec r ev) w1))"
  by (auto split: prod.split option.split sum.split HookOutcome.split HookFailureMode.split)

lemma run_chain_ok_iff: "run_chain dec fmt hs ev w = (Ok ev', w') \<longleftrightarrow> passes dec fmt hs ev w ev' w'"
proof (induction hs arbitrary: ev w)
  case Nil
  then show ?case by (auto intro: passes_Nil elim: passes_NilE)
next
  case (Cons h hs)
  then show ?case
    by (auto simp: run_chain_Cons simp del: run_chain.simps split: prod.split option.split
        intro: passes_Cons elim!: passes_ConsE)
qed

lemma run_chain_passes:
  "passes dec fmt pre ev w ev1 w1 \<Longrightarrow> run_chain dec fmt (pre @ hs) ev w = run_chain dec fmt hs ev1 w1"
  by (induction rule: passes.induct) (simp_all add: run_chain_Cons del: run_chain.simps)

lemma FailOpen_stops: "failure_mode h = FailOpen \<Longrightarrow> stops fmt h r = Some e \<Longrightarrow> \<exists>x. e = HookRejected x"
  by (cases "(fmt, h, r)" rule: stops.cases) auto

lemma run_chain_err:
  "run_chain dec fmt hs ev w = (Err e, w') \<Longrightarrow>
     \<exists>pre h post ev1 w1 r. hs = pre @ h # post \<and> passes dec fmt pre ev w ev1 w1 \<and>
        hk_execute h ev1 w1 = (r, w') \<and> stops fmt h r = Some e"
proof (induction hs arbitrary: ev w)
  case (Cons h hs)
  obtain r w1 where ex: "hk_execute h ev w = (r, w1)" by (cases "hk_execute h ev w")
  show ?case
  proof (cases "stops fmt h r")
    case None
    with Cons.prems ex have "run_chain dec fmt hs (hook_effect dec r ev) w1 = (Err e, w')"
      by (simp add: run_chain_Cons del: run_chain.simps)
    from Cons.IH [OF this] obtain pre k post ev1 w2 r2 where
      "hs = pre @ k # post" "passes dec fmt pre (hook_effect dec r ev) w1 ev1 w2"
      "hk_execute k ev1 w2 = (r2, w')" "stops fmt k r2 = Some e" by blast
    with passes_Cons [where h = h, OF ex None this(2)] show ?thesis
      by (intro exI [of _ "h # pre"] exI [of _ k] exI [of _ post] exI [of _ ev1] exI [of _ w2] exI [of _ r2]) simp
  next
    case (Some e')
    with Cons.prems ex have "e' = e" "w1 = w'" by (simp_all add: run_chain_Cons del: run_chain.simps)
    with ex Some show ?thesis
      by (intro exI [of _ "[]"] exI [of _ h] exI [of _ hs] exI [of _ ev] exI [of _ w] exI [of _ r])
        (simp add: passes_Nil)
  qed
qed simp

lemma run_chain_err_iff:
  "run_chain dec fmt hs ev w = (Err e, w') \<longleftrightarrow>
     (\<exists>pre h post ev1 w1 r. hs = pre @ h # post \<and> passes dec fmt pre ev w ev1 w1 \<and>
        hk_execute h ev1 w1 = (r, w') \<and> stops fmt h r = Some e \<and>
        (failure_mode h = FailOpen \<longrightarrow> (\<exists>reason. e = HookRejected reason)))"
  (is "?run \<longleftrightarrow> ?split")
proof
  assume ?run
  from run_chain_err [OF this] show ?split using FailOpen_stops by fast
next
  assume ?split
  then show ?run by (auto simp: run_chain_passes run_chain_Cons simp del: run_chain.simps)
qed

subsection \<open>What hooks may change\<close>

text \<open>Everything of an event but its content: kind, user, channel or tool, thread.\<close>

fun event_frame :: "HookEvent \<Rightarrow> HookPoint \<times> string list \<times> string option" where
  "event_frame (InboundEvent u ch c t) = (BeforeInbound, [u, ch], t)"
| "event_frame (ToolCallEvent n p u cx) = (BeforeToolCall, [n, u, cx], None)"
| "event_frame (OutboundEvent u ch c t) = (BeforeOutbound, [u, ch], t)"
| "event_frame (SessionStartEvent u s) = (OnSessionStart, [u, s], None)"
| "event_frame (SessionEndEvent u s) = (OnSessionEnd, [u, s], None)"
| "event_frame (ResponseTransformEvent u t r) = (TransformResponse, [u, t], None)"

lemma apply_modification_frame: "event_frame (apply_modification dec v ev) = event_frame ev"
  by (cases ev) (auto split: option.split)

lemma hook_effect_frame: "event_frame (hook_effect dec r ev) = event_frame ev"
  by (cases "(dec, r, ev)" rule: hook_effect.cases) (auto simp: apply_modification_frame)

lemma passes_frame: "passes dec fmt hs ev w ev' w' \<Longrightarrow> event_frame ev' = event_frame ev"
  by (induction rule: passes.induct) (simp_all add: hook_effect_frame)

text \<open>
  C35: a run of the registry executes the hooks of the event's point in order.  It continues exactly
  when every one of them lets the event pass, each seeing the event as the earlier ones left it; then
  the outcome carries the new content if it differs and only the content can have changed (kind, user,
  channel or tool and thread are kept).  It fails exactly when some hook rejects, or fails or runs out
  of time while failing closed, after all earlier ones let the event pass; later hooks are not executed
  and the world is the one that hook left.  A fail-open hook stops a run only by rejecting.
\<close>

theorem run_hooks_spec:
  "let hs = matching_hooks (hook_point ev) hooks in
    (run_hooks enc dec fmt hooks ev w = (Ok out, w') \<longleftrightarrow>
       (\<exists>ev'. passes dec fmt hs ev w ev' w' \<and> event_frame ev' = event_frame ev \<and>
          out = (if extract_content enc ev' = extract_content enc ev then hook_ok
                 else hook_modify (extract_content enc ev')))) \<and>
    (run_hooks enc dec fmt hooks ev w = (Err e, w') \<longleftrightarrow>
       (\<exists>pre h post ev1 w1 r. hs = pre @ h # post \<and> passes dec fmt pre ev w ev1 w1 \<and>
          hk_execute h ev1 w1 = (r, w') \<and> stops fmt h r = Some e \<and>
          (failure_mode h = FailOpen \<longrightarrow> (\<exists>reason. e = HookRejected reason))))"
proof -
  let ?hs = "matching_hooks (hook_point ev) hooks"
  have eq: "run_hooks enc dec fmt hooks ev w =
      (case run_chain dec fmt ?hs ev w of
         (Inl e, w1) \<Rightarrow> (Inl e, w1)
       | (Inr ev1, w1) \<Rightarrow> (Inr (if extract_content enc ev1 = extract_content enc ev then hook_ok
             else hook_modify (extract_content enc ev1)), w1))"
    by (auto simp: run_hooks_def Let_def split: prod.split sum.split)
  have "run_hooks enc dec fmt hooks ev w = (Inl e, w') \<longleftrightarrow> run_chain dec fmt ?hs ev w = (Inl e, w')"
    by (auto simp: eq split: prod.split sum.split)
  moreover have "run_hooks enc dec fmt hooks ev w = (Inr out, w') \<longleftrightarrow>
      (\<exists>ev'. run_chain dec fmt ?hs ev w = (Inr ev', w') \<and>
         out = (if extract_content enc ev' = extract_content enc ev then hook_ok
                else hook_modify (extract_content enc ev')))"
    by (auto simp: eq split: prod.split sum.split)
  ultimately show ?thesis
    unfolding Let_def run_chain_ok_iff run_chain_err_iff using passes_frame by fast
qed

definition veto_hook :: "unit hook" where
  "veto_hook = \<lparr>hk_name = ''veto'', hk_points = [BeforeInbound], failure_mode = FailOpen, hk_timeout = secs 5,
     hk_execute = (\<lambda>_ w. (Some (Ok (HookReject ''no'')), w))\<rparr>"

theorem run_hooks_spec_witness:
  "\<exists>pre h post. matching_hooks BeforeInbound (register_hook veto_hook new_registry) = pre @ h # post \<and>
     failure_mode h = FailOpen"
proof -
  let ?ev = "InboundEvent ''u'' ''cli'' ''hi'' None"
  let ?reg = "register_hook veto_hook new_registry"
  have "run_hooks (\<lambda>_. []) (\<lambda>_. None) (\<lambda>_. []) ?reg ?ev () = (Err (HookRejected ''no''), ())"
    by (simp add: run_hooks_def matching_hooks_def register_hook_def register_with_priority_def
        new_registry_def veto_hook_def)
  then obtain pre h post where m: "matching_hooks BeforeInbound ?reg = pre @ h # post"
    using run_hooks_spec [of ?ev ?reg "\<lambda>_. []" "\<lambda>_. None" "\<lambda>_. []" "()" hook_ok "()" "HookRejected ''no''",
      unfolded Let_def, THEN conjunct2, THEN iffD1] by auto
  then have "h \<in> set (matching_hooks BeforeInbound ?reg)" by simp
  then have "failure_mode h = FailOpen"
    by (auto simp: matching_hooks_def register_hook_def register_with_priority_def new_registry_def veto_hook_def)
  with m show ?thesis by blast
qed

subsection \<open>The registry\<close>

definition registry_wf :: "'w hook_registry \<Rightarrow> bool" where
  "registry_wf hooks \<longleftrightarrow>
     sorted (map (\<lambda>e. unat (he_priority e)) hooks) \<and> distinct (list_hooks hooks)"

lemma replace_first_map:
  "(\<And>x. P x \<Longrightarrow> g (f x) = g x) \<Longrightarrow> map g (replace_first P f xs) = map g xs"
  by (induction xs) auto

lemma replace_first_filter:
  "(\<And>x. P x \<Longrightarrow> P (f x)) \<Longrightarrow> filter (\<lambda>x. \<not> P x) (replace_first P f xs) = filter (\<lambda>x. \<not> P x) xs"
  by (induction xs) auto

lemma replace_first_hit:
  "\<exists>x \<in> set xs. P x \<Longrightarrow> (\<And>x. P x \<Longrightarrow> f x = y) \<Longrightarrow> y \<in> set (replace_first P f xs)"
  by (induction xs) auto

lemma register_distinct:
  assumes "distinct (list_hooks hooks)"
  shows "distinct (list_hooks (register_with_priority h p hooks))"
proof -
  let ?n = "\<lambda>e. hk_name (he_hook e)"
  have m: "mset (map ?n (sort_key k xs)) = mset (map ?n xs)" for xs :: "'a hook_entry list" and k :: "'a hook_entry \<Rightarrow> nat"
    by simp
  have "distinct (map ?n (sort_key k xs)) = distinct (map ?n xs)" for xs :: "'a hook_entry list" and k :: "'a hook_entry \<Rightarrow> nat"
    using mset_eq_imp_distinct_iff [OF m] .
  moreover have "map ?n (replace_first (\<lambda>e. ?n e = hk_name h) (\<lambda>e. e\<lparr>he_hook := h, he_priority := p\<rparr>) hooks) = map ?n hooks"
    by (rule replace_first_map) simp
  ultimately show ?thesis
    using assms by (auto simp: register_with_priority_def list_hooks_def)
qed

lemma register_others:
  assumes "registry_wf hooks"
  shows "filter (\<lambda>e. hk_name (he_hook e) \<noteq> hk_name h) (register_with_priority h p hooks)
       = filter (\<lambda>e. hk_name (he_hook e) \<noteq> hk_name h) hooks"
proof -
  let ?P = "\<lambda>e. hk_name (he_hook e) = hk_name h"
  have "filter (\<lambda>e. \<not> ?P e) (replace_first ?P (\<lambda>e. e\<lparr>he_hook := h, he_priority := p\<rparr>) hooks)
      = filter (\<lambda>e. \<not> ?P e) hooks"
    by (rule replace_first_filter) simp
  moreover have "sort_key (\<lambda>e. unat (he_priority e)) (filter (\<lambda>e. \<not> ?P e) hooks) = filter (\<lambda>e. \<not> ?P e) hooks"
    using assms by (intro sort_key_id_if_sorted) (simp add: registry_wf_def sorted_filter)
  moreover have "sort_key (\<lambda>e. unat (he_priority e)) hooks = hooks"
    using assms by (intro sort_key_id_if_sorted) (simp add: registry_wf_def)
  ultimately show ?thesis by (auto simp: register_with_priority_def filter_sort)
qed

inductive registry_step :: "'w hook_registry \<Rightarrow> 'w hook_registry \<Rightarrow> bool" where
  "registry_step hooks (register_with_priority h p hooks)"
| "registry_step hooks (snd (unregister nm hooks))"

lemma registry_wf_step: "registry_step hooks hooks' \<Longrightarrow> registry_wf hooks \<Longrightarrow> registry_wf hooks'"
proof (induction rule: registry_step.induct)
  case (1 hooks h p)
  then show ?case
    using register_distinct [of hooks h p] by (simp add: registry_wf_def register_with_priority_def)
next
  case (2 hooks nm)
  then show ?case
    by (simp add: registry_wf_def unregister_def Let_def list_hooks_def sorted_filter distinct_map_filter)
qed

text \<open>
  however hooks are registered and unregistered, the registry is sorted by priority and every name
  occurs once, so hooks run lowest number first; registering a name makes exactly the new hook and
  priority answer to it, and leaves all other entries in their order, as does unregistering, which
  reports whether the name was there.
\<close>

theorem registry_order:
  assumes "registry_step\<^sup>*\<^sup>* new_registry hooks"
  shows "sorted (map (\<lambda>e. unat (he_priority e)) hooks) \<and> distinct (list_hooks hooks) \<and>
    filter (\<lambda>e. hk_name (he_hook e) \<noteq> hk_name h) (register_with_priority h p hooks)
      = filter (\<lambda>e. hk_name (he_hook e) \<noteq> hk_name h) hooks \<and>
    filter (\<lambda>e. hk_name (he_hook e) = hk_name h) (register_with_priority h p hooks)
      = [\<lparr>he_hook = h, he_priority = p\<rparr>] \<and>
    unregister nm hooks = (nm \<in> set (list_hooks hooks), filter (\<lambda>e. hk_name (he_hook e) \<noteq> nm) hooks)"
proof -
  let ?P = "\<lambda>e. hk_name (he_hook e) = hk_name h"
  let ?e = "\<lparr>he_hook = h, he_priority = p\<rparr>"
  let ?r = "register_with_priority h p hooks"
  have wf: "registry_wf hooks"
    using assms by (induction rule: rtranclp_induct)
      (simp add: registry_wf_def new_registry_def list_hooks_def, rule registry_wf_step)
  have "?e \<in> set ?r"
    using replace_first_hit [of hooks ?P "\<lambda>e. e\<lparr>he_hook := h, he_priority := p\<rparr>" ?e]
    by (auto simp: register_with_priority_def)
  then have mem: "?e \<in> set (filter ?P ?r)" by simp
  have "distinct (map (\<lambda>e. hk_name (he_hook e)) (filter ?P ?r))"
    using register_distinct [of hooks h p] wf
    by (simp add: registry_wf_def list_hooks_def distinct_map_filter)
  from distinct_card [OF this]
  have "length (filter ?P ?r) = card (set (map (\<lambda>e. hk_name (he_hook e)) (filter ?P ?r)))"
    by (simp only: length_map)
  also have "\<dots> \<le> card {hk_name h}" by (rule card_mono) auto
  finally have "length (filter ?P ?r) \<le> 1" by simp
  with mem have "filter ?P ?r = [?e]" by (cases "filter ?P ?r") auto
  moreover have "length (filter (\<lambda>e. hk_name (he_hook e) \<noteq> nm) hooks) < length hooks \<longleftrightarrow> nm \<in> set (list_hooks hooks)"
  proof (cases "nm \<in> set (list_hooks hooks)")
    case True
    then show ?thesis by (auto simp: list_hooks_def intro: length_filter_less)
  next
    case False
    then have "filter (\<lambda>e. hk_name (he_hook e) \<noteq> nm) hooks = hooks"
      by (intro filter_True) (auto simp: list_hooks_def)
    with False show ?thesis by simp
  qed
  ultimately show ?thesis
    using wf register_others [OF wf, of h p] by (simp add: registry_wf_def unregister_def Let_def)
qed

theorem registry_order_witness:
  "list_hooks (register_with_priority veto_hook 7 (register_hook veto_hook new_registry)) = [''veto''] \<and>
   filter (\<lambda>e. hk_name (he_hook e) = ''veto'') (register_with_priority veto_hook 7 (register_hook veto_hook new_registry))
     = [\<lparr>he_hook = veto_hook, he_priority = 7\<rparr>]"
proof -
  have "registry_step\<^sup>*\<^sup>* new_registry (register_hook veto_hook new_registry)"
    unfolding register_hook_def by (blast intro: registry_step.intros)
  from registry_order [OF this, of veto_hook 7] show ?thesis
    by (simp add: list_hooks_def register_with_priority_def register_hook_def new_registry_def veto_hook_def)
qed

end
