(* ===== verification/Tool_Interface.thy ===== *)
theory Tool_Interface
  imports Chat_Message
begin

text \<open>
  The tool interface of \<open>src/tools/tool.rs\<close> (approval requirements, autonomous scope, the tool trait,
  parameter access and parameter redaction), the autonomous deny list of \<open>src/tools/autonomy.rs\<close>, the
  tool errors of \<open>src/error.rs\<close> and the recursive redaction of sensitive JSON members in
  \<open>src/tools/redaction.rs\<close>.

  A tool is a trait object, so it is a record of its methods; \<open>t_execute\<close> is the method under its
  timeout (\<open>None\<close> when the time is up) and may act on the world \<open>'w\<close>.  Lemmas: what redaction
  hides and that it hides nothing else, for both redactions, and the autonomous scope.
\<close>

subsection \<open>Approval\<close>

datatype ApprovalRequirement = Never | UnlessAutoApproved | Always

definition is_required :: "ApprovalRequirement \<Rightarrow> bool" where
  "is_required r \<longleftrightarrow> r \<noteq> Never"

datatype ApprovalContext = Autonomous "string list"

definition autonomous :: ApprovalContext where "autonomous = Autonomous []"

definition autonomous_with_tools :: "string list \<Rightarrow> ApprovalContext" where
  "autonomous_with_tools ts = Autonomous (remdups ts)"

fun is_blocked :: "ApprovalContext \<Rightarrow> string \<Rightarrow> ApprovalRequirement \<Rightarrow> bool" where
  "is_blocked (Autonomous allowed) nm _ \<longleftrightarrow> nm \<notin> set allowed"

definition is_blocked_or_default :: "ApprovalContext option \<Rightarrow> string \<Rightarrow> ApprovalRequirement \<Rightarrow> bool" where
  "is_blocked_or_default ctx nm r = (case ctx of Some c \<Rightarrow> is_blocked c nm r | None \<Rightarrow> is_required r)"

definition AUTONOMOUS_TOOL_DENYLIST :: "string list" where
  "AUTONOMOUS_TOOL_DENYLIST =
     [''routine_create'', ''routine_update'', ''routine_delete'', ''routine_fire'', ''event_emit'', ''create_job'',
      ''job_prompt'', ''restart'', ''tool_install'', ''tool_auth'', ''tool_activate'', ''tool_remove'',
      ''tool_upgrade'', ''skill_install'', ''skill_remove'', ''secret_list'', ''secret_delete'']"

definition is_autonomous_tool_denylisted :: "string \<Rightarrow> bool" where
  "is_autonomous_tool_denylisted nm \<longleftrightarrow> nm \<in> set AUTONOMOUS_TOOL_DENYLIST"

abbreviation quoted :: "string \<Rightarrow> string" where "quoted s \<equiv> [CHR 0x27] @ s @ [CHR 0x27]"

definition autonomous_unavailable_message :: "string \<Rightarrow> string \<Rightarrow> string" where
  "autonomous_unavailable_message nm owner =
     (if is_autonomous_tool_denylisted nm
      then ''Tool '' @ quoted nm @ '' is not available in autonomous jobs or routines''
      else ''Tool '' @ quoted nm @ '' is not currently available for owner '' @ quoted owner)"

text \<open>The extension manager is its owner and the names of its active tools.\<close>

definition autonomous_allowed_tool_names :: "string list \<Rightarrow> (string \<times> string list) option \<Rightarrow> string \<Rightarrow> string list" where
  "autonomous_allowed_tool_names builtin ext owner =
     (let allowed = filter (\<lambda>n. \<not> is_autonomous_tool_denylisted n) builtin in
      case ext of
        Some (o', names) \<Rightarrow>
          if o' = owner then allowed @ filter (\<lambda>n. \<not> is_autonomous_tool_denylisted n) names else allowed
      | None \<Rightarrow> allowed)"

lemma autonomous_scope_safe:
  "is_autonomous_tool_denylisted nm \<Longrightarrow>
   is_blocked (autonomous_with_tools (autonomous_allowed_tool_names builtin ext owner)) nm r"
  by (auto simp: autonomous_with_tools_def autonomous_allowed_tool_names_def Let_def split: option.split)

subsection \<open>Errors\<close>

datatype ToolError =
    NotFoundTool string
  | ExecutionFailed string string
  | ToolTimeout string duration
  | InvalidParameters string string
  | DisabledTool string string
  | SandboxTool string string
  | AuthRequiredTool string
  | AutonomousUnavailable string string
  | RateLimitedTool string "duration option"
  | BuilderFailed string

fun show_tool_error :: "(duration \<Rightarrow> string) \<Rightarrow> (duration option \<Rightarrow> string) \<Rightarrow> ToolError \<Rightarrow> string" where
  "show_tool_error fmt fmto (NotFoundTool n) = ''Tool '' @ n @ '' not found''"
| "show_tool_error fmt fmto (ExecutionFailed n r) = ''Tool '' @ n @ '' execution failed: '' @ r"
| "show_tool_error fmt fmto (ToolTimeout n d) = ''Tool '' @ n @ '' timed out after '' @ fmt d"
| "show_tool_error fmt fmto (InvalidParameters n r) = ''Invalid parameters for tool '' @ n @ '': '' @ r"
| "show_tool_error fmt fmto (DisabledTool n r) = ''Tool '' @ n @ '' is disabled: '' @ r"
| "show_tool_error fmt fmto (SandboxTool n r) = ''Sandbox error for tool '' @ n @ '': '' @ r"
| "show_tool_error fmt fmto (AuthRequiredTool n) = ''Tool '' @ n @ '' requires authentication''"
| "show_tool_error fmt fmto (AutonomousUnavailable n r) =
     ''Tool '' @ n @ '' is not available for autonomous execution: '' @ r"
| "show_tool_error fmt fmto (RateLimitedTool n d) = ''Tool '' @ n @ '' is rate limited, retry after '' @ fmto d"
| "show_tool_error fmt fmto (BuilderFailed r) = ''Tool builder failed: '' @ r"

definition autonomous_unavailable_error :: "string \<Rightarrow> string \<Rightarrow> ToolError" where
  "autonomous_unavailable_error nm owner = AutonomousUnavailable nm (autonomous_unavailable_message nm owner)"

text \<open>The errors a tool itself returns.\<close>

datatype ToolRunError =
    TrInvalidParameters string
  | TrExecutionFailed string
  | TrTimeout duration
  | TrNotAuthorized string
  | TrRateLimited "duration option"
  | TrExternalService string
  | TrSandbox string

fun show_tool_run_error :: "(duration \<Rightarrow> string) \<Rightarrow> (duration option \<Rightarrow> string) \<Rightarrow> ToolRunError \<Rightarrow> string" where
  "show_tool_run_error fmt fmto (TrInvalidParameters s) = ''Invalid parameters: '' @ s"
| "show_tool_run_error fmt fmto (TrExecutionFailed s) = ''Execution failed: '' @ s"
| "show_tool_run_error fmt fmto (TrTimeout d) = ''Timeout after '' @ fmt d"
| "show_tool_run_error fmt fmto (TrNotAuthorized s) = ''Not authorized: '' @ s"
| "show_tool_run_error fmt fmto (TrRateLimited d) = ''Rate limited, retry after '' @ fmto d"
| "show_tool_run_error fmt fmto (TrExternalService s) = ''External service error: '' @ s"
| "show_tool_run_error fmt fmto (TrSandbox s) = ''Sandbox error: '' @ s"

subsection \<open>Tools\<close>

record 'w tool =
  t_name :: string
  t_description :: string
  discovery_schema :: json
  requires_approval :: "json \<Rightarrow> ApprovalRequirement"
  execution_timeout :: duration
  sensitive_params :: "string list"
  t_execute :: "json \<Rightarrow> 'w \<Rightarrow> (ToolRunError, json) result option \<times> 'w"

definition missing_parameter :: "string \<Rightarrow> ToolRunError" where
  "missing_parameter nm = TrInvalidParameters (''missing '' @ quoted nm @ '' parameter'')"

definition require_str :: "json \<Rightarrow> string \<Rightarrow> (ToolRunError, string) result" where
  "require_str params nm = (case jget_str params nm of Some s \<Rightarrow> Ok s | None \<Rightarrow> Err (missing_parameter nm))"

definition require_param :: "json \<Rightarrow> string \<Rightarrow> (ToolRunError, json) result" where
  "require_param params nm = (case jget params nm of Some v \<Rightarrow> Ok v | None \<Rightarrow> Err (missing_parameter nm))"

definition REDACTED :: string where "REDACTED = ''[REDACTED]''"

definition redact_params :: "json \<Rightarrow> string list \<Rightarrow> json" where
  "redact_params params sensitive =
     (if sensitive = [] then params
      else case params of
        JObject kvs \<Rightarrow>
          JObject (fold (\<lambda>k o'. if map_of o' k \<noteq> None then AList.update k (JString REDACTED) o' else o') sensitive kvs)
      | _ \<Rightarrow> params)"

subsection \<open>Sensitive keys\<close>

definition SENSITIVE_EXACT :: "string list" where
  "SENSITIVE_EXACT =
     [''authorization'', ''proxy-authorization'', ''cookie'', ''set-cookie'', ''x-api-key'', ''api-key'', ''api_key'',
      ''access_token'', ''refresh_token'', ''session_token'', ''id_token'', ''token'', ''password'', ''passwd'',
      ''secret'', ''client_secret'', ''private_key'', ''apikey'', ''apisecret'']"

definition SENSITIVE_PARTS :: "string list" where
  "SENSITIVE_PARTS =
     [''password'', ''passwd'', ''secret'', ''credential'', ''authorization'', ''cookie'', ''apikey'', ''apisecret'']"

definition TOKEN_PARTS :: "string list" where "TOKEN_PARTS = [''token'', ''jwt'']"
definition KEY_PARTS :: "string list" where "KEY_PARTS = [''key'']"

definition CONTEXT_PARTS :: "string list" where
  "CONTEXT_PARTS =
     [''auth'', ''oauth'', ''authorization'', ''api'', ''access'', ''refresh'', ''session'', ''bearer'', ''private'',
      ''client'', ''id'', ''app'', ''user'', ''application'', ''account'']"

abbreviation code :: "char \<Rightarrow> nat" where "code c \<equiv> of_char c"

definition is_ascii_lowercase :: "char \<Rightarrow> bool" where "is_ascii_lowercase c \<longleftrightarrow> 97 \<le> code c \<and> code c \<le> 122"
definition is_ascii_uppercase :: "char \<Rightarrow> bool" where "is_ascii_uppercase c \<longleftrightarrow> 65 \<le> code c \<and> code c \<le> 90"
definition is_ascii_digit :: "char \<Rightarrow> bool" where "is_ascii_digit c \<longleftrightarrow> 48 \<le> code c \<and> code c \<le> 57"
definition is_ascii_alphabetic :: "char \<Rightarrow> bool" where
  "is_ascii_alphabetic c \<longleftrightarrow> is_ascii_lowercase c \<or> is_ascii_uppercase c"
definition is_ascii_alphanumeric :: "char \<Rightarrow> bool" where
  "is_ascii_alphanumeric c \<longleftrightarrow> is_ascii_alphabetic c \<or> is_ascii_digit c"

definition camel_boundary :: "char \<Rightarrow> char \<Rightarrow> char option \<Rightarrow> bool" where
  "camel_boundary prev cur nxt \<longleftrightarrow>
     is_ascii_lowercase prev \<and> is_ascii_uppercase cur \<or>
     is_ascii_alphabetic prev \<and> is_ascii_digit cur \<or>
     is_ascii_digit prev \<and> is_ascii_alphabetic cur \<or>
     is_ascii_uppercase prev \<and> is_ascii_uppercase cur \<and> (case nxt of Some n \<Rightarrow> is_ascii_lowercase n | None \<Rightarrow> False)"

text \<open>The loop over positions: the part begun at \<open>start\<close>, the previous character, the characters left.\<close>

fun camel_parts :: "string \<Rightarrow> char \<Rightarrow> string \<Rightarrow> string list" where
  "camel_parts part prev [] = [part]"
| "camel_parts part prev (cur # rest) =
     (if camel_boundary prev cur (case rest of [] \<Rightarrow> None | n # _ \<Rightarrow> Some n)
      then part # camel_parts [cur] cur rest
      else camel_parts (part @ [cur]) cur rest)"

definition split_camel_case_key_parts :: "string \<Rightarrow> string list" where
  "split_camel_case_key_parts key = (case key of [] \<Rightarrow> [] | c # cs \<Rightarrow> camel_parts [c] c cs)"

definition tokenize_key_parts :: "string \<Rightarrow> string list" where
  "tokenize_key_parts key =
     map ascii_lower
       (concat (map split_camel_case_key_parts
          (filter (\<lambda>seg. seg \<noteq> []) (split_on (\<lambda>c. \<not> is_ascii_alphanumeric c) key))))"

definition has_exact :: "string list \<Rightarrow> string list \<Rightarrow> bool" where
  "has_exact parts cands \<longleftrightarrow> (\<exists>p \<in> set parts. p \<in> set cands)"

definition has_candidate_or_numbered_variant :: "string list \<Rightarrow> string list \<Rightarrow> bool" where
  "has_candidate_or_numbered_variant parts cands \<longleftrightarrow>
     (\<exists>p \<in> set parts. \<exists>c \<in> set cands. p = c \<or>
        (case strip_prefix c p of None \<Rightarrow> False | Some suffix \<Rightarrow> suffix \<noteq> [] \<and> list_all is_ascii_digit suffix))"

definition has_contextual_suffix :: "string list \<Rightarrow> string list \<Rightarrow> bool" where
  "has_contextual_suffix parts cands \<longleftrightarrow>
     (\<exists>p \<in> set parts. \<exists>c \<in> set cands.
        (case strip_suffix c p of None \<Rightarrow> False | Some prefix \<Rightarrow> prefix \<noteq> [] \<and> prefix \<in> set CONTEXT_PARTS))"

definition is_sensitive_key :: "string \<Rightarrow> bool" where
  "is_sensitive_key key =
     (if ascii_lower key \<in> set SENSITIVE_EXACT then True
      else let parts = tokenize_key_parts key in
        if parts = [] then False
        else if has_candidate_or_numbered_variant parts SENSITIVE_PARTS then True
        else let has_token = has_candidate_or_numbered_variant parts TOKEN_PARTS;
                 has_key = has_candidate_or_numbered_variant parts KEY_PARTS
             in if has_token \<and> has_key then True
                else if has_contextual_suffix parts TOKEN_PARTS \<or> has_contextual_suffix parts KEY_PARTS then True
                else has_exact parts CONTEXT_PARTS \<and> (has_token \<or> has_key))"

fun redact_sensitive_json :: "json \<Rightarrow> json" where
  "redact_sensitive_json (JObject kvs) =
     JObject (map (\<lambda>(k, v). (k, if is_sensitive_key k then JString REDACTED else redact_sensitive_json v)) kvs)"
| "redact_sensitive_json (JArray vs) = JArray (map redact_sensitive_json vs)"
| "redact_sensitive_json JNull = JNull"
| "redact_sensitive_json (JBool b) = JBool b"
| "redact_sensitive_json (JNumber n) = JNumber n"
| "redact_sensitive_json (JString s) = JString s"

subsection \<open>What redaction hides\<close>

lemma jget_redact_params:
  "jget (redact_params v sensitive) k =
     (if k \<in> set sensitive \<and> jget v k \<noteq> None then Some (JString REDACTED) else jget v k)"
proof -
  have "map_of (fold (\<lambda>k o'. if map_of o' k \<noteq> None then AList.update k (JString REDACTED) o' else o') ks kvs) k
      = (if k \<in> set ks \<and> map_of kvs k \<noteq> None then Some (JString REDACTED) else map_of kvs k)" for ks kvs
    by (induction ks arbitrary: kvs) (auto simp: update_conv')
  then show ?thesis by (auto simp: redact_params_def jget_def split: json.split)
qed

text \<open>Two values that differ at most below members with a sensitive key.\<close>

inductive same_public :: "json \<Rightarrow> json \<Rightarrow> bool" where
  public_refl: "same_public v v"
| public_array: "list_all2 same_public vs vs' \<Longrightarrow> same_public (JArray vs) (JArray vs')"
| public_object:
    "list_all2 (\<lambda>p q. fst p = fst q \<and> (is_sensitive_key (fst p) \<or> same_public (snd p) (snd q))) kvs kvs' \<Longrightarrow>
     same_public (JObject kvs) (JObject kvs')"

lemma map_eq_list_all2: "map f xs = map g ys \<longleftrightarrow> list_all2 (\<lambda>x y. f x = g y) xs ys"
  by (simp add: list.rel_eq [symmetric] list.rel_map)

lemma redacted_same_public: "redact_sensitive_json v = redact_sensitive_json v' \<Longrightarrow> same_public v v'"
proof (induction v arbitrary: v' rule: redact_sensitive_json.induct)
  case (1 kvs)
  obtain kvs' where v': "v' = JObject kvs'" using "1.prems" by (cases v') auto
  have "list_all2 (\<lambda>p q. fst p = fst q \<and> (is_sensitive_key (fst p) \<or> same_public (snd p) (snd q))) kvs kvs'"
    using "1.prems" unfolding v' redact_sensitive_json.simps json.inject map_eq_list_all2
    by (rule list.rel_mono_strong) (auto intro!: "1.IH" split: if_splits)
  then show ?case unfolding v' by (rule public_object)
next
  case (2 vs)
  obtain vs' where v': "v' = JArray vs'" using "2.prems" by (cases v') auto
  have "list_all2 same_public vs vs'"
    using "2.prems" unfolding v' redact_sensitive_json.simps json.inject map_eq_list_all2
    by (rule list.rel_mono_strong) (auto intro!: "2.IH")
  then show ?case unfolding v' by (rule public_array)
next
  case 3
  then show ?case by (cases v') (simp_all add: public_refl)
next
  case (4 b)
  then show ?case by (cases v') (simp_all add: public_refl)
next
  case (5 n)
  then show ?case by (cases v') (simp_all add: public_refl)
next
  case (6 s)
  then show ?case by (cases v') (simp_all add: public_refl)
qed

lemma same_public_redacted: "same_public v v' \<Longrightarrow> redact_sensitive_json v = redact_sensitive_json v'"
proof (induction rule: same_public.induct)
  case (public_array vs vs')
  then show ?case by (auto simp: map_eq_list_all2 intro: list.rel_mono_strong)
next
  case (public_object kvs kvs')
  then show ?case by (auto simp: map_eq_list_all2 intro!: list.rel_mono_strong [OF public_object])
qed simp

lemma redact_idem: "redact_sensitive_json (redact_sensitive_json v) = redact_sensitive_json v"
  by (induction v rule: redact_sensitive_json.induct) auto

text \<open>
  C28: redaction of sensitive JSON is a perfect filter.  Two values have the same redacted form exactly
  when they differ at most below members whose key is sensitive, at any depth: nothing below a
  sensitive key can be learned from the redacted value, and everything else is still there.
  Redacting again changes nothing.
\<close>

theorem redaction_exact:
  "(redact_sensitive_json v = redact_sensitive_json v' \<longleftrightarrow> same_public v v') \<and>
   redact_sensitive_json (redact_sensitive_json v) = redact_sensitive_json v"
  using redacted_same_public same_public_redacted redact_idem by blast

text \<open>Keys in the styles the program meets.\<close>

lemma sensitive_key_examples:
  "map is_sensitive_key
     [''Authorization'', ''accessToken'', ''OPENAI_API_KEY'', ''user-password2'', ''githubJWTKey'', ''authtoken'']
   = [True, True, True, True, True, True]"
  "map is_sensitive_key [''author'', ''keyboard'', ''tokens_used'', ''monkey'', []] = [False, False, False, False, False]"
  by code_simp+

end
