(* ===== verification/Coercion.thy ===== *)
theory Coercion
  imports Tool_Interface
begin

text \<open>
  Tool arguments are repaired against the tool's schema before a tool runs: \<open>src/tools/coercion.rs\<close>
  resolves references in the schema and converts strings that models send in place of numbers,
  booleans, null, arrays and objects.

  \<open>dec\<close> is \<open>serde_json::from_str\<close>; \<open>num\<close> is \<open>str::parse::<f64>\<close> followed by the conversion to a JSON
  value (null when the float is not finite).  A number is its canonical text.  The coercer recurses
  into the schema, not into the value: a parsed string keeps the schema but is no longer a string, and
  every other call goes to a smaller schema; reference resolution is bounded by its depth.
  Lemmas: termination of all recursions, what coercion can do to a value at all, and that a value
  that conforms to its schema is left alone.
\<close>

subsection \<open>References\<close>

definition MAX_REF_DEPTH :: nat where "MAX_REF_DEPTH = 16"

definition resolve_ref_pointer :: "string \<Rightarrow> json \<Rightarrow> json option" where
  "resolve_ref_pointer r defs =
     (case strip_prefix ''#/'' r of
        None \<Rightarrow> None
      | Some path \<Rightarrow>
          (case split_on (\<lambda>c. c = CHR ''/'') path of
             [a, b] \<Rightarrow> if a = ''definitions'' \<or> a = ''$defs'' then jget defs b else None
           | _ \<Rightarrow> None))"

function resolve_refs_inner :: "json \<Rightarrow> json \<Rightarrow> nat \<Rightarrow> json" where
  "resolve_refs_inner schema defs depth =
     (if depth > MAX_REF_DEPTH then schema
      else case schema of
        JObject obj \<Rightarrow>
          (case jget_str schema ''$ref'' of
             Some r \<Rightarrow>
               (case resolve_ref_pointer r defs of
                  Some target \<Rightarrow> resolve_refs_inner target defs (depth + 1)
                | None \<Rightarrow> schema)
           | None \<Rightarrow>
               JObject (map (\<lambda>(k, v). (k, if k = ''definitions'' \<or> k = ''$defs'' then v
                                          else resolve_refs_inner v defs (depth + 1))) obj))
      | JArray arr \<Rightarrow> JArray (map (\<lambda>v. resolve_refs_inner v defs (depth + 1)) arr)
      | _ \<Rightarrow> schema)"
  by pat_completeness auto
termination
  by (relation "measure (\<lambda>(_, _, d). Suc MAX_REF_DEPTH - d)") auto

declare resolve_refs_inner.simps [simp del]

definition resolve_refs :: "json \<Rightarrow> json" where
  "resolve_refs schema =
     resolve_refs_inner schema
       (unwrap_or (case jget schema ''definitions'' of Some d \<Rightarrow> Some d | None \<Rightarrow> jget schema ''$defs'') JNull) 0"

subsection \<open>Schemas\<close>

definition schema_allows_type :: "json \<Rightarrow> string \<Rightarrow> bool" where
  "schema_allows_type schema expected =
     (case jget schema ''type'' of
        Some (JString t) \<Rightarrow> t = expected
      | Some (JArray types) \<Rightarrow> (\<exists>t \<in> set types. as_str t = Some expected)
      | _ \<Rightarrow>
          if expected = ''object'' then
            Option.bind (jget schema ''properties'') as_object \<noteq> None \<or> jget schema ''oneOf'' \<noteq> None \<or>
            jget schema ''anyOf'' \<noteq> None \<or> jget schema ''allOf'' \<noteq> None
          else if expected = ''array'' then jget schema ''items'' \<noteq> None
          else False)"

definition schema_properties :: "json \<Rightarrow> (string \<times> json) list option" where
  "schema_properties schema = Option.bind (jget schema ''properties'') as_object"

definition schema_variants :: "json \<Rightarrow> string \<Rightarrow> json list option" where
  "schema_variants schema k = Option.bind (jget schema k) as_array"

fun discriminates :: "(string \<times> json) list \<Rightarrow> (string \<times> json) list \<Rightarrow> nat \<Rightarrow> bool" where
  "discriminates [] obj count \<longleftrightarrow> count > 0"
| "discriminates ((k, p) # ps) obj count =
     (case jget p ''const'' of
        Some c \<Rightarrow> (if map_of obj k = Some c then discriminates ps obj (count + 1) else False)
      | None \<Rightarrow>
          (case Option.bind (jget p ''enum'') as_array of
             Some [e] \<Rightarrow> (if map_of obj k = Some e then discriminates ps obj (count + 1) else False)
           | _ \<Rightarrow> discriminates ps obj count))"

definition find_discriminated_variant :: "json list \<Rightarrow> (string \<times> json) list \<Rightarrow> json option" where
  "find_discriminated_variant variants obj =
     List.find (\<lambda>variant. case schema_properties variant of Some props \<Rightarrow> discriminates props obj 0 | None \<Rightarrow> False) variants"

definition matched_variant :: "json \<Rightarrow> string \<Rightarrow> (string \<times> json) list \<Rightarrow> json option" where
  "matched_variant schema k obj = Option.bind (schema_variants schema k) (\<lambda>vs. find_discriminated_variant vs obj)"

definition extend :: "(string \<times> json) list \<Rightarrow> (string \<times> json) list \<Rightarrow> (string \<times> json) list" where
  "extend kvs m = fold (\<lambda>(k, v). AList.update k v) kvs m"

definition MAX_COMBINATOR_DEPTH :: nat where "MAX_COMBINATOR_DEPTH = 4"

text \<open>The properties of one variant, then those of its own combinators (\<open>nested\<close>), last one wins.\<close>

definition extend_variant ::
  "(string \<times> json) list option \<Rightarrow> json \<Rightarrow> (string \<times> json) list \<Rightarrow> (string \<times> json) list" where
  "extend_variant nested variant m =
     (let m1 = (case schema_properties variant of Some props \<Rightarrow> extend props m | None \<Rightarrow> m)
      in case nested of Some n \<Rightarrow> extend n m1 | None \<Rightarrow> m1)"

function collect_properties ::
  "json \<Rightarrow> (string \<times> json) list \<Rightarrow> nat \<Rightarrow> (string \<times> json) list option" where
  "collect_properties schema obj depth =
     (if depth > MAX_COMBINATOR_DEPTH then None
      else if jget schema ''allOf'' = None \<and> jget schema ''oneOf'' = None \<and> jget schema ''anyOf'' = None then None
      else
        let m0 = (case schema_properties schema of Some props \<Rightarrow> extend props [] | None \<Rightarrow> []);
            m1 = (case schema_variants schema ''allOf'' of
                    Some vs \<Rightarrow> fold (\<lambda>v. extend_variant (collect_properties v obj (depth + 1)) v) vs m0
                  | None \<Rightarrow> m0);
            m2 = (case matched_variant schema ''oneOf'' obj of
                    Some v \<Rightarrow> extend_variant (collect_properties v obj (depth + 1)) v m1
                  | None \<Rightarrow> m1);
            m3 = (case matched_variant schema ''anyOf'' obj of
                    Some v \<Rightarrow> extend_variant (collect_properties v obj (depth + 1)) v m2
                  | None \<Rightarrow> m2)
        in if m3 = [] then None else Some m3)"
  by pat_completeness auto
termination
  by (relation "measure (\<lambda>(_, _, d). Suc MAX_COMBINATOR_DEPTH - d)") auto

declare collect_properties.simps [simp del]

definition resolve_effective_properties :: "json \<Rightarrow> (string \<times> json) list \<Rightarrow> (string \<times> json) list option" where
  "resolve_effective_properties schema obj = collect_properties schema obj 0"

definition object_member :: "json \<Rightarrow> string \<Rightarrow> json option" where
  "object_member v k = (case jget v k of Some (JObject kvs) \<Rightarrow> Some (JObject kvs) | _ \<Rightarrow> None)"

fun first_some :: "('a \<Rightarrow> 'b option) \<Rightarrow> 'a list \<Rightarrow> 'b option" where
  "first_some f [] = None"
| "first_some f (x # xs) = (case f x of Some y \<Rightarrow> Some y | None \<Rightarrow> first_some f xs)"

definition resolve_additional_properties :: "json \<Rightarrow> (string \<times> json) list \<Rightarrow> json option" where
  "resolve_additional_properties schema obj =
     (case first_some (\<lambda>v. object_member v ''additionalProperties'')
             (rev (unwrap_or (schema_variants schema ''allOf'') [])) of
        Some ap \<Rightarrow> Some ap
      | None \<Rightarrow>
          first_some (\<lambda>k. Option.bind (matched_variant schema k obj) (\<lambda>v. object_member v ''additionalProperties'')) [''oneOf'', ''anyOf''])"

text \<open>What the object case looks up for a key: the property's schema, and the schema of the others.\<close>

definition member_schema :: "json \<Rightarrow> (string \<times> json) list \<Rightarrow> string \<Rightarrow> json option" where
  "member_schema schema obj k =
     Option.bind (case resolve_effective_properties schema obj of Some m \<Rightarrow> Some m | None \<Rightarrow> schema_properties schema)
       (\<lambda>props. map_of props k)"

definition additional_schema :: "json \<Rightarrow> (string \<times> json) list \<Rightarrow> json option" where
  "additional_schema schema obj =
     (case object_member schema ''additionalProperties'' of
        Some a \<Rightarrow> Some a | None \<Rightarrow> resolve_additional_properties schema obj)"

definition required_keys :: "json \<Rightarrow> string list" where
  "required_keys schema = List.map_filter as_str (unwrap_or (Option.bind (jget schema ''required'') as_array) [])"

subsection \<open>Every schema the coercer looks up is smaller\<close>

lemma schema_properties_size: "schema_properties s = Some ps \<Longrightarrow> map_of ps k = Some p \<Longrightarrow> size p < size s"
  unfolding schema_properties_def by (auto split: bind_splits dest!: size_jget size_map_of)

lemma schema_variants_size: "schema_variants s k = Some vs \<Longrightarrow> v \<in> set vs \<Longrightarrow> size v < size s"
  unfolding schema_variants_def by (auto split: bind_splits dest!: size_jget size_item)

lemma find_discriminated_mem: "find_discriminated_variant vs obj = Some v \<Longrightarrow> v \<in> set vs"
  by (auto simp: find_discriminated_variant_def find_Some_iff)

lemma map_of_extend:
  "map_of (extend kvs m) k = (case map_of (rev kvs) k of Some v \<Rightarrow> Some v | None \<Rightarrow> map_of m k)"
  by (induction kvs arbitrary: m) (auto simp: extend_def update_conv' map_add_def split: option.splits)

lemma map_of_rev_mem: "map_of (rev kvs) k = Some v \<Longrightarrow> (k, v) \<in> set kvs"
  by (metis map_of_SomeD set_rev)

definition below :: "nat \<Rightarrow> (string \<times> json) list \<Rightarrow> bool" where
  "below n m = list_all (\<lambda>kv. size (snd kv) < n) m"

lemma below_simps [simp]: "below n []" "below n (kv # m) \<longleftrightarrow> size (snd kv) < n \<and> below n m"
  by (simp_all add: below_def)

lemma below_map_of: "below n m \<Longrightarrow> map_of m k = Some v \<Longrightarrow> size v < n"
  by (induction m) (auto split: if_splits)

lemma below_update: "below n m \<Longrightarrow> size v < n \<Longrightarrow> below n (AList.update k v m)"
  by (induction m) auto

lemma below_extend: "below n kvs \<Longrightarrow> below n m \<Longrightarrow> below n (extend kvs m)"
  by (induction kvs arbitrary: m) (auto simp: extend_def below_update)

lemma below_mono: "below n m \<Longrightarrow> n \<le> n' \<Longrightarrow> below n' m"
  by (induction m) auto

lemma below_object: "below (size (JObject ps)) ps"
proof -
  have "size (snd kv) < size (JObject ps)" if "kv \<in> set ps" for kv
    using size_member [of "fst kv" "snd kv" ps] that by simp
  then show ?thesis by (simp add: below_def list_all_iff)
qed

lemma schema_properties_below: "schema_properties s = Some ps \<Longrightarrow> below (size s) ps"
  by (auto simp: schema_properties_def split: bind_splits dest!: size_jget intro: below_mono [OF below_object])

lemma below_extend_variant:
  assumes "size v \<le> n" "below n m" "\<And>ps. nested = Some ps \<Longrightarrow> below (size v) ps"
  shows "below n (extend_variant nested v m)"
  using assms
  by (auto simp: extend_variant_def Let_def split: option.split
      intro!: below_extend intro: below_mono schema_properties_below)

lemma fold_invariant: "P m \<Longrightarrow> (\<And>x m. x \<in> set xs \<Longrightarrow> P m \<Longrightarrow> P (f x m)) \<Longrightarrow> P (fold f xs m)"
  by (induction xs arbitrary: m) auto

lemma found_size: "matched_variant s k obj = Some v \<Longrightarrow> size v < size s"
  by (auto simp: matched_variant_def split: bind_splits dest: find_discriminated_mem schema_variants_size)

lemma collect_properties_below: "collect_properties s obj d = Some m \<Longrightarrow> below (size s) m"
proof (induction "size s" arbitrary: s d m rule: less_induct)
  case less
  let ?step = "\<lambda>v. extend_variant (collect_properties v obj (d + 1)) v"
  have step: "below (size s) (?step v m)" if "size v < size s" "below (size s) m" for v m
    using that less.hyps by (intro below_extend_variant) auto
  define m0 where "m0 = (case schema_properties s of Some props \<Rightarrow> extend props [] | None \<Rightarrow> [])"
  define m1 where "m1 = (case schema_variants s ''allOf'' of Some vs \<Rightarrow> fold ?step vs m0 | None \<Rightarrow> m0)"
  define m2 where "m2 = (case matched_variant s ''oneOf'' obj of
      Some v \<Rightarrow> ?step v m1 | None \<Rightarrow> m1)"
  define m3 where "m3 = (case matched_variant s ''anyOf'' obj of
      Some v \<Rightarrow> ?step v m2 | None \<Rightarrow> m2)"
  have "below (size s) m0" by (auto simp: m0_def split: option.split intro!: below_extend dest: schema_properties_below)
  then have "below (size s) m1"
    unfolding m1_def
    by (auto split: option.split intro!: fold_invariant [where P = "below (size s)"] step [simplified]
        dest: schema_variants_size)
  then have "below (size s) m2" by (auto simp: m2_def split: option.split intro!: step [simplified] dest: found_size)
  then have "below (size s) m3" by (auto simp: m3_def split: option.split intro!: step [simplified] dest: found_size)
  moreover have "m = m3"
    using less.prems unfolding collect_properties.simps [of s] Let_def m0_def [symmetric] m1_def [symmetric]
      m2_def [symmetric] m3_def [symmetric]
    by (simp split: if_splits)
  ultimately show ?case by simp
qed

lemma member_schema_size [termination_simp]: "member_schema s obj k = Some p \<Longrightarrow> size p < size s"
  by (auto simp: member_schema_def resolve_effective_properties_def split: bind_splits option.splits
      dest: below_map_of collect_properties_below schema_properties_size)

lemma object_member_jget: "object_member v k = Some x \<Longrightarrow> jget v k = Some x"
  by (auto simp: object_member_def split: option.splits json.splits)

lemma first_some_mem: "first_some f xs = Some y \<Longrightarrow> \<exists>x \<in> set xs. f x = Some y"
  by (induction xs) (auto split: option.splits)

lemma additional_schema_size [termination_simp]:
  assumes "additional_schema s obj = Some a"
  shows "size a < size s"
proof -
  consider "object_member s ''additionalProperties'' = Some a"
    | v where "v \<in> set (unwrap_or (schema_variants s ''allOf'') [])" "object_member v ''additionalProperties'' = Some a"
    | k v where "matched_variant s k obj = Some v"
        "object_member v ''additionalProperties'' = Some a"
    using assms unfolding additional_schema_def resolve_additional_properties_def
    by (auto split: option.splits bind_splits dest!: first_some_mem)
  then show ?thesis
  proof cases
    case 1
    then show ?thesis by (rule size_jget [OF object_member_jget])
  next
    case 2
    then have "size v < size s"
      by (cases "schema_variants s ''allOf''") (auto simp: unwrap_or_def dest: schema_variants_size)
    with size_jget [OF object_member_jget [OF 2(2)]] show ?thesis by simp
  next
    case 3
    have "size v < size s" using 3(1) by (rule found_size)
    with size_jget [OF object_member_jget [OF 3(2)]] show ?thesis by simp
  qed
qed

subsection \<open>Coercion\<close>

text \<open>\<open>str::parse::<i64>\<close>: an optional sign and decimal digits, in range.\<close>

definition digits_value :: "string \<Rightarrow> int" where
  "digits_value ds = foldl (\<lambda>n d. 10 * n + (int (code d) - 48)) 0 ds"

definition parse_i64 :: "string \<Rightarrow> int option" where
  "parse_i64 s =
     (let (neg, ds) = (case s of [] \<Rightarrow> (False, [])
            | c # cs \<Rightarrow> if c = CHR ''-'' then (True, cs) else if c = CHR ''+'' then (False, cs) else (False, c # cs));
          n = (if neg then - digits_value ds else digits_value ds)
      in if ds \<noteq> [] \<and> list_all is_ascii_digit ds \<and> - (2 ^ 63) \<le> n \<and> n < 2 ^ 63 then Some n else None)"

definition show_int :: "int \<Rightarrow> string" where
  "show_int n = (if n < 0 then CHR ''-'' # show_nat (nat (- n)) else show_nat (nat n))"

text \<open>
  \<open>coerce_string_value\<close> without the recursive call: either the result, or a parsed array or object that
  is still to be coerced with the same schema.  Only ASCII letters lower to ASCII letters of \<open>true\<close> and
  \<open>false\<close>, so the comparison after \<open>to_lowercase\<close> is one after ASCII lowering.
\<close>

datatype string_coercion = Unchanged | Becomes json | Parsed json

definition structured :: "json \<Rightarrow> json \<Rightarrow> bool" where
  "structured schema v =
     (case v of JArray _ \<Rightarrow> schema_allows_type schema ''array''
      | JObject _ \<Rightarrow> schema_allows_type schema ''object'' | _ \<Rightarrow> False)"

definition coerce_structured :: "(string \<Rightarrow> json option) \<Rightarrow> string \<Rightarrow> json \<Rightarrow> string_coercion" where
  "coerce_structured dec s schema =
     (if schema_allows_type schema ''array'' \<or> schema_allows_type schema ''object'' then
        (case dec s of Some v \<Rightarrow> if structured schema v then Parsed v else Unchanged | None \<Rightarrow> Unchanged)
      else Unchanged)"

definition coerce_boolean :: "string \<Rightarrow> json \<Rightarrow> bool option" where
  "coerce_boolean s schema =
     (if schema_allows_type schema ''boolean'' then
        (if ascii_lower s = ''true'' then Some True else if ascii_lower s = ''false'' then Some False else None)
      else None)"

definition coerce_string_head ::
  "(string \<Rightarrow> json option) \<Rightarrow> (string \<Rightarrow> json option) \<Rightarrow> string \<Rightarrow> json \<Rightarrow> string_coercion" where
  "coerce_string_head dec num s schema =
     (if s = [] \<and> schema_allows_type schema ''null'' \<and> \<not> schema_allows_type schema ''string'' then Becomes JNull
      else if schema_allows_type schema ''string'' then Unchanged
      else if s = [] then Unchanged
      else case (if schema_allows_type schema ''integer'' then parse_i64 s else None) of
        Some n \<Rightarrow> Becomes (JNumber (show_int n))
      | None \<Rightarrow>
          (case (if schema_allows_type schema ''number'' then num s else None) of
             Some v \<Rightarrow> Becomes v
           | None \<Rightarrow>
               (case coerce_boolean s schema of
                  Some b \<Rightarrow> Becomes (JBool b)
                | None \<Rightarrow> coerce_structured dec s schema)))"

text \<open>An empty string in an optional member whose schema has null or has no string becomes null.\<close>

definition blank_member :: "json \<Rightarrow> json \<Rightarrow> string \<Rightarrow> json \<Rightarrow> bool" where
  "blank_member schema p k cur \<longleftrightarrow>
     cur = JString [] \<and> k \<notin> set (required_keys schema) \<and>
     (schema_allows_type p ''null'' \<or> \<not> schema_allows_type p ''string'')"

lemma coerce_string_head_Parsed:
  "coerce_string_head dec num s schema = Parsed v \<Longrightarrow> (\<exists>vs. v = JArray vs) \<or> (\<exists>kvs. v = JObject kvs)"
  by (auto simp: coerce_string_head_def coerce_structured_def structured_def
      split: if_splits option.splits json.splits)

function coerce_value :: "(string \<Rightarrow> json option) \<Rightarrow> (string \<Rightarrow> json option) \<Rightarrow> json \<Rightarrow> json \<Rightarrow> json" where
  "coerce_value dec num v schema =
     (case v of
        JNull \<Rightarrow> v
      | JString s \<Rightarrow>
          (case coerce_string_head dec num s schema of
             Unchanged \<Rightarrow> v
           | Becomes x \<Rightarrow> x
           | Parsed x \<Rightarrow> coerce_value dec num x schema)
      | JArray items \<Rightarrow>
          if \<not> schema_allows_type schema ''array'' then v
          else (case jget schema ''items'' of
                  None \<Rightarrow> v
                | Some item_schema \<Rightarrow> JArray (map (\<lambda>item. coerce_value dec num item item_schema) items))
      | JObject obj \<Rightarrow>
          if \<not> schema_allows_type schema ''object'' then v
          else JObject (map (\<lambda>(k, cur). (k,
                 case member_schema schema obj k of
                   Some p \<Rightarrow> if blank_member schema p k cur then JNull else coerce_value dec num cur p
                 | None \<Rightarrow> (case additional_schema schema obj of
                     Some a \<Rightarrow> coerce_value dec num cur a | None \<Rightarrow> cur))) obj)
      | JBool _ \<Rightarrow> v
      | JNumber _ \<Rightarrow> v)"
  by pat_completeness auto
termination
  by (relation "measure (\<lambda>(_, _, v, s). 2 * size s + (case v of JString _ \<Rightarrow> 1 | _ \<Rightarrow> 0))")
     (auto dest!: coerce_string_head_Parsed size_jget member_schema_size additional_schema_size split: json.split)

declare coerce_value.simps [simp del]

definition prepare_params_for_schema :: "(string \<Rightarrow> json option) \<Rightarrow> (string \<Rightarrow> json option) \<Rightarrow> json \<Rightarrow> json \<Rightarrow> json" where
  "prepare_params_for_schema dec num params schema = coerce_value dec num params (resolve_refs schema)"

definition prepare_tool_params :: "(string \<Rightarrow> json option) \<Rightarrow> (string \<Rightarrow> json option) \<Rightarrow> 'w tool \<Rightarrow> json \<Rightarrow> json" where
  "prepare_tool_params dec num t params = prepare_params_for_schema dec num params (discovery_schema t)"

subsection \<open>Typing\<close>

text \<open>
  The types of JSON Schema that a value has, and the values a schema admits: a schema that names no
  type at all admits everything.  Members and items are checked against the schemas the coercer
  looks up for this value.
\<close>

fun value_types :: "json \<Rightarrow> string list" where
  "value_types JNull = [''null'']"
| "value_types (JBool _) = [''boolean'']"
| "value_types (JNumber _) = [''integer'', ''number'']"
| "value_types (JString _) = [''string'']"
| "value_types (JArray _) = [''array'']"
| "value_types (JObject _) = [''object'']"

definition fits :: "json \<Rightarrow> json \<Rightarrow> bool" where
  "fits schema v \<longleftrightarrow> (\<exists>t \<in> set (value_types v). schema_allows_type schema t)"

definition untyped :: "json \<Rightarrow> bool" where
  "untyped schema \<longleftrightarrow>
     list_all (\<lambda>t. \<not> schema_allows_type schema t)
       [''null'', ''boolean'', ''integer'', ''number'', ''string'', ''array'', ''object'']"

function conforms :: "json \<Rightarrow> json \<Rightarrow> bool" where
  "conforms schema v \<longleftrightarrow>
     untyped schema \<or> fits schema v \<and>
     (case v of
        JArray items \<Rightarrow>
          (case jget schema ''items'' of Some s \<Rightarrow> list_all (\<lambda>x. conforms s x) items | None \<Rightarrow> True)
      | JObject obj \<Rightarrow>
          list_all (\<lambda>(k, x).
             case member_schema schema obj k of
               Some p \<Rightarrow> conforms p x
             | None \<Rightarrow> (case additional_schema schema obj of Some a \<Rightarrow> conforms a x | None \<Rightarrow> True)) obj
      | _ \<Rightarrow> True)"
  by pat_completeness auto
termination
  by (relation "measure (\<lambda>(s, _). size s)") (auto dest: size_jget member_schema_size additional_schema_size)

declare conforms.simps [simp del]

fun no_blank_member :: "json \<Rightarrow> bool" where
  "no_blank_member (JObject kvs) \<longleftrightarrow> list_all (\<lambda>(k, v). v \<noteq> JString [] \<and> no_blank_member v) kvs"
| "no_blank_member (JArray vs) \<longleftrightarrow> list_all no_blank_member vs"
| "no_blank_member _ \<longleftrightarrow> True"

lemma untyped_allows: "untyped schema \<Longrightarrow> t \<in> {''null'', ''boolean'', ''integer'', ''number'', ''string'', ''array'', ''object''} \<Longrightarrow> \<not> schema_allows_type schema t"
  by (auto simp: untyped_def)

lemma coerce_untyped: "untyped schema \<Longrightarrow> coerce_value dec num v schema = v"
  by (subst coerce_value.simps)
     (auto simp: coerce_string_head_def coerce_boolean_def coerce_structured_def untyped_allows split: json.split)

lemma coerce_string_typed:
  "schema_allows_type schema ''string'' \<Longrightarrow> coerce_value dec num (JString s) schema = JString s"
  by (simp add: coerce_value.simps [of _ _ "JString s"] coerce_string_head_def)

lemma coerce_conforming:
  "conforms schema v \<Longrightarrow> no_blank_member v \<Longrightarrow> coerce_value dec num v schema = v"
proof (induction schema v rule: conforms.induct)
  case (1 schema v)
  show ?case
  proof (cases "untyped schema")
    case True
    then show ?thesis by (rule coerce_untyped)
  next
    case False
    with "1.prems" have fit: "fits schema v" by (simp add: conforms.simps [of schema])
    show ?thesis
    proof (cases v)
      case (JString s)
      with fit show ?thesis by (simp add: fits_def coerce_string_typed)
    next
      case (JArray items)
      show ?thesis
      proof (cases "jget schema ''items''")
        case (Some it)
        have "coerce_value dec num x it = x" if "x \<in> set items" for x
          using that 1 False JArray Some
          by (intro "1.IH"(1)) (auto simp: conforms.simps [of schema] list_all_iff)
        with JArray Some fit show ?thesis
          by (simp add: coerce_value.simps [of _ _ "JArray items"] fits_def map_idI)
      qed (use JArray in \<open>simp add: coerce_value.simps [of _ _ "JArray items"]\<close>)
    next
      case (JObject obj)
      have "(case member_schema schema obj k of
                   Some p \<Rightarrow> if blank_member schema p k x then JNull else coerce_value dec num x p
                 | None \<Rightarrow> (case additional_schema schema obj of
                     Some a \<Rightarrow> coerce_value dec num x a | None \<Rightarrow> x)) = x" if mem: "(k, x) \<in> set obj" for k x
      proof -
        have "x \<noteq> JString []" "no_blank_member x" using mem "1.prems" JObject by (auto simp: list_all_iff)
        moreover have "case member_schema schema obj k of
               Some p \<Rightarrow> conforms p x
             | None \<Rightarrow> (case additional_schema schema obj of Some a \<Rightarrow> conforms a x | None \<Rightarrow> True)"
          using mem "1.prems" False JObject by (auto simp: conforms.simps [of schema] list_all_iff)
        ultimately show ?thesis
          using mem False fit JObject "1.IH"(2,3) [where ?x6.0 = obj]
          by (auto simp: blank_member_def split: option.splits)
      qed
      with JObject fit show ?thesis
        by (auto simp: coerce_value.simps [of _ _ "JObject obj"] fits_def intro!: map_idI)
    qed (simp_all add: coerce_value.simps [of _ _ JNull] coerce_value.simps [of _ _ "JBool _"]
        coerce_value.simps [of _ _ "JNumber _"])
  qed
qed

text \<open>What the head of the string case promises of its answer.\<close>

lemma coerce_string_head_spec:
  "case coerce_string_head dec num s schema of
     Unchanged \<Rightarrow> True
   | Becomes x \<Rightarrow> \<not> schema_allows_type schema ''string'' \<and> (fits schema x \<or> schema_allows_type schema ''number'' \<and> num s = Some x)
   | Parsed x \<Rightarrow> \<not> schema_allows_type schema ''string'' \<and> fits schema x \<and> dec s = Some x"
  by (auto simp: coerce_string_head_def coerce_boolean_def coerce_structured_def structured_def fits_def
      split: if_splits option.splits json.splits string_coercion.splits)

lemma coerce_array_shape: "\<exists>vs'. coerce_value dec num (JArray vs) schema = JArray vs' \<and> length vs' = length vs"
  by (simp add: coerce_value.simps [of _ _ "JArray vs"] split: option.split)

lemma coerce_object_shape: "\<exists>kvs'. coerce_value dec num (JObject kvs) schema = JObject kvs' \<and> map fst kvs' = map fst kvs"
  by (simp add: coerce_value.simps [of _ _ "JObject kvs"] case_prod_unfold comp_def)

lemma fits_structured:
  "fits schema (JArray vs) \<longleftrightarrow> schema_allows_type schema ''array''"
  "fits schema (JObject kvs) \<longleftrightarrow> schema_allows_type schema ''object''"
  by (simp_all add: fits_def)

lemma coerce_typed:
  assumes "\<forall>s x. num s = Some x \<longrightarrow> (\<exists>n. x = JNumber n)"
  shows "coerce_value dec num v schema = v \<or> fits schema (coerce_value dec num v schema)"
proof (cases v)
  case (JString s)
  show ?thesis
  proof (cases "coerce_string_head dec num s schema")
    case (Becomes x)
    with coerce_string_head_spec [where dec = dec and num = num and s = s and schema = schema]
    have "fits schema x \<or> schema_allows_type schema ''number'' \<and> num s = Some x" by simp
    moreover have "\<exists>n. x = JNumber n" if "num s = Some x" using assms that by blast
    ultimately have "fits schema x" by (auto simp: fits_def)
    with JString Becomes show ?thesis by (simp add: coerce_value.simps [of _ _ "JString s"])
  next
    case (Parsed x)
    with coerce_string_head_spec [where dec = dec and num = num and s = s and schema = schema] have "fits schema x" by simp
    moreover from coerce_string_head_Parsed [OF Parsed] consider vs where "x = JArray vs" | kvs where "x = JObject kvs"
      by blast
    ultimately have "fits schema (coerce_value dec num x schema)"
      using coerce_array_shape [where dec = dec and num = num] coerce_object_shape [where dec = dec and num = num]
      by cases (metis fits_structured)+
    with JString Parsed show ?thesis by (simp add: coerce_value.simps [of _ _ "JString s"])
  qed (simp add: JString coerce_value.simps [of _ _ "JString s"])
next
  case (JArray vs)
  then show ?thesis
    by (simp add: coerce_value.simps [of _ _ "JArray vs"] fits_structured split: option.split)
next
  case (JObject kvs)
  then show ?thesis
    by (simp add: coerce_value.simps [of _ _ "JObject kvs"] fits_structured)
qed (simp_all add: coerce_value.simps [of _ _ JNull] coerce_value.simps [of _ _ "JBool _"]
      coerce_value.simps [of _ _ "JNumber _"])


definition sample_schema :: json where
  "sample_schema = JObject [(''type'', JString ''object''),
     (''properties'', JObject [(''count'', JObject [(''type'', JString ''integer'')]),
                               (''flags'', JObject [(''type'', JString ''array''), (''items'', JObject [(''type'', JString ''boolean'')])])])]"

lemma sample_coercion:
  "coerce_value (\<lambda>_. None) (\<lambda>_. None)
     (JObject [(''count'', JString ''-42''), (''flags'', JArray [JString ''TRUE'', JBool False]), (''other'', JString ''7'')]) sample_schema
   = JObject [(''count'', JNumber ''-42''), (''flags'', JArray [JBool True, JBool False]), (''other'', JString ''7'')]"
  by code_simp


text \<open>
  a float that is not finite has no JSON number, so the conversion yields null: where the schema
  of a required member asks for a number and parsing accepts \<open>NaN\<close>, the tool gets null, a type its
  schema does not allow.
\<close>

theorem coerce_nan_is_null:
  assumes "num ''NaN'' = Some JNull"
  defines "schema \<equiv> JObject [(''properties'', JObject [(''x'', JObject [(''type'', JString ''number'')])]), (''required'', JArray [JString ''x'']), (''type'', JString ''object'')]"
  shows "coerce_value dec num (JObject [(''x'', JString ''NaN'')]) schema = JObject [(''x'', JNull)]
    \<and> \<not> fits (JObject [(''type'', JString ''number'')]) JNull"
proof -
  have p: "member_schema schema [(''x'', JString ''NaN'')] ''x'' = Some (JObject [(''type'', JString ''number'')])"
    unfolding schema_def by code_simp
  have "coerce_value dec num (JString ''NaN'') (JObject [(''type'', JString ''number'')]) = JNull"
    using assms(1)
    by (simp add: coerce_value.simps [of _ _ "JString _"] coerce_string_head_def schema_allows_type_def jget_def)
  moreover have "schema_allows_type schema ''object''" unfolding schema_def by code_simp
  moreover have "\<not> fits (JObject [(''type'', JString ''number'')]) JNull" by code_simp
  ultimately show ?thesis
    using p by (simp add: coerce_value.simps [of _ _ "JObject _"] blank_member_def)
qed

theorem coerce_nan_is_null_witness:
  "coerce_value (\<lambda>_. None) (\<lambda>s. if s = ''NaN'' then Some JNull else None) (JObject [(''x'', JString ''NaN'')])
     (JObject [(''properties'', JObject [(''x'', JObject [(''type'', JString ''number'')])]), (''required'', JArray [JString ''x'']), (''type'', JString ''object'')])
   = JObject [(''x'', JNull)]"
  using coerce_nan_is_null [of "\<lambda>s. if s = ''NaN'' then Some JNull else None" "\<lambda>_. None"] by simp

end
