(* ===== verification/Schema_Check.thy ===== *)
theory Schema_Check
  imports Coercion
begin

text \<open>
  The two validators of tool parameter schemas: the lenient one of \<open>src/tools/tool.rs\<close>, run when a tool
  is registered, and the strict one of \<open>src/tools/schema_validator.rs\<close>.  Both return the list of errors
  with the path of each.  The lenient one is bounded by its depth, the strict one recurses into the
  schema.  The checks the two files have word for word in common are defined once.  \<open>enc\<close> prints a JSON
  value.  Lemmas: when a schema the strict validator accepts is accepted by the lenient one, and a schema
  where they disagree.
\<close>

definition MAX_SCHEMA_DEPTH :: nat where "MAX_SCHEMA_DEPTH = 16"

abbreviation dq :: "string \<Rightarrow> string" where "dq s \<equiv> [CHR 0x22] @ s @ [CHR 0x22]"

definition object_like :: "json \<Rightarrow> bool" where
  "object_like v \<longleftrightarrow> jget_str v ''type'' = Some ''object'' \<or> jget v ''properties'' \<noteq> None"

definition has_object_combinator_variants :: "json \<Rightarrow> bool" where
  "has_object_combinator_variants schema \<longleftrightarrow>
     list_ex (\<lambda>k. case schema_variants schema k of Some vs \<Rightarrow> list_ex object_like vs | None \<Rightarrow> False)
       [''oneOf'', ''anyOf'', ''allOf'']"

definition combinator_errors :: "string \<Rightarrow> json \<Rightarrow> string list" where
  "combinator_errors path schema =
     concat (map (\<lambda>k. case jget schema k of
         Some v \<Rightarrow> if as_array v = None then [path @ '': '' @ dq k @ '' must be an array''] else []
       | None \<Rightarrow> []) [''oneOf'', ''anyOf'', ''allOf''])"

text \<open>The rule on \<open>type\<close>: an error that ends the check, if any.\<close>

definition type_error :: "string \<Rightarrow> json \<Rightarrow> string option" where
  "type_error path schema =
     (case jget_str schema ''type'' of
        Some t \<Rightarrow> if t = ''object'' then None else Some (path @ '': expected type '' @ dq ''object'' @ '', got '' @ dq t)
      | None \<Rightarrow>
          if has_object_combinator_variants schema then None
          else Some (path @ '': missing '' @ dq ''type'' @ '': '' @ dq ''object''))"

definition merged_keys :: "json \<Rightarrow> string list" where
  "merged_keys schema =
     concat (map (\<lambda>k. concat (map (\<lambda>v. map fst (unwrap_or (schema_properties v) []))
       (unwrap_or (schema_variants schema k) []))) [''allOf'', ''oneOf'', ''anyOf''])"

definition combinator_required_errors :: "string \<Rightarrow> json \<Rightarrow> string list" where
  "combinator_required_errors path schema =
     map (\<lambda>k. path @ '': required key '' @ dq k @ '' not found in any combinator variant properties'')
       (filter (\<lambda>k. k \<notin> set (merged_keys schema)) (required_keys schema))"

definition required_errors :: "string \<Rightarrow> (string \<times> json) list \<Rightarrow> json \<Rightarrow> string list" where
  "required_errors path props schema =
     map (\<lambda>k. path @ '': required key '' @ dq k @ '' not found in properties'')
       (filter (\<lambda>k. map_of props k = None) (required_keys schema))"

definition missing_properties :: "string \<Rightarrow> string" where
  "missing_properties path = path @ '': missing or non-object '' @ dq ''properties''"

definition variant_path :: "string \<Rightarrow> string \<Rightarrow> nat \<Rightarrow> string" where
  "variant_path path k i = path @ ''.'' @ k @ ''['' @ show_nat i @ '']''"

definition missing_items :: "string \<Rightarrow> string" where
  "missing_items path = path @ '': array property missing '' @ dq ''items''"

subsection \<open>The lenient validator\<close>

function validate_tool_schema_inner :: "json \<Rightarrow> string \<Rightarrow> nat \<Rightarrow> string list" where
  "validate_tool_schema_inner schema path depth =
     (if depth > MAX_SCHEMA_DEPTH
      then [path @ '': schema nesting exceeds maximum depth of '' @ show_nat MAX_SCHEMA_DEPTH]
      else case type_error path schema of
        Some e \<Rightarrow> combinator_errors path schema @ [e]
      | None \<Rightarrow>
          combinator_errors path schema
          @ concat (map (\<lambda>k. concat (map (\<lambda>(i, v).
                if object_like v then validate_tool_schema_inner v (variant_path path k i) (depth + 1) else [])
              (List.enumerate 0 (unwrap_or (schema_variants schema k) [])))) [''allOf'', ''oneOf'', ''anyOf''])
          @ (case schema_properties schema of
               None \<Rightarrow>
                 if has_object_combinator_variants schema then combinator_required_errors path schema
                 else [missing_properties path]
             | Some props \<Rightarrow>
                 required_errors path props schema
                 @ concat (map (\<lambda>(k, p).
                     let ppath = path @ ''.'' @ k in
                     case jget_str p ''type'' of
                       Some t \<Rightarrow>
                         if t = ''object'' then validate_tool_schema_inner p ppath (depth + 1)
                         else if t = ''array'' then
                           (case jget p ''items'' of
                              Some it \<Rightarrow>
                                if jget_str it ''type'' = Some ''object''
                                then validate_tool_schema_inner it (ppath @ ''.items'') (depth + 1) else []
                            | None \<Rightarrow> [missing_items ppath])
                         else []
                     | None \<Rightarrow> []) props)))"
  by pat_completeness auto
termination
  by (relation "measure (\<lambda>(_, _, d). Suc MAX_SCHEMA_DEPTH - d)") auto

declare validate_tool_schema_inner.simps [simp del]

definition validate_tool_schema :: "json \<Rightarrow> string \<Rightarrow> string list" where
  "validate_tool_schema schema path = validate_tool_schema_inner schema path 0"

subsection \<open>The strict validator\<close>

definition additional_ok :: "json \<Rightarrow> bool" where
  "additional_ok schema =
     (case jget schema ''additionalProperties'' of
        None \<Rightarrow> True | Some a \<Rightarrow> a = JBool False \<or> jget a ''type'' \<noteq> None)"

definition enum_type_matches :: "string \<Rightarrow> json \<Rightarrow> bool" where
  "enum_type_matches t v =
     (if t = ''string'' then (case v of JString _ \<Rightarrow> True | _ \<Rightarrow> False)
      else if t = ''integer'' \<or> t = ''number'' then (case v of JNumber _ \<Rightarrow> True | _ \<Rightarrow> False)
      else if t = ''boolean'' then (case v of JBool _ \<Rightarrow> True | _ \<Rightarrow> False)
      else True)"

definition enum_errors :: "(json \<Rightarrow> string) \<Rightarrow> string \<Rightarrow> string \<Rightarrow> json \<Rightarrow> string list" where
  "enum_errors enc ppath t p =
     map (\<lambda>(i, v). ppath @ '': enum['' @ show_nat i @ ''] value '' @ enc v @ '' does not match declared type '' @ dq t)
       (filter (\<lambda>(i, v). \<not> enum_type_matches t v)
          (List.enumerate 0 (unwrap_or (Option.bind (jget p ''enum'') as_array) [])))"

definition map_type :: "json \<Rightarrow> bool" where
  "map_type p \<longleftrightarrow> jget p ''additionalProperties'' \<noteq> None \<and> jget p ''properties'' = None"

text \<open>The rules on one property, given the errors of its own schema and those of its items.\<close>

definition strict_property ::
  "(json \<Rightarrow> string) \<Rightarrow> string \<Rightarrow> json \<Rightarrow> string list \<Rightarrow> string list \<Rightarrow> string list" where
  "strict_property enc ppath p own item_errors =
     (let t = unwrap_or (jget_str p ''type'') [] in
      if jget p ''type'' = None then []
      else
        (if additional_ok p then []
         else [ppath @ '': '' @ dq ''additionalProperties'' @ '' should be false or a type schema''])
        @ enum_errors enc ppath t p
        @ (if t = ''object'' \<and> \<not> map_type p then own else [])
        @ (if t = ''array'' then
             (case jget p ''items'' of
                None \<Rightarrow> [missing_items ppath]
              | Some it \<Rightarrow> if jget_str it ''type'' = Some ''object'' then item_errors else [])
           else []))"

lemma variant_smaller [termination_simp]:
  "(i, v) \<in> set (List.enumerate n (unwrap_or (schema_variants s k) [])) \<Longrightarrow> size v < size s"
  by (cases "schema_variants s k") (auto simp: unwrap_or_def in_set_enumerate_eq intro: schema_variants_size)

lemma property_smaller [termination_simp]:
  "schema_properties s = Some ps \<Longrightarrow> (k, p) \<in> set ps \<Longrightarrow> size p < size s"
  using schema_properties_below by (fastforce simp: below_def list_all_iff)

function check_object_schema :: "(json \<Rightarrow> string) \<Rightarrow> json \<Rightarrow> string \<Rightarrow> string list" where
  "check_object_schema enc schema path =
     (case type_error path schema of
        Some e \<Rightarrow> combinator_errors path schema @ [e]
      | None \<Rightarrow>
          combinator_errors path schema
          @ concat (map (\<lambda>k. concat (map (\<lambda>(i, v).
                if object_like v then check_object_schema enc v (variant_path path k i) else [])
              (List.enumerate 0 (unwrap_or (schema_variants schema k) [])))) [''allOf'', ''oneOf'', ''anyOf''])
          @ (case schema_properties schema of
               None \<Rightarrow>
                 if has_object_combinator_variants schema then combinator_required_errors path schema
                 else [missing_properties path]
             | Some props \<Rightarrow>
                 required_errors path props schema
                 @ concat (map (\<lambda>(k, p).
                     strict_property enc (path @ ''.'' @ k) p (check_object_schema enc p (path @ ''.'' @ k))
                       (case jget p ''items'' of
                          Some it \<Rightarrow> check_object_schema enc it (path @ ''.'' @ k @ ''.items'') | None \<Rightarrow> [])) props)
                 @ (if additional_ok schema then []
                    else [path @ '': top-level '' @ dq ''additionalProperties'' @ '' should be false or a type schema''])))"
  by pat_completeness auto
termination
  by (relation "measure (\<lambda>(_, s, _). size s)")
     (auto intro: variant_smaller property_smaller dest!: size_jget dest: property_smaller)

declare check_object_schema.simps [simp del]

definition validate_strict_schema :: "(json \<Rightarrow> string) \<Rightarrow> json \<Rightarrow> string \<Rightarrow> (string list, unit) result" where
  "validate_strict_schema enc schema nm =
     (let errors = check_object_schema enc schema nm in if errors = [] then Ok () else Err errors)"

subsection \<open>How the two validators relate\<close>

text \<open>The nesting height of a value, and schemas without properties that are maps.\<close>

fun jheight :: "json \<Rightarrow> nat" where
  "jheight (JObject kvs) = Suc (fold max (map (\<lambda>(k, v). jheight v) kvs) 0)"
| "jheight (JArray vs) = Suc (fold max (map jheight vs) 0)"
| "jheight _ = 0"

fun no_map_types :: "json \<Rightarrow> bool" where
  "no_map_types (JObject kvs) \<longleftrightarrow> \<not> map_type (JObject kvs) \<and> list_all (\<lambda>(k, v). no_map_types v) kvs"
| "no_map_types (JArray vs) \<longleftrightarrow> list_all no_map_types vs"
| "no_map_types _ \<longleftrightarrow> True"

lemma fold_max_ge: "x \<in> set xs \<Longrightarrow> x \<le> fold max xs (n :: nat)" "n \<le> fold max xs n"
proof -
  show ge: "n \<le> fold max xs n" for xs and n :: nat
    by (induction xs arbitrary: n) (auto intro: order_trans [OF max.cobounded2])
  show "x \<in> set xs \<Longrightarrow> x \<le> fold max xs n"
    by (induction xs arbitrary: n) (auto intro: order_trans [OF max.cobounded1 ge])
qed

definition nested_in :: "json \<Rightarrow> json \<Rightarrow> bool" where
  "nested_in x v \<longleftrightarrow> jheight x < jheight v \<and> (no_map_types v \<longrightarrow> no_map_types x)"

lemma nested_in_trans: "nested_in x y \<Longrightarrow> nested_in y z \<Longrightarrow> nested_in x z"
  by (auto simp: nested_in_def)

lemma nested_member: "(k, x) \<in> set kvs \<Longrightarrow> nested_in x (JObject kvs)"
proof -
  assume mem: "(k, x) \<in> set kvs"
  then have "jheight x \<in> set (map (\<lambda>(k, v). jheight v) kvs)" by force
  from fold_max_ge(1) [OF this, of 0] mem show ?thesis by (auto simp: nested_in_def list_all_iff)
qed

lemma nested_item: "x \<in> set vs \<Longrightarrow> nested_in x (JArray vs)"
  using fold_max_ge(1) [of "jheight x" "map jheight vs" 0] by (auto simp: nested_in_def list_all_iff)

lemma nested_jget: "jget v k = Some x \<Longrightarrow> nested_in x v"
  by (auto simp: jget_def split: json.splits intro: nested_member map_of_SomeD)

lemma nested_variant:
  assumes "(i, v) \<in> set (List.enumerate n (unwrap_or (schema_variants s k) []))"
  shows "nested_in v s"
proof (cases "schema_variants s k")
  case (Some vs)
  then have "jget s k = Some (JArray vs)" by (auto simp: schema_variants_def split: bind_splits)
  moreover have "v \<in> set vs" using assms Some by (auto simp: unwrap_or_def in_set_enumerate_eq)
  ultimately show ?thesis using nested_in_trans [OF nested_item nested_jget] by blast
qed (use assms in \<open>simp add: unwrap_or_def\<close>)

lemma nested_property: "schema_properties s = Some ps \<Longrightarrow> (k, p) \<in> set ps \<Longrightarrow> nested_in p s"
  by (auto simp: schema_properties_def split: bind_splits intro: nested_in_trans [OF nested_member nested_jget])

lemma concat_map_Nil: "concat (map f xs) = [] \<longleftrightarrow> (\<forall>x \<in> set xs. f x = [])"
  by auto

text \<open>When each validator reports nothing.\<close>

lemma strict_nil_iff:
  "check_object_schema enc s path = [] \<longleftrightarrow>
     type_error path s = None \<and> combinator_errors path s = [] \<and>
     (\<forall>k \<in> {''allOf'', ''oneOf'', ''anyOf''}. \<forall>iv \<in> set (List.enumerate 0 (unwrap_or (schema_variants s k) [])).
        object_like (snd iv) \<longrightarrow> check_object_schema enc (snd iv) (variant_path path k (fst iv)) = []) \<and>
     (case schema_properties s of
        None \<Rightarrow> has_object_combinator_variants s \<and> combinator_required_errors path s = []
      | Some props \<Rightarrow>
          required_errors path props s = [] \<and> additional_ok s \<and>
          (\<forall>kp \<in> set props. strict_property enc (path @ ''.'' @ fst kp) (snd kp)
             (check_object_schema enc (snd kp) (path @ ''.'' @ fst kp))
             (case jget (snd kp) ''items'' of
                Some it \<Rightarrow> check_object_schema enc it (path @ ''.'' @ fst kp @ ''.items'') | None \<Rightarrow> []) = []))"
  by (subst check_object_schema.simps)
     (auto simp: concat_map_Nil case_prod_unfold Let_def simp del: concat_eq_Nil_conv split: option.split if_splits)

lemma lenient_nil_iff:
  "validate_tool_schema_inner s path depth = [] \<longleftrightarrow>
     depth \<le> MAX_SCHEMA_DEPTH \<and> type_error path s = None \<and> combinator_errors path s = [] \<and>
     (\<forall>k \<in> {''allOf'', ''oneOf'', ''anyOf''}. \<forall>iv \<in> set (List.enumerate 0 (unwrap_or (schema_variants s k) [])).
        object_like (snd iv) \<longrightarrow> validate_tool_schema_inner (snd iv) (variant_path path k (fst iv)) (Suc depth) = []) \<and>
     (case schema_properties s of
        None \<Rightarrow> has_object_combinator_variants s \<and> combinator_required_errors path s = []
      | Some props \<Rightarrow>
          required_errors path props s = [] \<and>
          (\<forall>kp \<in> set props. let ppath = path @ ''.'' @ fst kp; p = snd kp in
             (jget_str p ''type'' = Some ''object'' \<longrightarrow> validate_tool_schema_inner p ppath (Suc depth) = []) \<and>
             (jget_str p ''type'' = Some ''array'' \<longrightarrow> (\<exists>it. jget p ''items'' = Some it \<and>
                (jget_str it ''type'' = Some ''object'' \<longrightarrow> validate_tool_schema_inner it (ppath @ ''.items'') (Suc depth) = [])))))"
  by (subst validate_tool_schema_inner.simps)
     (auto simp: concat_map_Nil case_prod_unfold Let_def simp del: concat_eq_Nil_conv split: option.splits if_splits)

lemma strict_property_nil:
  "strict_property enc ppath p own item_errors = [] \<Longrightarrow> \<not> map_type p \<Longrightarrow>
     (jget_str p ''type'' = Some ''object'' \<longrightarrow> own = []) \<and>
     (jget_str p ''type'' = Some ''array'' \<longrightarrow>
        (\<exists>it. jget p ''items'' = Some it \<and> (jget_str it ''type'' = Some ''object'' \<longrightarrow> item_errors = [])))"
  by (auto simp: strict_property_def Let_def unwrap_or_def jget_str_def split: option.splits if_splits)

lemma strict_implies_lenient:
  "check_object_schema enc s path = [] \<Longrightarrow> depth + jheight s \<le> MAX_SCHEMA_DEPTH \<Longrightarrow> no_map_types s \<Longrightarrow>
   validate_tool_schema_inner s path depth = []"
proof (induction "size s" arbitrary: s path depth rule: less_induct)
  case less
  have rec: "validate_tool_schema_inner x q (Suc depth) = []"
    if "check_object_schema enc x q = []" "size x < size s" "nested_in x s" for x q
    using that less.prems(2,3) by (intro less.hyps) (auto simp: nested_in_def)
  have nomap: "\<not> map_type x" if "no_map_types x" for x
    using that by (cases x) (auto simp: map_type_def jget_def)
  have per_property: "let ppath = path @ ''.'' @ fst kp; p = snd kp in
      (jget_str p ''type'' = Some ''object'' \<longrightarrow> validate_tool_schema_inner p ppath (Suc depth) = []) \<and>
      (jget_str p ''type'' = Some ''array'' \<longrightarrow> (\<exists>it. jget p ''items'' = Some it \<and>
         (jget_str it ''type'' = Some ''object'' \<longrightarrow> validate_tool_schema_inner it (ppath @ ''.items'') (Suc depth) = [])))"
    if ps: "schema_properties s = Some props" "kp \<in> set props" for props kp
  proof -
    have mem: "(fst kp, snd kp) \<in> set props" using ps by simp
    note sz = property_smaller [OF ps(1) mem] and ne = nested_property [OF ps(1) mem]
    have "no_map_types (snd kp)" using ne less.prems(3) by (simp add: nested_in_def)
    then have nm: "\<not> map_type (snd kp)" by (rule nomap)
    have "strict_property enc (path @ ''.'' @ fst kp) (snd kp)
             (check_object_schema enc (snd kp) (path @ ''.'' @ fst kp))
             (case jget (snd kp) ''items'' of
                Some it \<Rightarrow> check_object_schema enc it (path @ ''.'' @ fst kp @ ''.items'') | None \<Rightarrow> []) = []"
      using less.prems(1) ps unfolding strict_nil_iff [of enc s] by simp
    note sp = strict_property_nil [OF this nm]
    have "validate_tool_schema_inner it q (Suc depth) = []"
      if "jget (snd kp) ''items'' = Some it" "check_object_schema enc it q = []" for it q
      using that sz ne size_jget [OF that(1)] nested_in_trans [OF nested_jget [OF that(1)] ne] by (intro rec) auto
    with sp rec [OF _ sz ne] show ?thesis unfolding Let_def by (auto split: option.splits)
  qed
  show ?case
    unfolding lenient_nil_iff [of s]
    using less.prems(1,2) per_property unfolding strict_nil_iff [of enc s]
    by (auto split: option.splits intro!: rec intro: variant_smaller nested_variant)
qed



definition map_schema :: json where
  "map_schema = JObject [(''properties'', JObject [(''headers'',
       JObject [(''additionalProperties'', JObject [(''type'', JString ''string'')]), (''type'', JString ''object'')])]),
     (''type'', JString ''object'')]"

text \<open>
  the strict validator is not the stricter one.  A property that is a map of strings, which JSON
  Schema allows and the strict validator accepts as such, is rejected by the lenient validator that
  runs when a tool is loaded.
\<close>

theorem lenient_rejects_maps:
  "validate_strict_schema enc map_schema ''tool'' = Ok () \<and>
   validate_tool_schema map_schema ''tool'' = [''tool.headers: missing or non-object '' @ dq ''properties'']"
proof
  have "check_object_schema enc map_schema ''tool'' = []"
    unfolding map_schema_def
    by (subst strict_nil_iff)
       (simp add: type_error_def jget_str_def jget_def as_str_def combinator_errors_def schema_variants_def unwrap_or_def
        schema_properties_def as_object_def required_errors_def required_keys_def additional_ok_def map_filter_def
        strict_property_def enum_errors_def map_type_def)
  then show "validate_strict_schema enc map_schema ''tool'' = Ok ()"
    by (simp add: validate_strict_schema_def)
  show "validate_tool_schema map_schema ''tool'' = [''tool.headers: missing or non-object '' @ dq ''properties'']"
    by code_simp
qed

end
