(* ===== verification/Response_Cleaning.thy ===== *)
theory Response_Cleaning
  imports Text_Ops Chat_Message "HOL-Library.While_Combinator"
begin

text \<open>
  The text functions of \<open>src/llm/reasoning.rs\<close>: the detection of announced tool use and of silent
  replies, the regions of code in a response, the removal of reasoning and tool tags, and the
  recovery of tool calls that a model wrote into its text.

  Offsets are byte offsets, loops over them are recursions with the distance to the end as measure.
  The regular expressions for reasoning tags are parameters: \<open>re_find\<close> lists the spans of the matches
  and \<open>re_group1\<close> is the first capture group of the first match. \<open>lc\<close> is \<open>str::to_lowercase\<close>, and
  \<open>parse\<close> is \<open>serde_json::from_str\<close>.
\<close>

subsection \<open>Announced tool use\<close>

definition SILENT_REPLY_TOKEN :: string where "SILENT_REPLY_TOKEN = ''NO_REPLY''"

text \<open>The long dash of the message is its three UTF-8 bytes.\<close>

definition TOOL_INTENT_NUDGE :: string where
  "TOOL_INTENT_NUDGE =
     ''You said you would perform an action, but you did not include any tool calls.'' @ [CHR 0x0A] @
     ''Do NOT describe what you intend to do '' @ [CHR 0xE2, CHR 0x80, CHR 0x94] @
     '' actually call the tool now.'' @ [CHR 0x0A] @
     ''Use the tool_calls mechanism to invoke the appropriate tool.''"

fun strip_quotes_from :: "bool \<Rightarrow> char \<Rightarrow> string \<Rightarrow> string" where
  "strip_quotes_from in_quote prev [] = []"
| "strip_quotes_from in_quote prev (ch # cs) =
     (if ch = CHR 0x22 \<and> prev \<noteq> CHR 0x5C then strip_quotes_from (\<not> in_quote) prev cs
      else (if in_quote then [] else [ch]) @ strip_quotes_from in_quote ch cs)"

definition strip_quoted_strings :: "string \<Rightarrow> string" where
  "strip_quoted_strings line = strip_quotes_from False (CHR 0x00) line"

fun strip_code_lines :: "bool \<Rightarrow> string list \<Rightarrow> string" where
  "strip_code_lines in_fence [] = []"
| "strip_code_lines in_fence (line # ls) =
     (if starts_with (trim_start line) ''```'' then strip_code_lines (\<not> in_fence) ls
      else if in_fence then strip_code_lines in_fence ls
      else if starts_with line ''    '' \<or> starts_with line [CHR 0x09] then strip_code_lines in_fence ls
      else strip_quoted_strings line @ [CHR 0x0A] @ strip_code_lines in_fence ls)"

definition strip_code_blocks :: "string \<Rightarrow> string" where
  "strip_code_blocks tx = strip_code_lines False (str_lines tx)"

definition INTENT_EXCLUSIONS :: "string list" where
  "INTENT_EXCLUSIONS = map (\<lambda>v. ''let me '' @ v)
     [''explain'', ''know'', ''think'', ''summarize'', ''clarify'', ''describe'', ''help'', ''understand'',
      ''break'', ''outline'', ''walk you'', ''provide'', ''suggest'', ''elaborate'', ''start by'']"

definition INTENT_PREFIXES :: "string list" where
  "INTENT_PREFIXES = [''let me '', ''i'' @ [CHR 0x27] @ ''ll '', ''i will '', ''i'' @ [CHR 0x27] @ ''m going to '']"

definition ACTION_VERBS :: "string list" where
  "ACTION_VERBS =
     [''search'', ''look up'', ''check'', ''fetch'', ''find'', ''read the'', ''write the'', ''create'', ''run the'',
      ''execute'', ''query'', ''retrieve'', ''add it'', ''add the'', ''add this'', ''add that'', ''update the'',
      ''delete'', ''remove the'', ''look into'']"

text \<open>\<open>str::match_indices\<close>: what follows each occurrence, for occurrences that do not overlap.\<close>

fun after_matches :: "string \<Rightarrow> string \<Rightarrow> string list" where
  "after_matches p [] = []"
| "after_matches p (c # cs) =
     (if p \<noteq> [] \<and> starts_with (c # cs) p
      then drop (length p - 1) cs # after_matches p (drop (length p - 1) cs)
      else after_matches p cs)"

definition llm_signals_tool_intent :: "(string \<Rightarrow> string) \<Rightarrow> string \<Rightarrow> bool" where
  "llm_signals_tool_intent lc response =
     (let lower = lc (strip_code_blocks response) in
      if list_ex (contains_str lower) INTENT_EXCLUSIONS then False
      else list_ex (\<lambda>prefix. list_ex (\<lambda>after.
             list_ex (\<lambda>verb. starts_with after verb \<or> contains_str after ('' '' @ verb)) ACTION_VERBS)
             (after_matches prefix lower)) INTENT_PREFIXES)"

definition is_ascii_punctuation :: "string \<Rightarrow> bool" where
  "is_ascii_punctuation ch \<longleftrightarrow> (case ch of
     [c] \<Rightarrow> let n = (of_char c :: nat) in
           (33 \<le> n \<and> n \<le> 47) \<or> (58 \<le> n \<and> n \<le> 64) \<or> (91 \<le> n \<and> n \<le> 96) \<or> (123 \<le> n \<and> n \<le> 126)
   | _ \<Rightarrow> False)"

definition is_silent_reply :: "string \<Rightarrow> bool" where
  "is_silent_reply tx =
     (let trimmed = trim_str tx in
      trimmed = SILENT_REPLY_TOKEN \<or>
      starts_with trimmed SILENT_REPLY_TOKEN \<and> length trimmed \<le> length SILENT_REPLY_TOKEN + 4 \<and>
      list_all (\<lambda>c. c \<in> set white_space \<or> is_ascii_punctuation c)
        (str_chars (drop (length SILENT_REPLY_TOKEN) trimmed)))"

subsection \<open>Regions of code\<close>

type_synonym code_region = "nat \<times> nat"

text \<open>Positions from \<open>i\<close> on: past a run of bytes, and past the next line feed.\<close>

definition skip_while :: "(char \<Rightarrow> bool) \<Rightarrow> string \<Rightarrow> nat \<Rightarrow> nat" where
  "skip_while P tx i = i + length (takeWhile P (drop i tx))"

definition next_line :: "string \<Rightarrow> nat \<Rightarrow> nat option" where
  "next_line tx i = map_option (\<lambda>nl. i + nl + 1) (find_str (drop i tx) [CHR 0x0A])"

definition is_blank :: "char \<Rightarrow> bool" where
  "is_blank c \<longleftrightarrow> c = CHR '' '' \<or> c = CHR 0x09"

lemma skip_while_ge: "i \<le> skip_while P tx i"
  by (simp add: skip_while_def)

lemma skip_while_le: "i \<le> length tx \<Longrightarrow> skip_while P tx i \<le> length tx"
  using length_takeWhile_le [of P "drop i tx"] by (simp add: skip_while_def)

lemma next_line_bounds: "next_line tx i = Some j \<Longrightarrow> i < j \<and> j \<le> length tx"
proof -
  assume "next_line tx i = Some j"
  then obtain nl where nl: "find_str (drop i tx) [CHR 0x0A] = Some nl" "j = i + nl + 1"
    by (auto simp: next_line_def)
  then have "starts_with (drop nl (drop i tx)) [CHR 0x0A]" using find_str_Some by blast
  then have "nl < length (drop i tx)"
    by (metis drop_all linorder_le_less_linear list.distinct(1) starts_with_def take_Nil)
  with nl show ?thesis by simp
qed

text \<open>The search for the line that closes a fence; the position behind that line.\<close>

function find_close :: "string \<Rightarrow> char \<Rightarrow> nat \<Rightarrow> nat \<Rightarrow> nat option" where
  "find_close tx fence fence_len i =
     (if \<not> i < length tx then None
      else
        let i1 = skip_while is_blank tx i;
            i2 = skip_while (\<lambda>c. c = fence) tx i1;
            i3 = skip_while is_blank tx i2 in
        if i1 < length tx \<and> tx ! i1 = fence \<and> fence_len \<le> i2 - i1 \<and>
           (length tx \<le> i3 \<or> tx ! i3 = CHR 0x0A)
        then Some (if i3 < length tx then i3 + 1 else i3)
        else case next_line tx i of Some j \<Rightarrow> find_close tx fence fence_len j | None \<Rightarrow> None)"
  by pat_completeness auto
termination
  by (relation "measure (\<lambda>(tx, fence, fence_len, i). length tx - i)") (auto dest: next_line_bounds)

declare find_close.simps [simp del]

lemma find_close_bounds:
  "find_close tx fence fence_len i = Some e \<Longrightarrow> i \<le> e \<and> e \<le> length tx"
proof (induction tx fence fence_len i rule: find_close.induct)
  case (1 tx fence fence_len i)
  let ?i1 = "skip_while is_blank tx i"
  let ?i2 = "skip_while (\<lambda>c. c = fence) tx ?i1"
  let ?i3 = "skip_while is_blank tx ?i2"
  from 1(2) have lt: "i < length tx" by (subst (asm) find_close.simps) (auto split: if_splits)
  have ge: "i \<le> ?i3" using skip_while_ge order_trans by meson
  have le: "?i3 \<le> length tx" using lt by (intro skip_while_le) auto
  show ?case
  proof (cases "?i1 < length tx \<and> tx ! ?i1 = fence \<and> fence_len \<le> ?i2 - ?i1 \<and>
                (length tx \<le> ?i3 \<or> tx ! ?i3 = CHR 0x0A)")
    case True
    with 1(2) lt have "e = (if ?i3 < length tx then ?i3 + 1 else ?i3)"
      by (subst (asm) find_close.simps) (simp add: Let_def)
    with ge le show ?thesis by auto
  next
    case False
    with 1(2) lt obtain j where j: "next_line tx i = Some j" "find_close tx fence fence_len j = Some e"
      by (subst (asm) find_close.simps) (auto simp: Let_def split: option.splits)
    from 1(1) [OF _ refl refl refl False j] lt have "j \<le> e \<and> e \<le> length tx" by simp
    with next_line_bounds [OF j(1)] show ?thesis by simp
  qed
qed

function fenced_regions :: "string \<Rightarrow> nat \<Rightarrow> code_region list" where
  "fenced_regions tx i =
     (if \<not> i < length tx then []
      else if 0 < i \<and> tx ! (i - 1) \<noteq> CHR 0x0A
      then (case next_line tx i of Some j \<Rightarrow> fenced_regions tx j | None \<Rightarrow> [])
      else
        let i1 = skip_while is_blank tx i;
            i2 = skip_while (\<lambda>c. c = tx ! i1) tx i1 in
        if \<not> (i1 < length tx \<and> (tx ! i1 = CHR ''`'' \<or> tx ! i1 = CHR ''~''))
        then (case next_line tx i1 of Some j \<Rightarrow> fenced_regions tx j | None \<Rightarrow> [])
        else if i2 - i1 < 3
        then (case next_line tx i2 of Some j \<Rightarrow> fenced_regions tx j | None \<Rightarrow> [])
        else case next_line tx i2 of
          None \<Rightarrow> [(i, length tx)]
        | Some c \<Rightarrow>
            (case find_close tx (tx ! i1) (i2 - i1) c of
               Some e \<Rightarrow> (i, e) # fenced_regions tx e
             | None \<Rightarrow> [(i, length tx)]))"
  by pat_completeness auto
termination
proof (relation "measure (\<lambda>(tx, i). length tx - i)", goal_cases)
  case 1
  show ?case by simp
qed (auto dest!: next_line_bounds find_close_bounds intro!: diff_less_mono2
       intro: le_less_trans [OF skip_while_ge] le_less_trans [OF order_trans [OF skip_while_ge skip_while_ge]]
              less_le_trans [OF le_less_trans [OF order_trans [OF skip_while_ge skip_while_ge]]])

function find_run :: "string \<Rightarrow> nat \<Rightarrow> nat \<Rightarrow> nat option" where
  "find_run tx tick_len k =
     (if \<not> k < length tx then None
      else if tx ! k \<noteq> CHR ''`'' then find_run tx tick_len (k + 1)
      else let e = skip_while (\<lambda>c. c = CHR ''`'') tx k in
           if e - k = tick_len then Some e else find_run tx tick_len e)"
  by pat_completeness auto
termination
proof (relation "measure (\<lambda>(tx, tick_len, k). length tx - k)", goal_cases)
  case (3 tx tick_len k e)
  then have "drop k tx = CHR ''`'' # drop (k + 1) tx" by (metis Cons_nth_drop_Suc Suc_eq_plus1 not_not)
  with 3 show ?case by (auto simp: skip_while_def)
qed auto

declare fenced_regions.simps [simp del] find_run.simps [simp del]

lemma skip_ticks_gt:
  "k < length tx \<Longrightarrow> tx ! k = CHR ''`'' \<Longrightarrow> k < skip_while (\<lambda>c. c = CHR ''`'') tx k"
  by (simp add: skip_while_def Cons_nth_drop_Suc [symmetric])

lemma find_run_bounds: "find_run tx n k = Some e \<Longrightarrow> k \<le> e \<and> e \<le> length tx"
proof (induction tx n k rule: find_run.induct)
  case (1 tx n k)
  let ?e = "skip_while (\<lambda>c. c = CHR ''`'') tx k"
  from 1(3) have lt: "k < length tx" by (subst (asm) find_run.simps) (auto split: if_splits)
  show ?case
  proof (cases "tx ! k = CHR ''`''")
    case True
    have b: "k \<le> ?e" "?e \<le> length tx" using lt by (auto intro: skip_while_ge skip_while_le)
    show ?thesis
    proof (cases "?e - k = n")
      case False
      with True lt 1(3) have "find_run tx n ?e = Some e" by (subst (asm) find_run.simps) (simp add: Let_def)
      with 1(2) [OF _ _ refl False] lt True b show ?thesis by simp
    next
      case eq: True
      with True lt 1(3) have "e = ?e" by (subst (asm) find_run.simps) (simp add: Let_def)
      with b show ?thesis by simp
    qed
  next
    case False
    with lt 1(3) have "find_run tx n (k + 1) = Some e" by (subst (asm) find_run.simps) simp
    with 1(1) lt False show ?thesis by simp
  qed
qed

definition is_inside_code :: "nat \<Rightarrow> code_region list \<Rightarrow> bool" where
  "is_inside_code pos regions \<longleftrightarrow> list_ex (\<lambda>(a, b). a \<le> pos \<and> pos < b) regions"

function inline_regions :: "string \<Rightarrow> code_region list \<Rightarrow> nat \<Rightarrow> code_region list" where
  "inline_regions tx regions j =
     (if \<not> j < length tx then regions
      else if tx ! j \<noteq> CHR ''`'' then inline_regions tx regions (j + 1)
      else if is_inside_code j regions then inline_regions tx regions (j + 1)
      else let e = skip_while (\<lambda>c. c = CHR ''`'') tx j in
           case find_run tx (e - j) e of
             Some k \<Rightarrow> inline_regions tx (regions @ [(j, k)]) k
           | None \<Rightarrow> inline_regions tx regions e)"
  by pat_completeness auto
termination
proof (relation "measure (\<lambda>(tx, regions, j). length tx - j)", goal_cases)
  case (4 tx regions j e)
  with skip_ticks_gt [of j tx] show ?case by auto
next
  case (5 tx regions j e k)
  with skip_ticks_gt [of j tx] find_run_bounds [of tx "e - j" e k] show ?case by auto
qed auto

declare inline_regions.simps [simp del]

definition find_code_regions :: "string \<Rightarrow> code_region list" where
  "find_code_regions tx = sort_key fst (inline_regions tx (fenced_regions tx 0) 0)"

lemma fenced_regions_wf: "(a, b) \<in> set (fenced_regions tx i) \<Longrightarrow> i \<le> a \<and> a < b \<and> b \<le> length tx"
proof (induction tx i arbitrary: a b rule: fenced_regions.induct)
  case (1 tx i)
  let ?i1 = "skip_while is_blank tx i"
  let ?i2 = "skip_while (\<lambda>c. c = tx ! ?i1) tx ?i1"
  have ge: "i \<le> ?i1" "?i1 \<le> ?i2" by (simp_all add: skip_while_ge)
  have step: "i \<le> a \<and> a < b \<and> b \<le> length tx"
    if "(a, b) \<in> set (case next_line tx k of Some j \<Rightarrow> fenced_regions tx j | None \<Rightarrow> [])" "i \<le> k"
      "\<And>j. next_line tx k = Some j \<Longrightarrow> (a, b) \<in> set (fenced_regions tx j) \<Longrightarrow> j \<le> a \<and> a < b \<and> b \<le> length tx"
    for k
    using that next_line_bounds [of tx k] by (cases "next_line tx k") fastforce+
  from "1.prems" have lt: "i < length tx" by (subst (asm) fenced_regions.simps) (auto split: if_splits)
  note unf = "1.prems" [unfolded fenced_regions.simps [of tx i] Let_def]
  consider (mid) "0 < i \<and> tx ! (i - 1) \<noteq> CHR 0x0A"
    | (plain) "\<not> (0 < i \<and> tx ! (i - 1) \<noteq> CHR 0x0A)" "\<not> (?i1 < length tx \<and> (tx ! ?i1 = CHR ''`'' \<or> tx ! ?i1 = CHR ''~''))"
    | (short) "\<not> (0 < i \<and> tx ! (i - 1) \<noteq> CHR 0x0A)" "?i1 < length tx \<and> (tx ! ?i1 = CHR ''`'' \<or> tx ! ?i1 = CHR ''~'')" "?i2 - ?i1 < 3"
    | (fence) "\<not> (0 < i \<and> tx ! (i - 1) \<noteq> CHR 0x0A)" "?i1 < length tx \<and> (tx ! ?i1 = CHR ''`'' \<or> tx ! ?i1 = CHR ''~'')" "\<not> ?i2 - ?i1 < 3"
    by blast
  then show ?case
  proof cases
    case mid
    with unf lt have "(a, b) \<in> set (case next_line tx i of Some j \<Rightarrow> fenced_regions tx j | None \<Rightarrow> [])" by simp
    then show ?thesis using 1(1) lt mid by (intro step) auto
  next
    case plain
    with unf lt have "(a, b) \<in> set (case next_line tx ?i1 of Some j \<Rightarrow> fenced_regions tx j | None \<Rightarrow> [])"
      by (simp split: if_splits)
    then show ?thesis
    proof (rule step)
      show "j \<le> a \<and> a < b \<and> b \<le> length tx"
        if "next_line tx ?i1 = Some j" "(a, b) \<in> set (fenced_regions tx j)" for j
        using 1(2) [OF _ _ refl refl] that lt plain by blast
    qed (use ge in simp)
  next
    case short
    with unf lt have "(a, b) \<in> set (case next_line tx ?i2 of Some j \<Rightarrow> fenced_regions tx j | None \<Rightarrow> [])"
      by (simp split: if_splits)
    then show ?thesis
    proof (rule step)
      show "j \<le> a \<and> a < b \<and> b \<le> length tx"
        if "next_line tx ?i2 = Some j" "(a, b) \<in> set (fenced_regions tx j)" for j
        using 1(3) [OF _ _ refl refl] that lt short by blast
    qed (use ge in simp)
  next
    case fence
    show ?thesis
    proof (cases "next_line tx ?i2")
      case None
      with unf lt fence show ?thesis by (simp split: if_splits)
    next
      case (Some c)
      note c = next_line_bounds [OF Some]
      show ?thesis
      proof (cases "find_close tx (tx ! ?i1) (?i2 - ?i1) c")
        case None
        with unf lt fence Some show ?thesis by (simp split: if_splits)
      next
        case e: (Some e)
        with unf lt fence Some have "(a, b) = (i, e) \<or> (a, b) \<in> set (fenced_regions tx e)" by (simp split: if_splits)
        moreover have "(a, b) \<in> set (fenced_regions tx e) \<Longrightarrow> e \<le> a \<and> a < b \<and> b \<le> length tx"
          using 1(4) [OF _ _ refl refl _ _ Some e] lt fence by blast
        ultimately show ?thesis using find_close_bounds [OF e] c ge by auto
      qed
    qed
  qed
qed

lemma inline_regions_wf:
  "(\<And>a b. (a, b) \<in> set regions \<Longrightarrow> a < b \<and> b \<le> length tx) \<Longrightarrow>
     (a, b) \<in> set (inline_regions tx regions j) \<Longrightarrow> a < b \<and> b \<le> length tx"
proof (induction tx regions j rule: inline_regions.induct)
  case (1 tx regions j)
  let ?e = "skip_while (\<lambda>c. c = CHR ''`'') tx j"
  show ?case
  proof (cases "\<not> j < length tx \<or> tx ! j \<noteq> CHR ''`'' \<or> is_inside_code j regions")
    case True
    with 1 show ?thesis by (subst (asm) inline_regions.simps) (auto split: if_splits)
  next
    case False
    show ?thesis
    proof (cases "find_run tx (?e - j) ?e")
      case None
      with False "1.prems"(2) have "(a, b) \<in> set (inline_regions tx regions ?e)"
        by (subst (asm) inline_regions.simps) (simp add: Let_def)
      with 1(3) [OF _ _ _ refl None] False "1.prems"(1) show ?thesis by blast
    next
      case (Some k)
      with False "1.prems"(2) have mem: "(a, b) \<in> set (inline_regions tx (regions @ [(j, k)]) k)"
        by (subst (asm) inline_regions.simps) (simp add: Let_def)
      have "j < k \<and> k \<le> length tx"
        using find_run_bounds [OF Some] skip_ticks_gt [of j tx] False by simp
      then have "a < b \<and> b \<le> length tx" if "(a, b) \<in> set (regions @ [(j, k)])" for a b
        using that "1.prems"(1) by auto
      with 1(4) [OF _ _ _ refl Some] False mem show ?thesis by blast
    qed
  qed
qed

subsection \<open>Reasoning tags\<close>

record re_engine =
  re_find :: "string \<Rightarrow> string \<Rightarrow> span list"
  re_group1 :: "string \<Rightarrow> string \<Rightarrow> string option"

definition QUICK_TAG_RE :: string where
  "QUICK_TAG_RE =
     ''(?i)<'' @ BSL @ ''s*/?'' @ BSL @ ''s*(?:think(?:ing)?|thought|thoughts|antthinking|reasoning|reflection|scratchpad|inner_monologue|final)'' @ BSL @ ''b''"

definition THINKING_TAG_RE :: string where
  "THINKING_TAG_RE =
     ''(?i)<'' @ BSL @ ''s*(/?)'' @ BSL @ ''s*(?:think(?:ing)?|thought|thoughts|antthinking|reasoning|reflection|scratchpad|inner_monologue)'' @ BSL @ ''b[^<>]*>''"

definition FINAL_TAG_RE :: string where
  "FINAL_TAG_RE =
     ''(?i)<'' @ BSL @ ''s*(/?)'' @ BSL @ ''s*final'' @ BSL @ ''b[^<>]*>''"

definition PIPE_REASONING_TAG_RE :: string where
  "PIPE_REASONING_TAG_RE =
     ''(?i)<'' @ BSL @ ''|(/?)'' @ BSL @ ''s*(?:think(?:ing)?|thought|thoughts|antthinking|reasoning|reflection|scratchpad|inner_monologue)'' @ BSL @ ''|>''"

definition re_is_match :: "re_engine \<Rightarrow> string \<Rightarrow> string \<Rightarrow> bool" where
  "re_is_match eng re tx \<longleftrightarrow> re_find eng re tx \<noteq> []"

text \<open>The matches of a tag expression, each with whether it is a closing tag.\<close>

definition tag_matches :: "re_engine \<Rightarrow> string \<Rightarrow> string \<Rightarrow> (nat \<times> nat \<times> bool) list" where
  "tag_matches eng re tx = map (\<lambda>(a, b). (a, b, re_group1 eng re (drop a tx) = Some ''/'')) (re_find eng re tx)"

text \<open>The loop that drops what is between an opening and a closing tag.\<close>

fun tag_loop ::
  "string \<Rightarrow> code_region list \<Rightarrow> (nat \<times> nat \<times> bool) list \<Rightarrow> string \<Rightarrow> nat \<Rightarrow> bool \<Rightarrow> string \<times> nat \<times> bool" where
  "tag_loop tx regions [] res last_index in_tag = (res, last_index, in_tag)"
| "tag_loop tx regions ((idx, e, is_close) # ts) res last_index in_tag =
     (if is_inside_code idx regions then tag_loop tx regions ts res last_index in_tag
      else if \<not> in_tag then tag_loop tx regions ts (res @ slice tx last_index idx) e (\<not> is_close)
      else tag_loop tx regions ts res e (\<not> is_close))"

fun final_loop ::
  "string \<Rightarrow> code_region list \<Rightarrow> (nat \<times> nat \<times> bool) list \<Rightarrow> string \<Rightarrow> bool \<Rightarrow> nat \<Rightarrow> bool \<Rightarrow> string option" where
  "final_loop tx regions [] parts in_final last_index found =
     (if \<not> found then None
      else Some (parts @ (if in_final then drop last_index tx else [])))"
| "final_loop tx regions ((idx, e, is_close) # ts) parts in_final last_index found =
     (if is_inside_code idx regions then final_loop tx regions ts parts in_final last_index found
      else if \<not> in_final \<and> \<not> is_close then final_loop tx regions ts parts True e True
      else if in_final \<and> is_close then final_loop tx regions ts (parts @ slice tx last_index idx) False e found
      else final_loop tx regions ts parts in_final last_index found)"

definition extract_final_content :: "re_engine \<Rightarrow> string \<Rightarrow> code_region list \<Rightarrow> string option" where
  "extract_final_content eng tx regions = final_loop tx regions (tag_matches eng FINAL_TAG_RE tx) [] False 0 False"

definition strip_thinking_tags_regex :: "re_engine \<Rightarrow> string \<Rightarrow> code_region list \<Rightarrow> string" where
  "strip_thinking_tags_regex eng tx regions =
     (case tag_loop tx regions (tag_matches eng THINKING_TAG_RE tx) [] 0 False of
        (res, last_index, in_thinking) \<Rightarrow>
          let trailing = drop last_index tx in
          if \<not> in_thinking then res @ trailing
          else (case extract_final_content eng trailing (find_code_regions trailing) of
                  Some fc \<Rightarrow> res @ fc
                | None \<Rightarrow> res))"

definition strip_pipe_reasoning_tags :: "re_engine \<Rightarrow> string \<Rightarrow> string" where
  "strip_pipe_reasoning_tags eng tx =
     (if \<not> re_is_match eng PIPE_REASONING_TAG_RE tx then tx
      else case tag_loop tx (find_code_regions tx) (tag_matches eng PIPE_REASONING_TAG_RE tx) [] 0 False of
             (res, last_index, in_tag) \<Rightarrow> if \<not> in_tag then res @ drop last_index tx else res)"

subsection \<open>Tool tags\<close>

lemma find_str_lt: "p \<noteq> [] \<Longrightarrow> find_str s p = Some n \<Longrightarrow> n < length s"
  using find_str_Some [of s p n]
  by (metis drop_all linorder_le_less_linear starts_with_def take_Nil)

lemma find_str_Cons_lt: "find_str s (c # p) = Some n \<Longrightarrow> n < length s"
  by (rule find_str_lt) simp_all

text \<open>The earliest opening of a tag, exact or with attributes.\<close>

definition first_open :: "string \<Rightarrow> string \<Rightarrow> nat option" where
  "first_open tag s =
     (case (find_str s (''<'' @ tag @ ''>''), find_str s (''<'' @ tag @ '' '')) of
        (Some a, Some b) \<Rightarrow> Some (min a b)
      | (Some a, None) \<Rightarrow> Some a
      | (None, Some b) \<Rightarrow> Some b
      | (None, None) \<Rightarrow> None)"

lemma first_open_lt: "first_open tag s = Some n \<Longrightarrow> n < length s"
  by (auto simp: first_open_def split: option.splits dest: find_str_Cons_lt)

function strip_xml_tag :: "string \<Rightarrow> string \<Rightarrow> string" where
  "strip_xml_tag remaining tag =
     (case first_open tag remaining of
        None \<Rightarrow> remaining
      | Some start \<Rightarrow>
          take start remaining @
          (case find_str (drop start remaining) ''>'' of
             None \<Rightarrow> remaining
           | Some p \<Rightarrow>
               let open_end = start + p + 1 in
               case find_str (drop open_end remaining) (''</'' @ tag @ ''>'') of
                 Some close_offset \<Rightarrow>
                   strip_xml_tag (drop (open_end + close_offset + length (''</'' @ tag @ ''>'')) remaining) tag
               | None \<Rightarrow> []))"
  by pat_completeness auto
termination
  by (relation "measure (\<lambda>(s, tag). length s)") (auto dest: first_open_lt)

function strip_pipe_tag :: "string \<Rightarrow> string \<Rightarrow> string" where
  "strip_pipe_tag remaining tag =
     (case find_str remaining (''<|'' @ tag @ ''|>'') of
        None \<Rightarrow> remaining
      | Some start \<Rightarrow>
          take start remaining @
          (case find_str (drop start remaining) (''<|/'' @ tag @ ''|>'') of
             Some close_offset \<Rightarrow>
               strip_pipe_tag (drop (start + close_offset + length (''<|/'' @ tag @ ''|>'')) remaining) tag
           | None \<Rightarrow> []))"
  by pat_completeness auto
termination
  by (relation "measure (\<lambda>(s, tag). length s)") (auto dest: find_str_lt [rotated])

definition CALLED_TOOL :: string where "CALLED_TOOL = ''[Called tool `''"

lemma CALLED_TOOL_lt: "find_str s CALLED_TOOL = Some n \<Longrightarrow> n < length s"
  by (rule find_str_lt) (simp_all add: CALLED_TOOL_def)

definition bracket_end :: "string \<Rightarrow> nat option" where
  "bracket_end after =
     (case find_str after ('']'' @ [CHR 0x0A]) of
        Some i \<Rightarrow> Some (i + 2)
      | None \<Rightarrow> map_option (\<lambda>i. i + 1) (rfind_str after '']''))"

function strip_bracket_tool_calls :: "string \<Rightarrow> string" where
  "strip_bracket_tool_calls remaining =
     (case find_str remaining CALLED_TOOL of
        None \<Rightarrow> remaining
      | Some start \<Rightarrow>
          take start remaining @
          (case bracket_end (drop start remaining) of
             Some e \<Rightarrow> strip_bracket_tool_calls (drop (start + e) remaining)
           | None \<Rightarrow> drop start remaining))"
  by pat_completeness auto
termination
proof (relation "measure length", goal_cases)
  case (2 remaining start e)
  from CALLED_TOOL_lt [OF 2(1)] have "start < length remaining" by simp
  moreover from 2(2) have "0 < e" by (auto simp: bracket_end_def split: option.splits)
  ultimately show ?case by simp
qed simp

definition TOOL_TAGS :: "string list" where
  "TOOL_TAGS = [''tool_call'', ''function_call'', ''tool_calls'']"

definition TOOL_TAG_PATTERNS :: "string list" where
  "TOOL_TAG_PATTERNS =
     [''<tool_call>'', ''<tool_call '', ''<function_call>'', ''<function_call '', ''<tool_calls>'', ''<tool_calls '',
      ''<|tool_call|>'', ''<|function_call|>'', ''<|tool_calls|>'']"

definition closing_tag_for :: "string \<Rightarrow> string option" where
  "closing_tag_for open_pattern =
     (case Option.bind (strip_prefix ''<|'' open_pattern) (strip_suffix ''|>'') of
        Some name \<Rightarrow> Some (''<|/'' @ name @ ''|>'')
      | None \<Rightarrow>
          (case strip_prefix ''<'' open_pattern of
             Some rest \<Rightarrow> Some (''</'' @ trim_str (rev (dropWhile (\<lambda>c. c = CHR ''>'') (rev rest))) @ ''>'')
           | None \<Rightarrow> None))"

text \<open>The loop over the occurrences of one pattern: the first that is outside code and not closed.\<close>

function unclosed_from :: "string \<Rightarrow> code_region list \<Rightarrow> string \<Rightarrow> nat \<Rightarrow> nat option" where
  "unclosed_from lower regions p search_from =
     (case find_str (drop search_from lower) p of
        None \<Rightarrow> None
      | Some offset \<Rightarrow>
          let pos = search_from + offset; after_open = pos + length p in
          if p = [] then None
          else if is_inside_code pos regions then unclosed_from lower regions p (pos + 1)
          else if (case closing_tag_for p of
                     Some close \<Rightarrow> contains_str (drop after_open lower) close | None \<Rightarrow> False)
          then unclosed_from lower regions p after_open
          else Some pos)"
  by pat_completeness auto
termination
  by (relation "measure (\<lambda>(lower, regions, p, i). length lower - i)") (auto dest!: find_str_lt [rotated] simp: neq_Nil_conv)

definition first_unclosed :: "string \<Rightarrow> nat option" where
  "first_unclosed tx =
     (case List.map_filter (\<lambda>p. unclosed_from (ascii_lower tx) (find_code_regions tx) p 0) TOOL_TAG_PATTERNS of
        [] \<Rightarrow> None
      | p # ps \<Rightarrow> Some (foldl min p ps))"

definition truncate_at_tool_tags :: "string \<Rightarrow> string" where
  "truncate_at_tool_tags tx = (case first_unclosed tx of Some pos \<Rightarrow> take pos tx | None \<Rightarrow> tx)"

text \<open>The loop that collapses blank lines, as long as it finds three line feeds in a row.\<close>

abbreviation NL3 :: string where "NL3 \<equiv> [CHR 0x0A, CHR 0x0A, CHR 0x0A]"
abbreviation NL2 :: string where "NL2 \<equiv> [CHR 0x0A, CHR 0x0A]"

definition collapse_loop :: "string \<Rightarrow> string option" where
  "collapse_loop tx = while_option (\<lambda>r. contains_str r NL3) (replace_str NL3 NL2) tx"

definition collapse_newlines :: "string \<Rightarrow> string option" where
  "collapse_newlines tx = map_option trim_str (collapse_loop tx)"

definition clean_response :: "re_engine \<Rightarrow> string \<Rightarrow> string option" where
  "clean_response eng tx =
     (let r0 = (if \<not> re_is_match eng QUICK_TAG_RE tx then tx
                else let after_thinking = strip_thinking_tags_regex eng tx (find_code_regions tx) in
                     if re_is_match eng FINAL_TAG_RE after_thinking
                     then unwrap_or (extract_final_content eng after_thinking (find_code_regions after_thinking))
                            after_thinking
                     else after_thinking);
          r1 = strip_pipe_reasoning_tags eng r0;
          r2 = foldl (\<lambda>r tag. strip_pipe_tag (strip_xml_tag r tag) tag) r1 TOOL_TAGS
      in collapse_newlines (strip_bracket_tool_calls r2))"

declare strip_xml_tag.simps [simp del] strip_pipe_tag.simps [simp del] strip_bracket_tool_calls.simps [simp del]
  unclosed_from.simps [simp del]

subsection \<open>Recovery of tool calls\<close>

definition recovered :: "tool_call list \<Rightarrow> string \<Rightarrow> json \<Rightarrow> tool_call list" where
  "recovered calls name args =
     calls @ [\<lparr>tc_id = ''recovered_'' @ show_nat (length calls), tc_name = name, tc_arguments = args\<rparr>]"

definition recover_inner ::
  "(string \<Rightarrow> json option) \<Rightarrow> string list \<Rightarrow> string \<Rightarrow> tool_call list \<Rightarrow> tool_call list" where
  "recover_inner parse names inner calls =
     (if inner = [] then calls
      else case Option.bind (parse inner)
                  (\<lambda>v. Option.bind (jget_str v ''name'')
                    (\<lambda>n. if n \<in> set names then Some (n, unwrap_or (jget v ''arguments'') (JObject [])) else None)) of
        Some (n, args) \<Rightarrow> recovered calls n args
      | None \<Rightarrow> if trim_str inner \<in> set names then recovered calls (trim_str inner) (JObject []) else calls)"

function recover_tags ::
  "(string \<Rightarrow> json option) \<Rightarrow> string list \<Rightarrow> string \<Rightarrow> string \<Rightarrow> string \<Rightarrow> tool_call list \<Rightarrow> tool_call list" where
  "recover_tags parse names op cl remaining calls =
     (case find_str remaining op of
        None \<Rightarrow> calls
      | Some start \<Rightarrow>
          let after = drop (start + length op) remaining in
          case find_str after cl of
            None \<Rightarrow> calls
          | Some e \<Rightarrow>
              if op = [] then calls
              else recover_tags parse names op cl (drop (e + length cl) after)
                     (recover_inner parse names (trim_str (take e after)) calls))"
  by pat_completeness auto
termination
  by (relation "measure (\<lambda>(parse, names, op, cl, remaining, calls). length remaining)")
     (auto dest!: find_str_lt [rotated] simp: neq_Nil_conv)

lemma strip_prefix_length: "strip_prefix p s = Some t \<Longrightarrow> length t \<le> length s"
  by (auto simp: strip_prefix_def simp del: strip_prefix_Some_iff split: if_splits)

function recover_brackets ::
  "(string \<Rightarrow> json option) \<Rightarrow> string list \<Rightarrow> string \<Rightarrow> tool_call list \<Rightarrow> tool_call list" where
  "recover_brackets parse names remaining calls =
     (case find_str remaining CALLED_TOOL of
        None \<Rightarrow> calls
      | Some start \<Rightarrow>
          let after_prefix = drop (start + length CALLED_TOOL) remaining in
          case find_str after_prefix ''`'' of
            None \<Rightarrow> calls
          | Some backtick_end \<Rightarrow>
              let name = take backtick_end after_prefix; after_name = drop (backtick_end + 1) after_prefix in
              if name \<notin> set names then recover_brackets parse names after_name calls
              else
                case strip_prefix '' with arguments: '' after_name of
                  Some args_start \<Rightarrow>
                    (case rfind_str args_start '']'' of
                       Some b_end \<Rightarrow>
                         recover_brackets parse names (drop (b_end + 1) args_start)
                           (recovered calls name (unwrap_or (parse (take b_end args_start)) (JObject [])))
                     | None \<Rightarrow> recover_brackets parse names after_name (recovered calls name (JObject [])))
                | None \<Rightarrow> recover_brackets parse names after_name (recovered calls name (JObject [])))"
  by pat_completeness auto
termination
proof (relation "measure (\<lambda>(parse, names, remaining, calls). length remaining)", goal_cases)
  case (5 parse names remaining calls start after_prefix backtick_end name after_name args_start b_end)
  from 5(7) have "length args_start \<le> length after_name" by (rule strip_prefix_length)
  with 5 CALLED_TOOL_lt [OF 5(1)] show ?case by (simp del: strip_prefix_Some_iff)
qed (auto dest!: CALLED_TOOL_lt simp del: strip_prefix_Some_iff)

definition TAG_PAIRS :: "(string \<times> string) list" where
  "TAG_PAIRS =
     [(''<tool_call>'', ''</tool_call>''), (''<|tool_call|>'', ''<|/tool_call|>''),
      (''<function_call>'', ''</function_call>''), (''<|function_call|>'', ''<|/function_call|>'')]"

definition recover_tool_calls_from_content ::
  "(string \<Rightarrow> json option) \<Rightarrow> string \<Rightarrow> tool_definition list \<Rightarrow> tool_call list" where
  "recover_tool_calls_from_content parse body available =
     (let names = map td_name available in
      recover_brackets parse names body
        (foldl (\<lambda>calls (op, cl). recover_tags parse names op cl body calls) [] TAG_PAIRS))"

definition extract_json :: "string \<Rightarrow> string option" where
  "extract_json tx =
     (case (find_str tx ''{'', rfind_str tx ''}'') of
        (Some a, Some b) \<Rightarrow> if a < b then Some (slice tx a (b + 1)) else None
      | _ \<Rightarrow> None)"

declare recover_tags.simps [simp del] recover_brackets.simps [simp del]

subsection \<open>Properties\<close>

lemma length_replace_le: "length r \<le> length p \<Longrightarrow> length (replace_str p r s) \<le> length s"
proof (induction p r s rule: replace_str.induct)
  case (2 p r c cs)
  show ?case
  proof (cases "p \<noteq> [] \<and> starts_with (c # cs) p")
    case True
    then have "length p \<le> length (c # cs)" unfolding starts_with_iff by (metis le_add1 length_append)
    with 2 True show ?thesis by (cases p) auto
  qed (use 2 in auto)
qed simp

lemma length_replace_less:
  "length r < length p \<Longrightarrow> contains_str s p \<Longrightarrow> length (replace_str p r s) < length s"
proof (induction s)
  case (Cons c cs)
  show ?case
  proof (cases "starts_with (c # cs) p")
    case True
    then have "length p \<le> length (c # cs)" unfolding starts_with_iff by (metis le_add1 length_append)
    with Cons.prems True length_replace_le [of r p "drop (length p - 1) cs"] show ?thesis by (cases p) auto
  qed (use Cons in auto)
qed simp

lemma trim_start_frame: "\<exists>w. s = w @ trim_start s" by (rule trim_start_suffix)

lemma trim_rev_suffix: "\<exists>w. s = w @ trim_rev s"
proof (induction s rule: trim_rev.induct)
  case (1 s)
  show ?case
  proof (cases "strip_any (map rev white_space) s")
    case (Some t)
    with 1 obtain w where "t = w @ trim_rev t" by blast
    moreover from Some obtain v where "s = v @ t" by (auto dest!: strip_any_Some)
    moreover from Some have "trim_rev s = trim_rev t" by (subst trim_rev.simps) simp
    ultimately show ?thesis by (metis append.assoc)
  qed (simp add: trim_rev_id_iff)
qed

lemma trim_str_infix: "\<exists>a b. s = a @ trim_str s @ b"
proof -
  obtain a where "s = a @ trim_start s" using trim_start_suffix by blast
  moreover obtain b where "rev (trim_start s) = b @ trim_rev (rev (trim_start s))" using trim_rev_suffix by blast
  then have "trim_start s = trim_str s @ rev b"
    by (metis rev_append rev_rev_ident trim_end_def trim_str_def)
  ultimately show ?thesis by metis
qed

lemma trim_str_contains: "contains_str (trim_str s) p \<Longrightarrow> contains_str s p"
  using trim_str_infix [of s] by (auto simp: contains_str_iff) (metis append.assoc)

text \<open>
  Cleaning a response always finishes: the loop that collapses blank lines stops on every text, so
  \<open>clean_response\<close> has a result, and that result has no three line feeds in a row and no line feed
  or other white space at its ends.
\<close>

lemma collapse_newlines_total: "\<exists>r. collapse_newlines tx = Some r \<and> \<not> contains_str r NL3"
proof -
  obtain t where t: "collapse_loop tx = Some t"
    unfolding collapse_loop_def
    using measure_while_option_Some [where P = "\<lambda>_. True" and f = length and b = "\<lambda>r. contains_str r NL3"
        and c = "replace_str NL3 NL2" and s = tx] length_replace_less [of NL2 NL3] by auto
  then have "\<not> contains_str t NL3" unfolding collapse_loop_def by (rule while_option_stop)
  with t show ?thesis using trim_str_contains [of t NL3] by (auto simp: collapse_newlines_def)
qed

text \<open>
  C32: Cleaning a response always returns: the loop that collapses newlines ends for every text, because a
  round in which it changes something shortens the text, and the result has no run of three newlines.
\<close>

theorem clean_response_terminates:
  "\<exists>r. clean_response eng tx = Some r \<and> \<not> contains_str r NL3"
  unfolding clean_response_def Let_def by (rule collapse_newlines_total)

text \<open>Every recovered call names an available tool, and the identifiers count the calls.\<close>

definition calls_ok :: "string list \<Rightarrow> tool_call list \<Rightarrow> bool" where
  "calls_ok names calls \<longleftrightarrow>
     list_all (\<lambda>c. tc_name c \<in> set names) calls \<and>
     map tc_id calls = map (\<lambda>i. ''recovered_'' @ show_nat i) [0..<length calls]"

lemma calls_ok_recovered: "calls_ok names calls \<Longrightarrow> n \<in> set names \<Longrightarrow> calls_ok names (recovered calls n args)"
  by (simp add: calls_ok_def recovered_def)

lemma calls_ok_inner: "calls_ok names calls \<Longrightarrow> calls_ok names (recover_inner parse names inner calls)"
  by (auto simp: recover_inner_def calls_ok_recovered split: option.splits bind_splits if_splits)

lemma calls_ok_tags: "calls_ok names calls \<Longrightarrow> calls_ok names (recover_tags parse names op cl rm calls)"
proof (induction parse names op cl rm calls rule: recover_tags.induct)
  case (1 parse names op cl rm calls)
  then show ?case
    by (subst recover_tags.simps) (auto simp: Let_def calls_ok_inner split: option.splits)
qed

lemma calls_ok_brackets: "calls_ok names calls \<Longrightarrow> calls_ok names (recover_brackets parse names rm calls)"
proof (induction parse names rm calls rule: recover_brackets.induct)
  case (1 parse names rm calls)
  then show ?case
    by (subst recover_brackets.simps)
       (auto simp: Let_def calls_ok_recovered simp del: strip_prefix_Some_iff split: option.splits)
qed

text \<open>
  Calls recovered from the text of a response are calls of tools that were offered: whatever the
  model wrote, each recovered call has the name of an available tool, and the calls are numbered in
  the order in which they are returned.
\<close>

theorem recovered_calls_available:
  "list_all (\<lambda>c. list_ex (\<lambda>t. td_name t = tc_name c) available)
     (recover_tool_calls_from_content parse body available) \<and>
   map tc_id (recover_tool_calls_from_content parse body available) =
     map (\<lambda>i. ''recovered_'' @ show_nat i) [0..<length (recover_tool_calls_from_content parse body available)]"
proof -
  let ?names = "map td_name available"
  have "calls_ok ?names (foldl (\<lambda>calls (op, cl). recover_tags parse ?names op cl body calls) calls ps)"
    if "calls_ok ?names calls" for calls ps
    using that by (induction ps arbitrary: calls) (auto simp: calls_ok_tags)
  then have "calls_ok ?names (recover_tool_calls_from_content parse body available)"
    unfolding recover_tool_calls_from_content_def Let_def
    by (intro calls_ok_brackets) (simp add: calls_ok_def)
  then show ?thesis by (fastforce simp: calls_ok_def list_all_iff list_ex_iff)
qed

text \<open>
  An opening tag with attributes and no closing bracket behind it stops the removal, but the text
  before it has been copied already and is copied again with the rest.
\<close>

theorem unterminated_tag_duplicates:
  assumes "first_open tag s = Some start" and "find_str (drop start s) ''>'' = None"
  shows "strip_xml_tag s tag = take start s @ s"
  using assms by (subst strip_xml_tag.simps) simp

theorem unterminated_tag_duplicates_witness:
  "strip_xml_tag ''Write `<tool_call x` here'' ''tool_call'' = ''Write `'' @ ''Write `<tool_call x` here''"
proof -
  have "first_open ''tool_call'' ''Write `<tool_call x` here'' = Some 7" by code_simp
  moreover have "find_str (drop 7 ''Write `<tool_call x` here'') ''>'' = None" by code_simp
  ultimately have "strip_xml_tag ''Write `<tool_call x` here'' ''tool_call'' =
      take 7 ''Write `<tool_call x` here'' @ ''Write `<tool_call x` here''"
    by (rule unterminated_tag_duplicates)
  then show ?thesis by simp
qed

lemma truncate_keeps_code: "truncate_at_tool_tags ''Write `<tool_call x` here'' = ''Write `<tool_call x` here''"
  by code_simp

text \<open>The regions of code: sorted, not empty and inside the text.\<close>

theorem code_regions_wf:
  "sorted (map fst (find_code_regions tx)) \<and>
   list_all (\<lambda>(a, b). a < b \<and> b \<le> length tx) (find_code_regions tx)"
proof
  show "list_all (\<lambda>(a, b). a < b \<and> b \<le> length tx) (find_code_regions tx)"
    using inline_regions_wf [of "fenced_regions tx 0" tx _ _ 0] fenced_regions_wf [of _ _ tx 0]
    by (auto simp: find_code_regions_def list_all_iff)
qed (simp add: find_code_regions_def)

end
