(* ===== verification/Reasoning.thy ===== *)
theory Reasoning
  imports Llm_Provider Response_Cleaning
begin

text \<open>
  The reasoning engine of \<open>src/llm/reasoning.rs\<close> as far as the agent loop uses it: the context, the
  requests with tools (\<open>src/llm/provider.rs\<close>) and the operations that call the model and turn its
  answer into text or tool calls. A provider is a record of its two calls on the world; the text of
  the system prompt is a parameter.

  The lemmas show that a model that must answer in text does so, that no reply is blank, and that
  every request starts with its only system message.
\<close>

subsection \<open>Requests with tools\<close>

record tool_completion_request =
  tr_messages :: "chat_message list"
  tr_tools :: "tool_definition list"
  tr_model :: "string option"
  tr_max_tokens :: "u32 option"
  tr_temperature :: "u32 option"
  tr_stop_sequences :: "string list option"
  tr_tool_choice :: "string option"
  tr_metadata :: "(string, string) hmap"

definition new_tool_request :: "chat_message list \<Rightarrow> tool_definition list \<Rightarrow> tool_completion_request" where
  "new_tool_request ms ts = \<lparr>tr_messages = ms, tr_tools = ts, tr_model = None, tr_max_tokens = None,
     tr_temperature = None, tr_stop_sequences = None, tr_tool_choice = None, tr_metadata = []\<rparr>"

definition tr_with_model :: "string \<Rightarrow> tool_completion_request \<Rightarrow> tool_completion_request" where
  "tr_with_model m q = q\<lparr>tr_model := Some m\<rparr>"

definition tr_with_max_tokens :: "u32 \<Rightarrow> tool_completion_request \<Rightarrow> tool_completion_request" where
  "tr_with_max_tokens n q = q\<lparr>tr_max_tokens := Some n\<rparr>"

definition tr_with_temperature :: "u32 \<Rightarrow> tool_completion_request \<Rightarrow> tool_completion_request" where
  "tr_with_temperature t q = q\<lparr>tr_temperature := Some t\<rparr>"

definition tr_with_stop_sequences :: "string list \<Rightarrow> tool_completion_request \<Rightarrow> tool_completion_request" where
  "tr_with_stop_sequences ss q = q\<lparr>tr_stop_sequences := Some ss\<rparr>"

definition tr_with_tool_choice :: "string \<Rightarrow> tool_completion_request \<Rightarrow> tool_completion_request" where
  "tr_with_tool_choice c q = q\<lparr>tr_tool_choice := Some c\<rparr>"

record tool_completion_response =
  tresp_content :: "string option"
  tresp_tool_calls :: "tool_call list"
  tresp_input_tokens :: u32
  tresp_output_tokens :: u32
  tresp_finish_reason :: FinishReason
  tresp_cache_read :: u32
  tresp_cache_creation :: u32

record 'w llm_provider =
  llm_complete :: "completion_request \<Rightarrow> ('w, completion_response) llm_call"
  llm_complete_with_tools :: "tool_completion_request \<Rightarrow> ('w, tool_completion_response) llm_call"

subsection \<open>Contexts and results\<close>

record reasoning_context =
  rc_messages :: "chat_message list"
  rc_available_tools :: "tool_definition list"
  rc_job_description :: "string option"
  rc_current_state :: "string option"
  rc_metadata :: "(string, string) hmap"
  rc_force_text :: bool
  rc_system_prompt :: "string option"

definition new_reasoning_context :: reasoning_context where
  "new_reasoning_context = \<lparr>rc_messages = [], rc_available_tools = [], rc_job_description = None,
     rc_current_state = None, rc_metadata = [], rc_force_text = False, rc_system_prompt = None\<rparr>"

definition with_message :: "chat_message \<Rightarrow> reasoning_context \<Rightarrow> reasoning_context" where
  "with_message m c = c\<lparr>rc_messages := rc_messages c @ [m]\<rparr>"

definition with_messages :: "chat_message list \<Rightarrow> reasoning_context \<Rightarrow> reasoning_context" where
  "with_messages ms c = c\<lparr>rc_messages := ms\<rparr>"

definition with_tools :: "tool_definition list \<Rightarrow> reasoning_context \<Rightarrow> reasoning_context" where
  "with_tools ts c = c\<lparr>rc_available_tools := ts\<rparr>"

definition with_system_prompt :: "string \<Rightarrow> reasoning_context \<Rightarrow> reasoning_context" where
  "with_system_prompt p c = c\<lparr>rc_system_prompt := Some p\<rparr>"

definition with_job :: "string \<Rightarrow> reasoning_context \<Rightarrow> reasoning_context" where
  "with_job d c = c\<lparr>rc_job_description := Some d\<rparr>"

definition with_metadata :: "(string, string) hmap \<Rightarrow> reasoning_context \<Rightarrow> reasoning_context" where
  "with_metadata m c = c\<lparr>rc_metadata := m\<rparr>"

record token_usage =
  tu_input_tokens :: u32
  tu_output_tokens :: u32
  tu_cache_read :: u32
  tu_cache_creation :: u32

definition usage_total :: "token_usage \<Rightarrow> u32" where
  "usage_total u = tu_input_tokens u + tu_output_tokens u"

datatype RespondResult = RText string | RToolCalls "tool_call list" "string option"

record respond_output =
  ro_result :: RespondResult
  ro_usage :: token_usage

record tool_selection =
  ts_tool_name :: string
  ts_parameters :: json
  ts_reasoning :: string
  ts_alternatives :: "string list"
  ts_tool_call_id :: string

subsection \<open>Operations\<close>

definition merge_system_messages :: "string \<Rightarrow> chat_message list \<Rightarrow> string" where
  "merge_system_messages primary ms =
     (let extra = map content (filter (\<lambda>m. role m = System) ms) in
      if extra = [] then primary
      else primary @ [CHR 0x0A, CHR 0x0A] @ ''---'' @ [CHR 0x0A, CHR 0x0A] @ join_str [CHR 0x0A, CHR 0x0A] extra)"

definition request_messages :: "string \<Rightarrow> chat_message list \<Rightarrow> chat_message list" where
  "request_messages prompt ms = system_msg (merge_system_messages prompt ms) # filter (\<lambda>m. role m \<noteq> System) ms"

text \<open>Truncation and cleaning of a response; cleaning always has a result.\<close>

definition clean_text :: "re_engine \<Rightarrow> string \<Rightarrow> string" where
  "clean_text eng s = unwrap_or (clean_response eng (truncate_at_tool_tags s)) []"

definition NOT_SURE :: string where
  "NOT_SURE = ''I'' @ [CHR 0x27] @ ''m not sure how to respond to that.''"

definition final_text :: "re_engine \<Rightarrow> string \<Rightarrow> string" where
  "final_text eng s = (let cleaned = clean_text eng s in if trim_str cleaned = [] then NOT_SURE else cleaned)"

definition usage_of :: "completion_response \<Rightarrow> token_usage" where
  "usage_of r = \<lparr>tu_input_tokens = cresp_input_tokens r, tu_output_tokens = cresp_output_tokens r,
     tu_cache_read = cresp_cache_read r, tu_cache_creation = cresp_cache_creation r\<rparr>"

definition tool_usage_of :: "tool_completion_response \<Rightarrow> token_usage" where
  "tool_usage_of r = \<lparr>tu_input_tokens = tresp_input_tokens r, tu_output_tokens = tresp_output_tokens r,
     tu_cache_read = tresp_cache_read r, tu_cache_creation = tresp_cache_creation r\<rparr>"

text \<open>The bit pattern of the \<open>f32\<close> 0.7.\<close>

abbreviation F32_0_7 :: u32 where "F32_0_7 \<equiv> 0x3F333333"

definition interpret_tool_response ::
  "re_engine \<Rightarrow> (string \<Rightarrow> json option) \<Rightarrow> tool_definition list \<Rightarrow> tool_completion_response \<Rightarrow> RespondResult" where
  "interpret_tool_response eng parse available resp =
     (if tresp_tool_calls resp \<noteq> []
      then RToolCalls (tresp_tool_calls resp) (map_option (clean_text eng) (tresp_content resp))
      else
        let body = unwrap_or (tresp_content resp) NOT_SURE;
            recovered_calls = recover_tool_calls_from_content parse body available in
        if recovered_calls \<noteq> []
        then RToolCalls recovered_calls (if clean_text eng body = [] then None else Some (clean_text eng body))
        else RText (final_text eng body))"

definition respond_with_tools ::
  "re_engine \<Rightarrow> (string \<Rightarrow> json option) \<Rightarrow> (tool_definition list \<Rightarrow> string) \<Rightarrow> 'w llm_provider \<Rightarrow>
     reasoning_context \<Rightarrow> ('w, respond_output) llm_call" where
  "respond_with_tools eng parse build_prompt llm ctx w =
     (let prompt = (case rc_system_prompt ctx of Some p \<Rightarrow> p | None \<Rightarrow> build_prompt (rc_available_tools ctx));
          ms = request_messages prompt (rc_messages ctx);
          effective_tools = (if rc_force_text ctx then [] else rc_available_tools ctx) in
      if effective_tools \<noteq> []
      then
        let req = (tr_with_tool_choice ''auto'' (tr_with_temperature F32_0_7
                    (tr_with_max_tokens 4096 (new_tool_request ms effective_tools))))
                  \<lparr>tr_metadata := rc_metadata ctx\<rparr> in
        case llm_complete_with_tools llm req w of
          (Inl e, w') \<Rightarrow> (Err e, w')
        | (Inr resp, w') \<Rightarrow>
            (Ok \<lparr>ro_result = interpret_tool_response eng parse (rc_available_tools ctx) resp,
                 ro_usage = tool_usage_of resp\<rparr>, w')
      else
        let req = (with_temperature F32_0_7 (with_max_tokens 4096 (new_request ms)))
                  \<lparr>cr_metadata := rc_metadata ctx\<rparr> in
        case llm_complete llm req w of
          (Inl e, w') \<Rightarrow> (Err e, w')
        | (Inr resp, w') \<Rightarrow>
            (Ok \<lparr>ro_result = RText (final_text eng (cresp_content resp)), ro_usage = usage_of resp\<rparr>, w'))"

definition show_calls :: "(json \<Rightarrow> string) \<Rightarrow> tool_call list \<Rightarrow> string" where
  "show_calls show_json calls =
     ''[Calling tools: '' @
     join_str '', '' (map (\<lambda>tc. ''`'' @ tc_name tc @ ''('' @ show_json (tc_arguments tc) @ '')`'') calls) @ '']''"

definition respond ::
  "re_engine \<Rightarrow> (string \<Rightarrow> json option) \<Rightarrow> (json \<Rightarrow> string) \<Rightarrow> (tool_definition list \<Rightarrow> string) \<Rightarrow> 'w llm_provider \<Rightarrow>
     reasoning_context \<Rightarrow> ('w, string) llm_call" where
  "respond eng parse show_json build_prompt llm ctx w =
     (case respond_with_tools eng parse build_prompt llm ctx w of
        (Inl e, w') \<Rightarrow> (Err e, w')
      | (Inr out, w') \<Rightarrow>
          (case ro_result out of
             RText t \<Rightarrow> (Ok t, w')
           | RToolCalls calls _ \<Rightarrow> (Ok (show_calls show_json calls), w')))"

definition reasoning_complete ::
  "re_engine \<Rightarrow> 'w llm_provider \<Rightarrow> completion_request \<Rightarrow> ('w, string \<times> token_usage) llm_call" where
  "reasoning_complete eng llm req w =
     (case llm_complete llm req w of
        (Inl e, w') \<Rightarrow> (Err e, w')
      | (Inr resp, w') \<Rightarrow> (Ok (clean_text eng (cresp_content resp), usage_of resp), w'))"

definition select_tools ::
  "'w llm_provider \<Rightarrow> reasoning_context \<Rightarrow> ('w, tool_selection list) llm_call" where
  "select_tools llm ctx w =
     (if rc_available_tools ctx = [] then (Ok [], w)
      else
        let req = (tr_with_tool_choice ''auto'' (tr_with_max_tokens 1024
                    (new_tool_request (rc_messages ctx) (rc_available_tools ctx))))\<lparr>tr_metadata := rc_metadata ctx\<rparr> in
        case llm_complete_with_tools llm req w of
          (Inl e, w') \<Rightarrow> (Err e, w')
        | (Inr resp, w') \<Rightarrow>
            (Ok (map (\<lambda>tc. \<lparr>ts_tool_name = tc_name tc, ts_parameters = tc_arguments tc,
                            ts_reasoning = unwrap_or (tresp_content resp) [], ts_alternatives = [],
                            ts_tool_call_id = tc_id tc\<rparr>) (tresp_tool_calls resp)), w'))"

definition select_tool ::
  "'w llm_provider \<Rightarrow> reasoning_context \<Rightarrow> ('w, tool_selection option) llm_call" where
  "select_tool llm ctx w =
     (case select_tools llm ctx w of
        (Inl e, w') \<Rightarrow> (Err e, w')
      | (Inr ts, w') \<Rightarrow> (Ok (case ts of [] \<Rightarrow> None | t # _ \<Rightarrow> Some t), w'))"

subsection \<open>Properties\<close>

lemma NOT_SURE_visible: "trim_str NOT_SURE \<noteq> []"
  by code_simp

lemma final_text_visible: "trim_str (final_text eng s) \<noteq> []"
  by (simp add: final_text_def Let_def NOT_SURE_visible)

lemma interpret_tool_response_cases:
  "case interpret_tool_response eng parse available resp of
     RText t \<Rightarrow> trim_str t \<noteq> [] | RToolCalls calls _ \<Rightarrow> calls \<noteq> []"
  by (simp add: interpret_tool_response_def Let_def final_text_visible)

lemma respond_forced_text:
  "respond_with_tools eng parse build_prompt llm ctx w = (Ok out, w') \<Longrightarrow> rc_force_text ctx \<Longrightarrow>
     \<exists>s. ro_result out = RText s"
  by (auto simp: respond_with_tools_def Let_def split: prod.splits sum.splits)

text \<open>
  A response of the model is usable: a text answer has a visible character, tool calls come with at
  least one call, and they come only when tools were offered and text was not forced.
\<close>

theorem respond_contract:
  assumes "respond_with_tools eng parse build_prompt llm ctx w = (Ok out, w')"
  shows "case ro_result out of
           RText t \<Rightarrow> trim_str t \<noteq> []
         | RToolCalls calls _ \<Rightarrow> calls \<noteq> [] \<and> \<not> rc_force_text ctx \<and> rc_available_tools ctx \<noteq> []"
proof (cases "\<not> rc_force_text ctx \<and> rc_available_tools ctx \<noteq> []")
  case True
  then obtain resp where "ro_result out = interpret_tool_response eng parse (rc_available_tools ctx) resp"
    using assms by (auto simp: respond_with_tools_def Let_def split: prod.splits sum.splits)
  then show ?thesis
    using interpret_tool_response_cases [of eng parse "rc_available_tools ctx" resp] True
    by (simp split: RespondResult.splits)
next
  case False
  then have "(if rc_force_text ctx then [] else rc_available_tools ctx) = []" by auto
  with assms obtain s where "ro_result out = RText (final_text eng s)"
    by (auto simp: respond_with_tools_def Let_def split: prod.splits sum.splits)
  then show ?thesis by (simp add: final_text_visible)
qed

theorem respond_contract_witness:
  "\<exists>out. respond_with_tools \<lparr>re_find = \<lambda>_ _. [], re_group1 = \<lambda>_ _. None\<rparr> (\<lambda>_. None) (\<lambda>_. [])
      \<lparr>llm_complete = \<lambda>_ w. (Ok \<lparr>cresp_content = [], cresp_input_tokens = 1, cresp_output_tokens = 0,
        cresp_finish_reason = Stop, cresp_cache_read = 0, cresp_cache_creation = 0\<rparr>, w),
       llm_complete_with_tools = \<lambda>_ w. (Err (AuthFailed []), w)\<rparr> new_reasoning_context () = (Ok out, ()) \<and>
      ro_result out = RText NOT_SURE \<and> trim_str NOT_SURE \<noteq> []"
proof -
  let ?eng = "\<lparr>re_find = \<lambda>_ _. [], re_group1 = \<lambda>_ _. None\<rparr>"
  let ?llm = "\<lparr>llm_complete = \<lambda>_ w. (Ok \<lparr>cresp_content = [], cresp_input_tokens = 1, cresp_output_tokens = 0,
      cresp_finish_reason = Stop, cresp_cache_read = 0, cresp_cache_creation = 0\<rparr>, w),
      llm_complete_with_tools = \<lambda>_ w. (Err (AuthFailed []), w)\<rparr> :: unit llm_provider"
  have "truncate_at_tool_tags [] = []" by code_simp
  moreover have "clean_response ?eng [] = Some []" by code_simp
  ultimately have f: "final_text ?eng [] = NOT_SURE"
    by (simp add: final_text_def clean_text_def unwrap_or_def) code_simp
  have r: "respond_with_tools ?eng (\<lambda>_. None) (\<lambda>_. []) ?llm new_reasoning_context () =
      (Ok \<lparr>ro_result = RText NOT_SURE, ro_usage = \<lparr>tu_input_tokens = 1, tu_output_tokens = 0,
        tu_cache_read = 0, tu_cache_creation = 0\<rparr>\<rparr>, ())"
    by (simp add: respond_with_tools_def new_reasoning_context_def Let_def f usage_of_def)
  from respond_contract [OF r] r show ?thesis by simp
qed

text \<open>
  Every conversation that is sent starts with its only system message, and that message carries the
  prompt and the text of all system messages of the context.
\<close>

lemma join_str_infix: "x \<in> set xs \<Longrightarrow> contains_str (join_str sep xs) x"
proof (induction sep xs rule: join_str.induct)
  case (3 sep x' y ys)
  show ?case
  proof (cases "x = x'")
    case True
    then have "join_str sep (x' # y # ys) = [] @ x @ (sep @ join_str sep (y # ys))" by simp
    then show ?thesis unfolding contains_str_iff by blast
  next
    case False
    with 3 obtain a b where "join_str sep (y # ys) = a @ x @ b" by (auto simp: contains_str_iff)
    then have "join_str sep (x' # y # ys) = (x' @ sep @ a) @ x @ b" by simp
    then show ?thesis unfolding contains_str_iff by blast
  qed
qed (auto simp: contains_str_iff intro: exI [of _ "[]"])

text \<open>
  A request to the model carries exactly one system message, in front: it begins with the prompt and
  contains every system text of the context; the other messages follow in their order.
\<close>

theorem one_system_message:
  "map role (request_messages prompt ms) = System # map role (filter (\<lambda>m. role m \<noteq> System) ms) \<and>
   list_all (\<lambda>m. contains_str (content (hd (request_messages prompt ms))) (content m))
     (filter (\<lambda>m. role m = System) ms) \<and>
   starts_with (content (hd (request_messages prompt ms))) prompt"
proof -
  let ?extra = "map content (filter (\<lambda>m. role m = System) ms)"
  have "contains_str (merge_system_messages prompt ms) (content m)" if "m \<in> set ms" "role m = System" for m
  proof -
    have "content m \<in> set ?extra" using that by auto
    then have "contains_str (join_str [CHR 0x0A, CHR 0x0A] ?extra) (content m)" by (rule join_str_infix)
    moreover have "?extra \<noteq> []" using that by (auto simp: filter_empty_conv)
    ultimately show ?thesis
      using contains_str_append_right
        [of "join_str [CHR 0x0A, CHR 0x0A] ?extra" "content m" "prompt @ [CHR 0x0A, CHR 0x0A] @ ''---'' @ [CHR 0x0A, CHR 0x0A]"]
      by (simp add: merge_system_messages_def Let_def)
  qed
  moreover have "starts_with (merge_system_messages prompt ms) prompt"
    by (auto simp: merge_system_messages_def Let_def starts_with_iff)
  ultimately show ?thesis by (simp add: request_messages_def system_msg_def list_all_iff)
qed

end
