(* ===== verification/Agentic_Loop.thy ===== *)
theory Agentic_Loop
  imports Reasoning Session_Thread
begin

text \<open>
  \<open>src/agent/agentic_loop.rs\<close>: the loop that calls the model, runs the tools it asks for and repeats,
  shared by chat, jobs and containers. A delegate is a record of the methods of \<open>LoopDelegate\<close>, each a
  function on the delegate's state \<open>'s\<close> (its world); the reasoning context is threaded through.

  The locale \<open>forcing_delegate\<close> states what a delegate has to promise so that the loop always ends
  with an answer before its hard limit; the chat delegate interprets it. Other lemmas bound the
  iterations and the reminders that are sent in a row.
\<close>

subsection \<open>Data\<close>

datatype LoopSignal = SignalContinue | SignalStop | InjectMessage string

datatype LoopOutcome =
    LoopResponse string
  | LoopStopped
  | LoopMaxIterations
  | LoopNeedApproval pending_approval

datatype TextAction = TextReturn LoopOutcome | TextContinue

record agentic_loop_config =
  lc_max_iterations :: nat
  lc_enable_tool_intent_nudge :: bool
  lc_max_tool_intent_nudges :: u32

definition default_loop_config :: agentic_loop_config where
  "default_loop_config =
     \<lparr>lc_max_iterations = 50, lc_enable_tool_intent_nudge = True, lc_max_tool_intent_nudges = 2\<rparr>"

record ('s, 'e) loop_delegate =
  dg_check_signals :: "'s \<Rightarrow> LoopSignal \<times> 's"
  dg_before_llm_call :: "reasoning_context \<Rightarrow> nat \<Rightarrow> 's \<Rightarrow> LoopOutcome option \<times> reasoning_context \<times> 's"
  dg_call_llm :: "reasoning_context \<Rightarrow> nat \<Rightarrow> 's \<Rightarrow> ('e, respond_output) result \<times> reasoning_context \<times> 's"
  dg_handle_text_response :: "string \<Rightarrow> reasoning_context \<Rightarrow> 's \<Rightarrow> TextAction \<times> reasoning_context \<times> 's"
  dg_execute_tool_calls :: "tool_call list \<Rightarrow> string option \<Rightarrow> reasoning_context \<Rightarrow> 's
      \<Rightarrow> ('e, LoopOutcome option) result \<times> reasoning_context \<times> 's"
  dg_on_tool_intent_nudge :: "string \<Rightarrow> reasoning_context \<Rightarrow> 's \<Rightarrow> reasoning_context \<times> 's"
  dg_after_iteration :: "nat \<Rightarrow> 's \<Rightarrow> 's"

subsection \<open>One iteration\<close>

datatype ('s, 'e) iteration =
    Finished "('e, LoopOutcome) result" reasoning_context 's
  | NextIteration u32 reasoning_context 's

definition push_msgs :: "chat_message list \<Rightarrow> reasoning_context \<Rightarrow> reasoning_context" where
  "push_msgs ms ctx = ctx\<lparr>rc_messages := rc_messages ctx @ ms\<rparr>"

definition should_nudge ::
  "(string \<Rightarrow> string) \<Rightarrow> agentic_loop_config \<Rightarrow> reasoning_context \<Rightarrow> u32 \<Rightarrow> string \<Rightarrow> bool" where
  "should_nudge lc cfg ctx nudges s \<longleftrightarrow>
     lc_enable_tool_intent_nudge cfg \<and> rc_available_tools ctx \<noteq> [] \<and> \<not> rc_force_text ctx \<and>
     nudges < lc_max_tool_intent_nudges cfg \<and> llm_signals_tool_intent lc s"

definition text_step ::
  "(string \<Rightarrow> string) \<Rightarrow> ('s, 'e) loop_delegate \<Rightarrow> agentic_loop_config \<Rightarrow> nat \<Rightarrow> u32 \<Rightarrow> string \<Rightarrow> reasoning_context \<Rightarrow> 's
     \<Rightarrow> ('s, 'e) iteration" where
  "text_step lc d cfg it nudges s ctx st =
     (if should_nudge lc cfg ctx nudges s
      then case dg_on_tool_intent_nudge d s ctx st of (ctx1, st1) \<Rightarrow>
             NextIteration (nudges + 1)
               (push_msgs [assistant_msg s, user_msg TOOL_INTENT_NUDGE] ctx1) (dg_after_iteration d it st1)
      else
        let nudges1 = (if \<not> llm_signals_tool_intent lc s then 0 else nudges) in
        case dg_handle_text_response d s ctx st of
          (TextReturn outcome, ctx1, st1) \<Rightarrow> Finished (Ok outcome) ctx1 st1
        | (TextContinue, ctx1, st1) \<Rightarrow> NextIteration nudges1 ctx1 (dg_after_iteration d it st1))"

definition tools_step ::
  "('s, 'e) loop_delegate \<Rightarrow> nat \<Rightarrow> tool_call list \<Rightarrow> string option \<Rightarrow> reasoning_context \<Rightarrow> 's \<Rightarrow> ('s, 'e) iteration" where
  "tools_step d it calls body ctx st =
     (case dg_execute_tool_calls d calls body ctx st of
        (Inl e, ctx1, st1) \<Rightarrow> Finished (Err e) ctx1 st1
      | (Inr (Some outcome), ctx1, st1) \<Rightarrow> Finished (Ok outcome) ctx1 st1
      | (Inr None, ctx1, st1) \<Rightarrow> NextIteration 0 ctx1 (dg_after_iteration d it st1))"

definition llm_step ::
  "(string \<Rightarrow> string) \<Rightarrow> ('s, 'e) loop_delegate \<Rightarrow> agentic_loop_config \<Rightarrow> nat \<Rightarrow> u32 \<Rightarrow> reasoning_context \<Rightarrow> 's
     \<Rightarrow> ('s, 'e) iteration" where
  "llm_step lc d cfg it nudges ctx st =
     (case dg_call_llm d ctx it st of
        (Inl e, ctx1, st1) \<Rightarrow> Finished (Err e) ctx1 st1
      | (Inr out, ctx1, st1) \<Rightarrow>
          (case ro_result out of
             RText s \<Rightarrow> text_step lc d cfg it nudges s ctx1 st1
           | RToolCalls calls body \<Rightarrow> tools_step d it calls body ctx1 st1))"

definition loop_iteration ::
  "(string \<Rightarrow> string) \<Rightarrow> ('s, 'e) loop_delegate \<Rightarrow> agentic_loop_config \<Rightarrow> nat \<Rightarrow> u32 \<Rightarrow> reasoning_context \<Rightarrow> 's
     \<Rightarrow> ('s, 'e) iteration" where
  "loop_iteration lc d cfg it nudges ctx st =
     (case dg_check_signals d st of
        (SignalStop, st1) \<Rightarrow> Finished (Ok LoopStopped) ctx st1
      | (sig, st1) \<Rightarrow>
          let ctx1 = (case sig of InjectMessage m \<Rightarrow> push_msgs [user_msg m] ctx | _ \<Rightarrow> ctx) in
          case dg_before_llm_call d ctx1 it st1 of
            (Some outcome, ctx2, st2) \<Rightarrow> Finished (Ok outcome) ctx2 st2
          | (None, ctx2, st2) \<Rightarrow> llm_step lc d cfg it nudges ctx2 st2)"

subsection \<open>The loop\<close>

text \<open>The iterations that are left, the number of the next one, and the reminders so far.\<close>

fun run_iterations ::
  "(string \<Rightarrow> string) \<Rightarrow> ('s, 'e) loop_delegate \<Rightarrow> agentic_loop_config \<Rightarrow> nat \<Rightarrow> nat \<Rightarrow> u32 \<Rightarrow> reasoning_context \<Rightarrow> 's
     \<Rightarrow> ('e, LoopOutcome) result \<times> reasoning_context \<times> 's" where
  "run_iterations lc d cfg 0 it nudges ctx st = (Ok LoopMaxIterations, ctx, st)"
| "run_iterations lc d cfg (Suc n) it nudges ctx st =
     (case loop_iteration lc d cfg it nudges ctx st of
        Finished r ctx1 st1 \<Rightarrow> (r, ctx1, st1)
      | NextIteration nudges1 ctx1 st1 \<Rightarrow> run_iterations lc d cfg n (it + 1) nudges1 ctx1 st1)"

definition run_agentic_loop ::
  "(string \<Rightarrow> string) \<Rightarrow> ('s, 'e) loop_delegate \<Rightarrow> reasoning_context \<Rightarrow> agentic_loop_config \<Rightarrow> 's
     \<Rightarrow> ('e, LoopOutcome) result \<times> reasoning_context \<times> 's" where
  "run_agentic_loop lc d ctx cfg st = run_iterations lc d cfg (lc_max_iterations cfg) 1 0 ctx st"

definition floor_char_boundary :: "string \<Rightarrow> nat \<Rightarrow> nat" where
  "floor_char_boundary s pos = (if length s \<le> pos then length s else back_to_boundary s pos)"

definition truncate_for_preview :: "string \<Rightarrow> nat \<Rightarrow> string" where
  "truncate_for_preview s mx =
     (if length s \<le> mx then s else take (floor_char_boundary s mx) s @ ''...'')"

lemma truncate_for_preview_length: "length (truncate_for_preview s mx) \<le> mx + 3"
  using back_to_boundary_le [of s mx] by (simp add: truncate_for_preview_def floor_char_boundary_def)

text \<open>The reminders in a row stay within the configured number.\<close>

lemma nudges_bounded:
  "loop_iteration lc d cfg it nudges ctx st = NextIteration nudges1 ctx1 st1 \<Longrightarrow>
     nudges \<le> lc_max_tool_intent_nudges cfg \<Longrightarrow> nudges1 \<le> lc_max_tool_intent_nudges cfg"
  by (auto simp: loop_iteration_def llm_step_def text_step_def tools_step_def should_nudge_def Let_def inc_le
      split: prod.splits LoopSignal.splits option.splits sum.splits RespondResult.splits TextAction.splits if_splits)

subsection \<open>Invariants of a delegate's state\<close>

text \<open>A property of its state that every method of a delegate keeps, whatever the conversation.\<close>

definition delegate_keeps :: "('s \<Rightarrow> bool) \<Rightarrow> ('s, 'e) loop_delegate \<Rightarrow> bool" where
  "delegate_keeps J d \<longleftrightarrow>
     (\<forall>st. J st \<longrightarrow>
        J (snd (dg_check_signals d st)) \<and>
        (\<forall>ctx it. J (snd (snd (dg_before_llm_call d ctx it st)))) \<and>
        (\<forall>ctx it. J (snd (snd (dg_call_llm d ctx it st)))) \<and>
        (\<forall>s ctx. J (snd (snd (dg_handle_text_response d s ctx st)))) \<and>
        (\<forall>calls body ctx. J (snd (snd (dg_execute_tool_calls d calls body ctx st)))) \<and>
        (\<forall>s ctx. J (snd (dg_on_tool_intent_nudge d s ctx st))) \<and>
        (\<forall>it. J (dg_after_iteration d it st)))"

fun iteration_state :: "('s, 'e) iteration \<Rightarrow> 's" where
  "iteration_state (Finished _ _ st) = st"
| "iteration_state (NextIteration _ _ st) = st"

lemma delegate_keepsD:
  assumes "delegate_keeps J d" "J st"
  shows "dg_check_signals d st = (sig, st1) \<Longrightarrow> J st1"
    "dg_before_llm_call d ctx it st = (oc, ctx1, st1) \<Longrightarrow> J st1"
    "dg_call_llm d ctx it st = (out, ctx1, st1) \<Longrightarrow> J st1"
    "dg_handle_text_response d s ctx st = (act, ctx1, st1) \<Longrightarrow> J st1"
    "dg_execute_tool_calls d calls body ctx st = (res, ctx1, st1) \<Longrightarrow> J st1"
    "dg_on_tool_intent_nudge d s ctx st = (ctx1, st1) \<Longrightarrow> J st1"
    "J (dg_after_iteration d it st)"
  using assms unfolding delegate_keeps_def by (metis snd_conv)+

lemma text_step_keeps:
  assumes "delegate_keeps J d" "J st"
  shows "J (iteration_state (text_step lc d cfg it nudges s ctx st))"
  using delegate_keepsD(7) [OF assms(1)] delegate_keepsD(4,6) [OF assms]
  by (auto simp: text_step_def Let_def split: prod.split TextAction.split)

lemma tools_step_keeps:
  assumes "delegate_keeps J d" "J st"
  shows "J (iteration_state (tools_step d it calls body ctx st))"
  using delegate_keepsD(7) [OF assms(1)] delegate_keepsD(5) [OF assms]
  by (auto simp: tools_step_def split: prod.split sum.split option.split)

lemma llm_step_keeps:
  assumes "delegate_keeps J d" "J st"
  shows "J (iteration_state (llm_step lc d cfg it nudges ctx st))"
proof -
  obtain res ctx1 st1 where r: "dg_call_llm d ctx it st = (res, ctx1, st1)" by (metis prod_cases3)
  with delegate_keepsD(3) [OF assms] have "J st1" by blast
  then show ?thesis using r text_step_keeps [OF assms(1)] tools_step_keeps [OF assms(1)]
    by (auto simp: llm_step_def split: sum.split RespondResult.split)
qed

lemma loop_iteration_keeps:
  assumes "delegate_keeps J d" "J st"
  shows "J (iteration_state (loop_iteration lc d cfg it nudges ctx st))"
proof -
  obtain sig st1 where s: "dg_check_signals d st = (sig, st1)" by (cases "dg_check_signals d st")
  with delegate_keepsD(1) [OF assms] have J1: "J st1" by blast
  have next_ok: "J (iteration_state (case dg_before_llm_call d c it st1 of
            (Some outcome, ctx2, st2) \<Rightarrow> Finished (Ok outcome) ctx2 st2
          | (None, ctx2, st2) \<Rightarrow> llm_step lc d cfg it nudges ctx2 st2))" for c
  proof -
    obtain oc ctx2 st2 where b: "dg_before_llm_call d c it st1 = (oc, ctx2, st2)" by (metis prod_cases3)
    with delegate_keepsD(2) [OF assms(1) J1] have "J st2" by blast
    then show ?thesis using b llm_step_keeps [OF assms(1)] by (auto split: option.split)
  qed
  show ?thesis using s J1 next_ok by (auto simp: loop_iteration_def Let_def split: LoopSignal.split)
qed

lemma run_iterations_keeps:
  assumes "delegate_keeps J d"
  shows "J st \<Longrightarrow> J (snd (snd (run_iterations lc d cfg n it nudges ctx st)))"
proof (induction n arbitrary: it nudges ctx st)
  case (Suc n)
  then show ?case using loop_iteration_keeps [OF assms Suc.prems, of lc cfg it nudges ctx]
    by (cases "loop_iteration lc d cfg it nudges ctx st") auto
qed simp

lemma run_agentic_loop_keeps:
  "delegate_keeps J d \<Longrightarrow> J st \<Longrightarrow> J (snd (snd (run_agentic_loop lc d ctx cfg st)))"
  unfolding run_agentic_loop_def by (rule run_iterations_keeps)

subsection \<open>Delegates that force an answer\<close>

text \<open>
  From iteration \<open>force_at\<close> on the delegate forces text, under forced text its model call answers with
  text, and a text ends the loop.
\<close>

locale forcing_delegate =
  fixes d :: "('s, 'e) loop_delegate" and force_at :: nat
  assumes forces: "dg_before_llm_call d ctx it st = (None, ctx1, st1) \<Longrightarrow> force_at \<le> it \<Longrightarrow> rc_force_text ctx1"
    and early: "dg_before_llm_call d ctx it st = (Some outcome, ctx1, st1) \<Longrightarrow> outcome \<noteq> LoopMaxIterations"
    and text_only: "dg_call_llm d ctx it st = (Inr out, ctx1, st1) \<Longrightarrow> rc_force_text ctx \<Longrightarrow>
                      rc_force_text ctx1 \<and> (\<exists>s. ro_result out = RText s)"
    and answers: "\<exists>outcome ctx1 st1. dg_handle_text_response d s ctx st = (TextReturn outcome, ctx1, st1) \<and>
                    outcome \<noteq> LoopMaxIterations"
    and tools_other: "dg_execute_tool_calls d calls body ctx st = (Inr (Some outcome), ctx1, st1) \<Longrightarrow>
                        outcome \<noteq> LoopMaxIterations"
begin

lemma forced_text_finishes:
  "rc_force_text ctx \<Longrightarrow> \<exists>r ctx1 st1. text_step lc d cfg it nudges s ctx st = Finished (Ok r) ctx1 st1 \<and> r \<noteq> LoopMaxIterations"
  using answers [of s ctx st] by (auto simp: text_step_def should_nudge_def Let_def)

lemma forced_iteration_finishes:
  assumes "force_at \<le> it"
  shows "\<exists>r ctx1 st1. loop_iteration lc d cfg it nudges ctx st = Finished r ctx1 st1 \<and> r \<noteq> Ok LoopMaxIterations"
proof -
  have llm: "\<exists>r ctx1 st1. llm_step lc d cfg it nudges c s = Finished r ctx1 st1 \<and> r \<noteq> Ok LoopMaxIterations"
    if "rc_force_text c" for c s
  proof (cases "dg_call_llm d c it s")
    case (fields res ctx1 st1)
    show ?thesis
    proof (cases res)
      case (Inr out)
      with fields text_only that obtain t where "rc_force_text ctx1" "ro_result out = RText t" by blast
      then show ?thesis using forced_text_finishes [of ctx1 lc cfg it nudges t st1] fields Inr
        by (auto simp: llm_step_def)
    qed (use fields in \<open>simp add: llm_step_def\<close>)
  qed
  show ?thesis
  proof (cases "dg_check_signals d st")
    case (Pair sig st1)
    show ?thesis
    proof (cases sig)
      case SignalStop
      with Pair show ?thesis by (simp add: loop_iteration_def)
    next
      case SignalContinue
      with Pair show ?thesis
        using llm forces [OF _ assms] early by (auto simp: loop_iteration_def split: prod.splits option.splits; blast)
    next
      case (InjectMessage m)
      with Pair show ?thesis
        using llm forces [OF _ assms] early by (auto simp: loop_iteration_def split: prod.splits option.splits; blast)
    qed
  qed
qed

lemma unforced_iteration:
  "loop_iteration lc d cfg it nudges ctx st = Finished r ctx1 st1 \<Longrightarrow> r \<noteq> Ok LoopMaxIterations"
proof -
  have txt_step: "text_step lc d cfg it nudges s c st' = Finished r c1 s1 \<Longrightarrow> r \<noteq> Ok LoopMaxIterations" for s c st' c1 s1
    using answers [of s c st'] by (auto simp: text_step_def Let_def split: if_splits prod.splits)
  have tools: "tools_step d it calls body c st' = Finished r c1 s1 \<Longrightarrow> r \<noteq> Ok LoopMaxIterations" for calls body c st' c1 s1
    by (auto simp: tools_step_def split: prod.splits sum.splits option.splits dest: tools_other)
  have llm: "llm_step lc d cfg it nudges c st' = Finished r c1 s1 \<Longrightarrow> r \<noteq> Ok LoopMaxIterations" for c st' c1 s1
    using txt_step tools by (auto simp: llm_step_def split: prod.splits sum.splits RespondResult.splits)
  show "loop_iteration lc d cfg it nudges ctx st = Finished r ctx1 st1 \<Longrightarrow> ?thesis"
    using llm early
    by (auto simp: loop_iteration_def Let_def split: prod.splits LoopSignal.splits option.splits; blast)
qed

lemma run_answers:
  "force_at \<le> it + n \<Longrightarrow> fst (run_iterations lc d cfg (Suc n) it nudges ctx st) \<noteq> Ok LoopMaxIterations"
proof (induction n arbitrary: it nudges ctx st)
  case 0
  then show ?case using forced_iteration_finishes [of it lc cfg nudges ctx st] by auto
next
  case (Suc n)
  then show ?case
    using unforced_iteration [of lc cfg it nudges ctx st]
    by (cases "loop_iteration lc d cfg it nudges ctx st") auto
qed

lemma loop_answers:
  assumes "force_at \<le> lc_max_iterations cfg" and "0 < lc_max_iterations cfg"
  shows "fst (run_agentic_loop lc d ctx cfg st) \<noteq> Ok LoopMaxIterations"
proof -
  obtain n where n: "lc_max_iterations cfg = Suc n" using assms(2) by (cases "lc_max_iterations cfg") auto
  with assms(1) run_answers [of 1 n lc cfg 0 ctx st] show ?thesis by (simp add: run_agentic_loop_def)
qed

end

end
