(* ===== verification/Tool_Execution.thy ===== *)
theory Tool_Execution
  imports Safety_Layer Coercion
begin

text \<open>
  \<open>src/tools/execute.rs\<close>: the pipeline through which every consumer runs a tool (look up, coerce the
  parameters, validate, execute with a time limit, serialize) and the message a result becomes.

  The record \<open>exec_env\<close> collects what the pipeline is given: the registry as a lookup in the current
  world, the safety layer, and the library functions (regular expressions, case mapping, JSON and
  number parsing, JSON printing, the formats of durations). The lemmas show that a tool only ever
  sees parameters that passed validation and that its output reaches the model delimited.
\<close>

record 'w exec_env =
  ev_lookup :: "'w \<Rightarrow> string \<Rightarrow> 'w tool option"
  ev_safety :: safety_layer
  ev_regex :: regex_engine
  ev_lower :: "string \<Rightarrow> string"
  ev_decode :: "string \<Rightarrow> json option"
  ev_number :: "string \<Rightarrow> json option"
  ev_pretty :: "json \<Rightarrow> (string, string) result"
  ev_fmt :: "duration \<Rightarrow> string"
  ev_fmto :: "duration option \<Rightarrow> string"

definition normalized_params :: "'w exec_env \<Rightarrow> 'w tool \<Rightarrow> json \<Rightarrow> json" where
  "normalized_params env t params = prepare_tool_params (ev_decode env) (ev_number env) t params"

definition validate_params :: "'w exec_env \<Rightarrow> json \<Rightarrow> validation_result" where
  "validate_params env params = validate_tool_params (ev_lower env) (sl_validator (ev_safety env)) params"

definition invalid_params_error :: "string \<Rightarrow> validation_result \<Rightarrow> ToolError" where
  "invalid_params_error tool_name v =
     InvalidParameters tool_name (''Invalid tool parameters: '' @
       join_str ''; '' (map (\<lambda>e. ve_field e @ '': '' @ ve_message e) (vr_errors v)))"

definition execute_tool_with_safety ::
  "'w exec_env \<Rightarrow> string \<Rightarrow> json \<Rightarrow> 'w \<Rightarrow> (ToolError, string) result \<times> 'w" where
  "execute_tool_with_safety env tool_name params w =
     (if tool_name = [] then (Err (NotFoundTool tool_name), w)
      else case ev_lookup env w tool_name of
        None \<Rightarrow> (Err (NotFoundTool tool_name), w)
      | Some t \<Rightarrow>
          let normalized = normalized_params env t params; v = validate_params env normalized in
          if \<not> vr_is_valid v then (Err (invalid_params_error tool_name v), w)
          else case t_execute t normalized w of
            (None, w') \<Rightarrow> (Err (ToolTimeout tool_name (execution_timeout t)), w')
          | (Some (Inl e), w') \<Rightarrow>
              (Err (ExecutionFailed tool_name (show_tool_run_error (ev_fmt env) (ev_fmto env) e)), w')
          | (Some (Inr r), w') \<Rightarrow>
              (case ev_pretty env r of
                 Inl e \<Rightarrow> (Err (ExecutionFailed tool_name (''Failed to serialize result: '' @ e)), w')
               | Inr s \<Rightarrow> (Ok s, w')))"

definition delimit_output :: "'w exec_env \<Rightarrow> string \<Rightarrow> string \<Rightarrow> string" where
  "delimit_output env tool_name out =
     wrap_for_llm tool_name (so_content (sanitize_tool_output (ev_regex env) (ev_safety env) tool_name out))"

definition process_tool_result ::
  "'w exec_env \<Rightarrow> ('e \<Rightarrow> string) \<Rightarrow> string \<Rightarrow> string \<Rightarrow> ('e, string) result \<Rightarrow> string \<times> chat_message" where
  "process_tool_result env show_err tool_name call_id res =
     (let body = (case res of Inr out \<Rightarrow> delimit_output env tool_name out | Inl e \<Rightarrow> ''Error: '' @ show_err e)
      in (body, tool_result call_id tool_name body))"

definition execute_tool_simple ::
  "'w exec_env \<Rightarrow> string \<Rightarrow> json \<Rightarrow> 'w \<Rightarrow> (string, string) result \<times> 'w" where
  "execute_tool_simple env tool_name params w =
     (case execute_tool_with_safety env tool_name params w of
        (Inl e, w') \<Rightarrow> (Err (''Tool error: '' @ show_tool_error (ev_fmt env) (ev_fmto env) e), w')
      | (Inr s, w') \<Rightarrow> (Ok s, w'))"

subsection \<open>Properties\<close>

text \<open>The calls that reach a tool: it is registered and the coerced parameters are valid.\<close>

definition admissible :: "'w exec_env \<Rightarrow> string \<Rightarrow> json \<Rightarrow> 'w \<Rightarrow> 'w tool option" where
  "admissible env tool_name params w =
     (if tool_name = [] then None
      else case ev_lookup env w tool_name of
        None \<Rightarrow> None
      | Some t \<Rightarrow> if list_all (\<lambda>s. s = [] \<or> acceptable (ev_lower env) (sl_validator (ev_safety env)) s)
                       (strings_upto MAX_PARAM_DEPTH (normalized_params env t params))
                  then Some t else None)"

lemma validate_params_valid:
  "vr_is_valid (validate_params env p) \<longleftrightarrow>
     list_all (\<lambda>s. s = [] \<or> acceptable (ev_lower env) (sl_validator (ev_safety env)) s) (strings_upto MAX_PARAM_DEPTH p)"
  using check_strings_valid(1) [of 0 "ev_lower env" "sl_validator (ev_safety env)" p "[]" vr_ok]
  by (simp add: validate_params_def validate_tool_params_def)

lemma execute_not_admissible:
  "admissible env n p w = None \<Longrightarrow> \<exists>e. execute_tool_with_safety env n p w = (Err e, w)"
  by (auto simp: admissible_def execute_tool_with_safety_def Let_def validate_params_valid
      split: if_splits option.splits)

lemma execute_admissible:
  "admissible env n p w = Some t \<Longrightarrow>
     ev_lookup env w n = Some t \<and>
     snd (execute_tool_with_safety env n p w) = snd (t_execute t (normalized_params env t p) w)"
  by (auto simp: admissible_def execute_tool_with_safety_def Let_def validate_params_valid
      split: if_splits option.splits prod.splits sum.splits)

text \<open>
  C17: A tool never sees unchecked parameters: the pipeline changes the world only by running a registered
  tool on the coerced parameters, and it does so only when every string in them down to the depth
  limit is acceptable; in every other case it returns an error and leaves the world alone.
\<close>

theorem tool_runs_only_on_checked_params:
  "(case admissible env n p w of
      None \<Rightarrow> snd (execute_tool_with_safety env n p w) = w \<and> \<not> is_ok (fst (execute_tool_with_safety env n p w))
    | Some t \<Rightarrow> ev_lookup env w n = Some t \<and>
                snd (execute_tool_with_safety env n p w) = snd (t_execute t (normalized_params env t p) w)) \<and>
   (admissible env n p w \<noteq> None \<longleftrightarrow>
      n \<noteq> [] \<and> (case ev_lookup env w n of None \<Rightarrow> False | Some t \<Rightarrow>
         vr_errors (validate_params env (normalized_params env t p)) = []))"
proof
  show "case admissible env n p w of
      None \<Rightarrow> snd (execute_tool_with_safety env n p w) = w \<and> \<not> is_ok (fst (execute_tool_with_safety env n p w))
    | Some t \<Rightarrow> ev_lookup env w n = Some t \<and>
                snd (execute_tool_with_safety env n p w) = snd (t_execute t (normalized_params env t p) w)"
    using execute_not_admissible [of env n p w] execute_admissible [of env n p w]
    by (auto split: option.splits)
  have "vr_wf (validate_params env q)" for q
    by (simp add: validate_params_def validate_tool_params_def check_strings_wf)
  then have "vr_errors (validate_params env q) = [] \<longleftrightarrow>
      list_all (\<lambda>s. s = [] \<or> acceptable (ev_lower env) (sl_validator (ev_safety env)) s) (strings_upto MAX_PARAM_DEPTH q)" for q
    using validate_params_valid by (auto simp: vr_wf_def)
  then show "admissible env n p w \<noteq> None \<longleftrightarrow>
      n \<noteq> [] \<and> (case ev_lookup env w n of None \<Rightarrow> False | Some t \<Rightarrow>
         vr_errors (validate_params env (normalized_params env t p)) = [])"
    by (auto simp: admissible_def split: option.splits if_splits)
qed

text \<open>The message of a successful call has one closing tag, at its end.\<close>

lemma delimited_output_single_close:
  "ascii_lower (delimit_output env n out) = a @ CLOSE_TAG @ b \<Longrightarrow> b = ''>''"
  unfolding delimit_output_def by (rule wrapped_single_close)

end
