(* ===== verification/Chat_Text.thy ===== *)
theory Chat_Text
  imports Response_Cleaning
begin

text \<open>
  The functions on messages and text of \<open>src/agent/dispatcher.rs\<close>: compaction of the context for a
  retry, removal of internal markers from an answer, extraction of suggestions, and the fields of an
  authentication result. \<open>parse\<close> is \<open>serde_json::from_str\<close>; the expression for suggestion blocks is a
  parameter that lists the spans of each match and of its capture group.
\<close>

subsection \<open>Compaction for a retry\<close>

definition COMPACTION_NOTE :: string where
  "COMPACTION_NOTE =
     ''[Note: Earlier conversation history was automatically compacted to fit within the context window. '' @
     ''The most recent exchange is preserved below.]''"

text \<open>\<open>Iterator::rposition\<close>.\<close>

fun rposition :: "('a \<Rightarrow> bool) \<Rightarrow> 'a list \<Rightarrow> nat option" where
  "rposition P [] = None"
| "rposition P (x # xs) =
     (case rposition P xs of Some n \<Rightarrow> Some (Suc n) | None \<Rightarrow> if P x then Some 0 else None)"

definition compact_messages_for_retry :: "chat_message list \<Rightarrow> chat_message list" where
  "compact_messages_for_retry ms =
     (case rposition (\<lambda>m. role m = User) ms of
        Some idx \<Rightarrow>
          filter (\<lambda>m. role m = System) (take idx ms) @
          (if 0 < idx then [system_msg COMPACTION_NOTE] else []) @ drop idx ms
      | None \<Rightarrow> filter (\<lambda>m. role m = System) ms @ filter (\<lambda>m. role m \<noteq> System) ms)"

subsection \<open>Internal markers\<close>

definition internal_marker :: "string \<Rightarrow> bool" where
  "internal_marker line =
     (let trimmed = trim_str line in
      (starts_with trimmed ''[Called tool '' \<and> ends_with trimmed '']'') \<or>
      (starts_with trimmed ''[Tool '' \<and> contains_str trimmed '' returned:'' \<and> ends_with trimmed '']''))"

definition RETRY_HINT :: string where
  "RETRY_HINT = ''I wasn'' @ [CHR 0x27] @
     ''t able to complete that request. Could you try rephrasing or providing more details?''"

definition join_lines :: "string list \<Rightarrow> string" where
  "join_lines ls = foldl (\<lambda>acc s. (if acc \<noteq> [] then acc @ [CHR 0x0A] else acc) @ s) [] ls"

definition strip_internal_tool_call_text :: "string \<Rightarrow> string" where
  "strip_internal_tool_call_text s =
     (let result = trim_str (join_lines (filter (\<lambda>l. \<not> internal_marker l) (str_lines s))) in
      if result = [] then RETRY_HINT else result)"

subsection \<open>Suggestions\<close>

fun last_block :: "nat \<Rightarrow> (span \<times> span) list \<Rightarrow> (span \<times> span) option \<Rightarrow> (span \<times> span) option" where
  "last_block fence [] best = best"
| "last_block fence ((full, inner) # cs) best =
     last_block fence cs (if fence \<le> fst full then Some (full, inner) else best)"

definition extract_suggestions ::
  "(string \<Rightarrow> (span \<times> span) list) \<Rightarrow> (string \<Rightarrow> string list option) \<Rightarrow> string \<Rightarrow> string \<times> string list" where
  "extract_suggestions captures parse_list s =
     (case last_block (unwrap_or (rfind_str s ''```'') 0) (captures s) None of
        None \<Rightarrow> (s, [])
      | Some ((fa, fb), (ia, ib)) \<Rightarrow>
          (trim_str (take fa s @ drop fb s),
           take 3 (filter (\<lambda>x. trim_str x \<noteq> [] \<and> length x \<le> 80)
             (unwrap_or (parse_list (slice s ia ib)) []))))"

subsection \<open>Authentication results\<close>

record parsed_auth_data =
  pad_auth_url :: "string option"
  pad_setup_url :: "string option"

definition parse_auth_result :: "(string \<Rightarrow> json option) \<Rightarrow> ('e, string) result \<Rightarrow> parsed_auth_data" where
  "parse_auth_result parse res =
     (let v = (case res of Inr s \<Rightarrow> parse s | Inl _ \<Rightarrow> None) in
      \<lparr>pad_auth_url = Option.bind v (\<lambda>j. jget_str j ''auth_url''),
       pad_setup_url = Option.bind v (\<lambda>j. jget_str j ''setup_url'')\<rparr>)"

definition check_auth_required ::
  "(string \<Rightarrow> json option) \<Rightarrow> string \<Rightarrow> ('e, string) result \<Rightarrow> (string \<times> string) option" where
  "check_auth_required parse tool_name res =
     (if tool_name \<noteq> ''tool_auth'' \<and> tool_name \<noteq> ''tool_activate'' then None
      else case res of
        Inl _ \<Rightarrow> None
      | Inr s \<Rightarrow>
          (case parse s of
             None \<Rightarrow> None
           | Some v \<Rightarrow>
               if jget v ''awaiting_token'' \<noteq> Some (JBool True) then None
               else case jget_str v ''name'' of
                 None \<Rightarrow> None
               | Some name \<Rightarrow>
                   Some (name, unwrap_or (jget_str v ''instructions'') ''Please provide your API token/key.'')))"

subsection \<open>Properties\<close>

lemma rposition_Some:
  "rposition P xs = Some n \<Longrightarrow> n < length xs \<and> P (xs ! n) \<and> list_all (\<lambda>x. \<not> P x) (drop (Suc n) xs)"
proof (induction xs arbitrary: n)
  case (Cons x xs)
  have none: "rposition P ys = None \<Longrightarrow> list_all (\<lambda>x. \<not> P x) ys" for ys
    by (induction ys) (auto split: option.splits if_splits)
  with Cons show ?case by (auto split: option.splits if_splits)
qed simp

lemma rposition_None: "rposition P xs = None \<longleftrightarrow> list_all (\<lambda>x. \<not> P x) xs"
  by (induction xs) (auto split: option.splits)

text \<open>
  Compaction loses no instruction and nothing of the current turn: the compacted context has every
  system message of the old one in order, it ends with everything from the last user message on, and
  besides the old messages it has at most the note.
\<close>

theorem compaction_keeps_turn:
  "filter (\<lambda>m. role m = System \<and> m \<noteq> system_msg COMPACTION_NOTE) (compact_messages_for_retry ms)
     = filter (\<lambda>m. role m = System \<and> m \<noteq> system_msg COMPACTION_NOTE) ms \<and>
   (\<exists>pre. compact_messages_for_retry ms = pre @ drop (unwrap_or (rposition (\<lambda>m. role m = User) ms) (length ms)) ms) \<and>
   set (compact_messages_for_retry ms) \<subseteq> insert (system_msg COMPACTION_NOTE) (set ms) \<and>
   length (compact_messages_for_retry ms) \<le> Suc (length ms)"
proof (cases "rposition (\<lambda>m. role m = User) ms")
  case None
  have f: "filter (\<lambda>m. role m = System \<and> Q m) (filter (\<lambda>m. role m \<noteq> System) ms) = []" for Q
    by (auto simp: filter_empty_conv)
  have g: "filter (\<lambda>m. role m = System \<and> Q m) (filter (\<lambda>m. role m = System) ms) = filter (\<lambda>m. role m = System \<and> Q m) ms" for Q
    by (induction ms) auto
  have "length (filter (\<lambda>m. role m = System) ms) + length (filter (\<lambda>m. role m \<noteq> System) ms) = length ms"
    by (rule sum_length_filter_compl)
  then show ?thesis using None f g by (auto simp: compact_messages_for_retry_def unwrap_or_def)
next
  case (Some idx)
  then have idx: "idx < length ms" "role (ms ! idx) = User" by (auto dest: rposition_Some)
  have g: "filter (\<lambda>m. role m = System \<and> Q m) (filter (\<lambda>m. role m = System) xs) = filter (\<lambda>m. role m = System \<and> Q m) xs" for Q xs
    by (induction xs) auto
  have split: "filter Q ms = filter Q (take idx ms) @ filter Q (drop idx ms)" for Q
    by (metis append_take_drop_id filter_append)
  have "length (filter (\<lambda>m. role m = System) (take idx ms)) \<le> idx"
    using length_filter_le [of _ "take idx ms"] idx by simp
  then show ?thesis
    using Some idx g set_take_subset [of idx ms] set_drop_subset [of idx ms]
    by (auto simp: compact_messages_for_retry_def unwrap_or_def split [of "\<lambda>m. role m = System \<and> m \<noteq> system_msg COMPACTION_NOTE"])
qed

text \<open>An answer to the user is never blank, and no line of it is an internal marker.\<close>

lemma strip_internal_visible: "strip_internal_tool_call_text s \<noteq> []"
  by (auto simp: strip_internal_tool_call_text_def Let_def RETRY_HINT_def)

lemma suggestions_none:
  "list_all (\<lambda>(full, _). fst full < unwrap_or (rfind_str s ''```'') 0) (captures s) \<Longrightarrow>
     extract_suggestions captures parse_list s = (s, [])"
proof -
  have "list_all (\<lambda>(full, _). fst full < n) cs \<Longrightarrow> last_block n cs best = best" for n cs best
    by (induction n cs best rule: last_block.induct) auto
  then show "list_all (\<lambda>(full, _). fst full < unwrap_or (rfind_str s ''```'') 0) (captures s) \<Longrightarrow> ?thesis"
    by (simp add: extract_suggestions_def)
qed

text \<open>At most three suggestions are shown, each with something to read and at most 80 bytes long.\<close>

theorem suggestions_bounded:
  "length (snd (extract_suggestions captures parse_list s)) \<le> 3 \<and>
   list_all (\<lambda>x. trim_str x \<noteq> [] \<and> length x \<le> 80) (snd (extract_suggestions captures parse_list s))"
proof -
  have "list_all P (take 3 (filter P xs))" for P and xs :: "string list"
    by (auto simp: list_all_iff dest: in_set_takeD)
  then show ?thesis by (auto simp: extract_suggestions_def split: option.splits)
qed

end
