(* ===== verification/Chat_Delegate.thy ===== *)
theory Chat_Delegate
  imports Agentic_Loop Tool_Execution Hooks Skill_Selection Chat_Text Context_Manager
begin

text \<open>
  The chat delegate of \<open>src/agent/dispatcher.rs\<close>: how the agent loop runs for an interactive thread,
  with the three phases of a tool round (preflight, execution, post-flight), approvals, hooks,
  authentication requests and the retry after an overlong context.

  The state is the session, the stash of tool outputs and the world \<open>'w\<close> (providers, tools, hooks,
  cost guard, clocks). What other tasks do to the session between two iterations is a parameter,
  \<open>ce_interfere\<close>. Status messages to the channel are sent and forgotten and are left out. The tools of
  one round run concurrently; a schedule says in which order their effects take place, and a task
  that panics or is cancelled is missing from it.

  The lemmas show that the loop always ends with an answer, an approval request, an interruption or
  an error, that the context keeps the protocol of tool calls and results, and that no tool runs
  without the approval it asks for.
\<close>

subsection \<open>Environment and state\<close>

datatype Error = LlmErr LlmError | ToolErr ToolError | JobErr JobError

record ('w, 're) chat_env =
  ce_exec :: "'w exec_env"
  ce_hooks :: "'w hook_registry"
  ce_encode :: "json \<Rightarrow> string"
  ce_llm :: "'w llm_provider"
  ce_re :: re_engine
  ce_prompt :: "tool_definition list \<Rightarrow> string"
  ce_tool_defs :: "'w \<Rightarrow> tool_definition list"
  ce_check_cost :: "'w \<Rightarrow> (string, unit) result \<times> 'w"
  ce_record_cost :: "token_usage \<Rightarrow> 'w \<Rightarrow> 'w"
  ce_skills :: "'re loaded_skill list"
  ce_auto_approve_tools :: bool
  ce_max_tool_iterations :: nat
  ce_channel :: string
  ce_user_id :: string
  ce_metadata :: json
  ce_cached_prompt :: string
  ce_cached_prompt_no_tools :: string
  ce_user_tz :: string
  ce_thread_id :: uuid
  ce_now :: "'w \<Rightarrow> datetime"
  ce_fresh :: "'w \<Rightarrow> uuid"
  ce_interfere :: "'w \<Rightarrow> session \<Rightarrow> session"
  ce_schedule :: "'w \<Rightarrow> (nat \<times> tool_call) list \<Rightarrow> (nat \<times> tool_call) list"

record 'w chat_state =
  cs_session :: session
  cs_stash :: "(string, string) hmap"
  cs_world :: 'w

definition nudge_at :: "('w, 're) chat_env \<Rightarrow> nat" where
  "nudge_at env = ce_max_tool_iterations env - 1"

definition force_text_at :: "('w, 're) chat_env \<Rightarrow> nat" where
  "force_text_at env = ce_max_tool_iterations env"

subsection \<open>Signals, context and model call\<close>

definition chat_check_signals :: "('w, 're) chat_env \<Rightarrow> 'w chat_state \<Rightarrow> LoopSignal \<times> 'w chat_state" where
  "chat_check_signals env st =
     (let sess = ce_interfere env (cs_world st) (cs_session st); st1 = st\<lparr>cs_session := sess\<rparr> in
      case map_of (threads sess) (ce_thread_id env) of
        Some th \<Rightarrow> if thread_state th = Interrupted then (SignalStop, st1) else (SignalContinue, st1)
      | None \<Rightarrow> (SignalContinue, st1))"

definition LIMIT_NUDGE :: string where
  "LIMIT_NUDGE =
     ''You are approaching the tool call limit. Provide your best final answer on the next response '' @
     ''using the information you have gathered so far. Do not call any more tools.''"

definition chat_tool_defs :: "('w, 're) chat_env \<Rightarrow> 'w \<Rightarrow> tool_definition list" where
  "chat_tool_defs env w =
     (if ce_skills env \<noteq> [] then att_tools (attenuate_tools (ce_tool_defs env w) (ce_skills env))
      else ce_tool_defs env w)"

definition chat_before_llm_call ::
  "('w, 're) chat_env \<Rightarrow> reasoning_context \<Rightarrow> nat \<Rightarrow> 'w chat_state
     \<Rightarrow> LoopOutcome option \<times> reasoning_context \<times> 'w chat_state" where
  "chat_before_llm_call env ctx it st =
     (let ctx1 = (if it = nudge_at env then push_msgs [system_msg LIMIT_NUDGE] ctx else ctx);
          force = (force_text_at env \<le> it) in
      (None,
       ctx1\<lparr>rc_available_tools := chat_tool_defs env (cs_world st),
            rc_system_prompt := Some (if force then ce_cached_prompt_no_tools env else ce_cached_prompt env),
            rc_force_text := force\<rparr>,
       st))"

definition chat_respond :: "('w, 're) chat_env \<Rightarrow> reasoning_context \<Rightarrow> ('w, respond_output) llm_call" where
  "chat_respond env ctx w =
     respond_with_tools (ce_re env) (ev_decode (ce_exec env)) (ce_prompt env) (ce_llm env) ctx w"

definition chat_call_llm ::
  "('w, 're) chat_env \<Rightarrow> reasoning_context \<Rightarrow> nat \<Rightarrow> 'w chat_state
     \<Rightarrow> (Error, respond_output) result \<times> reasoning_context \<times> 'w chat_state" where
  "chat_call_llm env ctx it st =
     (case ce_check_cost env (cs_world st) of
        (Inl limit, w1) \<Rightarrow> (Err (LlmErr (InvalidResponse ''agent'' limit)), ctx, st\<lparr>cs_world := w1\<rparr>)
      | (Inr _, w1) \<Rightarrow>
          (case chat_respond env ctx w1 of
             (Inr out, w2) \<Rightarrow> (Ok out, ctx, st\<lparr>cs_world := ce_record_cost env (ro_usage out) w2\<rparr>)
           | (Inl (ContextLengthExceeded used limit), w2) \<Rightarrow>
               let ctx1 = ctx\<lparr>rc_messages := compact_messages_for_retry (rc_messages ctx)\<rparr>;
                   ctx2 = (if rc_force_text ctx1 then ctx1\<lparr>rc_available_tools := []\<rparr> else ctx1) in
               (case chat_respond env ctx2 w2 of
                  (Inr out, w3) \<Rightarrow> (Ok out, ctx2, st\<lparr>cs_world := ce_record_cost env (ro_usage out) w3\<rparr>)
                | (Inl e, w3) \<Rightarrow> (Err (LlmErr e), ctx2, st\<lparr>cs_world := w3\<rparr>))
           | (Inl e, w2) \<Rightarrow> (Err (LlmErr e), ctx, st\<lparr>cs_world := w2\<rparr>)))"

definition chat_handle_text_response ::
  "string \<Rightarrow> reasoning_context \<Rightarrow> 'w chat_state \<Rightarrow> TextAction \<times> reasoning_context \<times> 'w chat_state" where
  "chat_handle_text_response s ctx st = (TextReturn (LoopResponse (strip_internal_tool_call_text s)), ctx, st)"

subsection \<open>Recording in the thread\<close>

definition on_last_turn :: "uuid \<Rightarrow> (turn \<Rightarrow> turn) \<Rightarrow> session \<Rightarrow> session" where
  "on_last_turn tid f sess =
     (case map_of (threads sess) tid of
        None \<Rightarrow> sess
      | Some th \<Rightarrow> sess\<lparr>threads := AList.update tid (th\<lparr>turns := update_last f (turns th)\<rparr>) (threads sess)\<rparr>)"

definition sensitive_of :: "'w tool option \<Rightarrow> string list" where
  "sensitive_of t = (case t of Some x \<Rightarrow> sensitive_params x | None \<Rightarrow> [])"

definition redacted_calls :: "('w, 're) chat_env \<Rightarrow> 'w \<Rightarrow> tool_call list \<Rightarrow> tool_call list" where
  "redacted_calls env w calls =
     map (\<lambda>tc. case ev_lookup (ce_exec env) w (tc_name tc) of
                 Some t \<Rightarrow> tc\<lparr>tc_arguments := redact_params (tc_arguments tc) (sensitive_params t)\<rparr>
               | None \<Rightarrow> tc) calls"

subsection \<open>Preflight\<close>

datatype PreflightOutcome = Rejected string | Runnable

record 'w approval_needed =
  an_index :: nat
  an_call :: tool_call
  an_tool :: "'w tool"
  an_allow_always :: bool

text \<open>What a hook changed is taken over, but the sensitive members keep their original values.\<close>

definition restore_sensitive :: "json \<Rightarrow> string list \<Rightarrow> json \<Rightarrow> json" where
  "restore_sensitive orig sensitive parsed =
     (case parsed of
        JObject kvs \<Rightarrow>
          JObject (foldl (\<lambda>m key. case jget orig key of Some v \<Rightarrow> AList.update key v m | None \<Rightarrow> m) kvs sensitive)
      | _ \<Rightarrow> parsed)"

definition hook_call ::
  "('w, 're) chat_env \<Rightarrow> tool_call \<Rightarrow> 'w \<Rightarrow> (string, tool_call) result \<times> 'w" where
  "hook_call env tc w =
     (let sensitive = sensitive_of (ev_lookup (ce_exec env) w (tc_name tc));
          ev = ToolCallEvent (tc_name tc) (redact_params (tc_arguments tc) sensitive) (ce_user_id env) ''chat'' in
      case run_hooks (ce_encode env) (ev_decode (ce_exec env)) (ev_fmt (ce_exec env)) (ce_hooks env) ev w of
        (Inl (HookRejected reason), w1) \<Rightarrow> (Err (''Tool call rejected by hook: '' @ reason), w1)
      | (Inl e, w1) \<Rightarrow> (Err (''Tool call blocked by hook policy: '' @ show_hook_error (ev_fmt (ce_exec env)) e), w1)
      | (Inr (HookContinue (Some new_params)), w1) \<Rightarrow>
          (case ev_decode (ce_exec env) new_params of
             Some parsed \<Rightarrow> (Ok (tc\<lparr>tc_arguments := restore_sensitive (tc_arguments tc) sensitive parsed\<rparr>), w1)
           | None \<Rightarrow> (Ok tc, w1))
      | (Inr _, w1) \<Rightarrow> (Ok tc, w1))"

definition needs_approval :: "session \<Rightarrow> tool_call \<Rightarrow> ApprovalRequirement \<Rightarrow> bool" where
  "needs_approval sess tc req =
     (case req of
        Never \<Rightarrow> False
      | UnlessAutoApproved \<Rightarrow> \<not> is_tool_auto_approved sess (tc_name tc)
      | Always \<Rightarrow> True)"

definition shared_relay :: "('w, 're) chat_env \<Rightarrow> bool" where
  "shared_relay env \<longleftrightarrow>
     ends_with (ce_channel env) ''-relay'' \<and> jget_str (ce_metadata env) ''event_type'' \<noteq> Some ''direct_message''"

definition shared_channel_message :: "string \<Rightarrow> string" where
  "shared_channel_message name =
     ''Tool '' @ [CHR 0x27] @ name @ [CHR 0x27] @ '' requires approval and cannot run in shared channels. '' @
     ''Ask the user to message me directly (DM) to use this tool.''"

text \<open>The tool whose approval a call waits for, if any.\<close>

definition approval_gate ::
  "('w, 're) chat_env \<Rightarrow> session \<Rightarrow> 'w tool option \<Rightarrow> tool_call \<Rightarrow> 'w tool option" where
  "approval_gate env sess tool tc =
     (if ce_auto_approve_tools env then None
      else case tool of
        None \<Rightarrow> None
      | Some t \<Rightarrow> if needs_approval sess tc (requires_approval t (tc_arguments tc)) then Some t else None)"

fun preflight ::
  "('w, 're) chat_env \<Rightarrow> session \<Rightarrow> nat \<Rightarrow> tool_call list \<Rightarrow> 'w
     \<Rightarrow> (tool_call \<times> PreflightOutcome) list \<times> 'w approval_needed option \<times> 'w" where
  "preflight env sess idx [] w = ([], None, w)"
| "preflight env sess idx (tc0 # tcs) w =
     (let tool = ev_lookup (ce_exec env) w (tc_name tc0) in
      case hook_call env tc0 w of
        (Inl msg, w1) \<Rightarrow>
          (case preflight env sess (Suc idx) tcs w1 of (pf, ap, w2) \<Rightarrow> ((tc0, Rejected msg) # pf, ap, w2))
      | (Inr tc, w1) \<Rightarrow>
          (case approval_gate env sess tool tc of
             Some t \<Rightarrow>
               if shared_relay env
               then (case preflight env sess (Suc idx) tcs w1 of (pf, ap, w2) \<Rightarrow>
                       ((tc, Rejected (shared_channel_message (tc_name tc))) # pf, ap, w2))
               else ([], Some \<lparr>an_index = idx, an_call = tc, an_tool = t,
                               an_allow_always = (requires_approval t (tc_arguments tc) \<noteq> Always)\<rparr>, w1)
           | None \<Rightarrow>
               (case preflight env sess (Suc idx) tcs w1 of (pf, ap, w2) \<Rightarrow> ((tc, Runnable) # pf, ap, w2))))"

subsection \<open>Execution\<close>

type_synonym tool_outcome = "(ToolError, string) result"

fun runnable_from :: "nat \<Rightarrow> (tool_call \<times> PreflightOutcome) list \<Rightarrow> (nat \<times> tool_call) list" where
  "runnable_from i [] = []"
| "runnable_from i ((tc, Runnable) # pf) = (i, tc) # runnable_from (Suc i) pf"
| "runnable_from i ((tc, Rejected _) # pf) = runnable_from (Suc i) pf"

fun run_tasks ::
  "('w, 're) chat_env \<Rightarrow> (nat \<times> tool_call) list \<Rightarrow> tool_outcome option list \<Rightarrow> 'w
     \<Rightarrow> tool_outcome option list \<times> 'w" where
  "run_tasks env [] rs w = (rs, w)"
| "run_tasks env ((i, tc) # ts) rs w =
     (case execute_tool_with_safety (ce_exec env) (tc_name tc) (tc_arguments tc) w of
        (r, w1) \<Rightarrow> run_tasks env ts (rs[i := Some r]) w1)"

fun fill_failed :: "(nat \<times> tool_call) list \<Rightarrow> tool_outcome option list \<Rightarrow> tool_outcome option list" where
  "fill_failed [] rs = rs"
| "fill_failed ((i, tc) # ts) rs =
     fill_failed ts (if i < length rs \<and> rs ! i = None
                     then rs[i := Some (Err (ExecutionFailed (tc_name tc) ''Task failed during execution''))] else rs)"

text \<open>The tasks whose effects take place, in their order: a single call runs in place.\<close>

definition task_order ::
  "('w, 're) chat_env \<Rightarrow> (tool_call \<times> PreflightOutcome) list \<Rightarrow> 'w \<Rightarrow> (nat \<times> tool_call) list" where
  "task_order env pf w =
     (let runnable = runnable_from 0 pf in
      if length runnable \<le> 1 then runnable else ce_schedule env w runnable)"

definition execute_runnable ::
  "('w, 're) chat_env \<Rightarrow> (tool_call \<times> PreflightOutcome) list \<Rightarrow> 'w \<Rightarrow> tool_outcome option list \<times> 'w" where
  "execute_runnable env pf w =
     (let runnable = runnable_from 0 pf in
      case run_tasks env (task_order env pf w) (replicate (length pf) None) w of
        (rs, w1) \<Rightarrow> (if length runnable \<le> 1 then rs else fill_failed runnable rs, w1))"

subsection \<open>Post-flight\<close>

definition failure_text :: "('w, 're) chat_env \<Rightarrow> string \<Rightarrow> ToolError \<Rightarrow> string" where
  "failure_text env name e =
     ''Tool '' @ [CHR 0x27] @ name @ [CHR 0x27] @ '' failed: Tool error: '' @
     show_tool_error (ev_fmt (ce_exec env)) (ev_fmto (ce_exec env)) e"

definition result_content :: "('w, 're) chat_env \<Rightarrow> string \<Rightarrow> tool_outcome \<Rightarrow> string" where
  "result_content env name r =
     (case r of Inr out \<Rightarrow> delimit_output (ce_exec env) name out | Inl e \<Rightarrow> failure_text env name e)"

definition record_result :: "tool_outcome \<Rightarrow> string \<Rightarrow> turn \<Rightarrow> turn" where
  "record_result r body = (if is_ok r then record_tool_result (JString body) else record_tool_error body)"

definition enter_auth :: "('w, 're) chat_env \<Rightarrow> string \<Rightarrow> 'w chat_state \<Rightarrow> 'w chat_state" where
  "enter_auth env ext st =
     (case map_of (threads (cs_session st)) (ce_thread_id env) of
        None \<Rightarrow> st
      | Some th \<Rightarrow>
          st\<lparr>cs_session := (cs_session st)\<lparr>threads := AList.update (ce_thread_id env)
               (enter_auth_mode (ce_now env (cs_world st)) (ce_now env (cs_world st)) ext th)
               (threads (cs_session st))\<rparr>\<rparr>)"

definition postflight_runnable ::
  "('w, 're) chat_env \<Rightarrow> tool_call \<Rightarrow> tool_outcome \<Rightarrow> string option \<Rightarrow> 'w chat_state \<Rightarrow> string option \<times> 'w chat_state" where
  "postflight_runnable env tc r deferred st =
     (let auth = (if deferred = None then check_auth_required (ev_decode (ce_exec env)) (tc_name tc) r else None);
          st1 = (case auth of Some (ext, _) \<Rightarrow> enter_auth env ext st | None \<Rightarrow> st);
          deferred1 = (case auth of Some (_, instructions) \<Rightarrow> Some instructions | None \<Rightarrow> deferred);
          st2 = (case r of Inr out \<Rightarrow> st1\<lparr>cs_stash := AList.update (tc_id tc) out (cs_stash st1)\<rparr> | Inl _ \<Rightarrow> st1);
          body = result_content env (tc_name tc) r in
      (deferred1, st2\<lparr>cs_session := on_last_turn (ce_thread_id env) (record_result r body) (cs_session st2)\<rparr>))"

definition missing_result :: "string \<Rightarrow> tool_outcome" where
  "missing_result name = Err (ExecutionFailed name ''No result available'')"

fun postflight ::
  "('w, 're) chat_env \<Rightarrow> (tool_call \<times> PreflightOutcome) list \<Rightarrow> tool_outcome option list \<Rightarrow> string option \<Rightarrow> 'w chat_state
     \<Rightarrow> chat_message list \<times> string option \<times> 'w chat_state" where
  "postflight env ((tc, Rejected msg) # pf) (_ # rs) deferred st =
     (case postflight env pf rs deferred
             (st\<lparr>cs_session := on_last_turn (ce_thread_id env) (record_tool_error msg) (cs_session st)\<rparr>) of
        (ms, d, st1) \<Rightarrow> (tool_result (tc_id tc) (tc_name tc) msg # ms, d, st1))"
| "postflight env ((tc, Runnable) # pf) (slot # rs) deferred st =
     (let r = unwrap_or slot (missing_result (tc_name tc)) in
      case postflight_runnable env tc r deferred st of (deferred1, st1) \<Rightarrow>
        (case postflight env pf rs deferred1 st1 of
           (ms, d, st2) \<Rightarrow> (tool_result (tc_id tc) (tc_name tc) (result_content env (tc_name tc) r) # ms, d, st2)))"
| "postflight env _ _ deferred st = ([], deferred, st)"

subsection \<open>One round of tool calls\<close>

definition approval_request ::
  "('w, 're) chat_env \<Rightarrow> tool_call list \<Rightarrow> chat_message list \<Rightarrow> 'w approval_needed \<Rightarrow> 'w \<Rightarrow> pending_approval" where
  "approval_request env calls ms ap w =
     (let tc = an_call ap in
      \<lparr>request_id = ce_fresh env w, pap_tool_name = tc_name tc, parameters = tc_arguments tc,
       display_parameters = redact_params (tc_arguments tc) (sensitive_params (an_tool ap)),
       pap_description = t_description (an_tool ap), pap_tool_call_id = tc_id tc, context_messages = ms,
       deferred_tool_calls = drop (an_index ap + 1) calls, pap_user_timezone = Some (ce_user_tz env),
       allow_always = an_allow_always ap\<rparr>)"

definition chat_execute_tool_calls ::
  "('w, 're) chat_env \<Rightarrow> tool_call list \<Rightarrow> string option \<Rightarrow> reasoning_context \<Rightarrow> 'w chat_state
     \<Rightarrow> (Error, LoopOutcome option) result \<times> reasoning_context \<times> 'w chat_state" where
  "chat_execute_tool_calls env calls body ctx st =
     (let ctx1 = push_msgs [assistant_with_tool_calls body calls] ctx;
          sess1 = on_last_turn (ce_thread_id env) (record_calls (redacted_calls env (cs_world st) calls)) (cs_session st) in
      case preflight env sess1 0 calls (cs_world st) of (pf, ap, w1) \<Rightarrow>
      case execute_runnable env pf w1 of (rs, w2) \<Rightarrow>
      case postflight env pf rs None (st\<lparr>cs_session := sess1, cs_world := w2\<rparr>) of (ms, deferred, st1) \<Rightarrow>
        let ctx2 = push_msgs ms ctx1 in
        case deferred of
          Some instructions \<Rightarrow> (Ok (Some (LoopResponse instructions)), ctx2, st1)
        | None \<Rightarrow>
            (case ap of
               Some a \<Rightarrow> (Ok (Some (LoopNeedApproval (approval_request env calls (rc_messages ctx2) a (cs_world st1)))), ctx2, st1)
             | None \<Rightarrow> (Ok None, ctx2, st1)))"

subsection \<open>The delegate and its loop\<close>

definition chat_delegate :: "('w, 're) chat_env \<Rightarrow> ('w chat_state, Error) loop_delegate" where
  "chat_delegate env =
     \<lparr>dg_check_signals = chat_check_signals env,
      dg_before_llm_call = chat_before_llm_call env,
      dg_call_llm = chat_call_llm env,
      dg_handle_text_response = chat_handle_text_response,
      dg_execute_tool_calls = chat_execute_tool_calls env,
      dg_on_tool_intent_nudge = (\<lambda>_ ctx st. (ctx, st)),
      dg_after_iteration = (\<lambda>_ st. st)\<rparr>"

definition chat_loop_config :: "('w, 're) chat_env \<Rightarrow> agentic_loop_config" where
  "chat_loop_config env =
     \<lparr>lc_max_iterations = ce_max_tool_iterations env + 1, lc_enable_tool_intent_nudge = True,
      lc_max_tool_intent_nudges = 2\<rparr>"

definition chat_context :: "('w, 're) chat_env \<Rightarrow> chat_message list \<Rightarrow> 'w \<Rightarrow> string \<Rightarrow> reasoning_context" where
  "chat_context env initial w thread_text =
     with_metadata [(''thread_id'', thread_text)] (with_system_prompt (ce_cached_prompt env)
       (with_tools (chat_tool_defs env w) (with_messages initial new_reasoning_context)))"

definition chat_run ::
  "(string \<Rightarrow> string) \<Rightarrow> ('w, 're) chat_env \<Rightarrow> chat_message list \<Rightarrow> string \<Rightarrow> 'w chat_state
     \<Rightarrow> (Error, AgenticLoopResult) result \<times> 'w chat_state" where
  "chat_run lc env initial thread_text st =
     (case run_agentic_loop lc (chat_delegate env) (chat_context env initial (cs_world st) thread_text)
             (chat_loop_config env) (st\<lparr>cs_stash := []\<rparr>) of
        (Inl e, _, st1) \<Rightarrow> (Err e, st1)
      | (Inr (LoopResponse s), _, st1) \<Rightarrow> (Ok (AgentResponse s), st1)
      | (Inr LoopStopped, _, st1) \<Rightarrow> (Err (JobErr (ContextError (ce_thread_id env) ''Interrupted'')), st1)
      | (Inr LoopMaxIterations, _, st1) \<Rightarrow>
          (Err (LlmErr (InvalidResponse ''agent''
             (''Exceeded maximum tool iterations ('' @ show_nat (ce_max_tool_iterations env) @ '')''))), st1)
      | (Inr (LoopNeedApproval p), _, st1) \<Rightarrow> (Ok (AgentNeedApproval p), st1))"

subsection \<open>The loop ends with an answer\<close>

lemma chat_text_only:
  assumes "chat_call_llm env ctx it st = (Inr out, ctx1, st1)" and "rc_force_text ctx"
  shows "rc_force_text ctx1 \<and> (\<exists>s. ro_result out = RText s)"
  using assms
  by (auto simp: chat_call_llm_def chat_respond_def Let_def dest!: respond_forced_text
      split: prod.splits sum.splits LlmError.splits)

lemma chat_tools_outcome:
  "chat_execute_tool_calls env calls body ctx st = (Inr (Some outcome), ctx1, st1) \<Longrightarrow> outcome \<noteq> LoopMaxIterations"
  by (auto simp: chat_execute_tool_calls_def Let_def split: prod.splits option.splits)

interpretation chat: forcing_delegate "chat_delegate env" "force_text_at env" for env
proof
  fix ctx it st ctx1 st1
  assume "dg_before_llm_call (chat_delegate env) ctx it st = (None, ctx1, st1)" "force_text_at env \<le> it"
  then show "rc_force_text ctx1"
    by (auto simp: chat_delegate_def chat_before_llm_call_def Let_def)
next
  fix ctx it st outcome ctx1 st1
  assume "dg_before_llm_call (chat_delegate env) ctx it st = (Some outcome, ctx1, st1)"
  then show "outcome \<noteq> LoopMaxIterations"
    by (simp add: chat_delegate_def chat_before_llm_call_def Let_def)
next
  fix ctx it st out ctx1 st1
  assume "dg_call_llm (chat_delegate env) ctx it st = (Inr out, ctx1, st1)" "rc_force_text ctx"
  then show "rc_force_text ctx1 \<and> (\<exists>s. ro_result out = RText s)"
    using chat_text_only [of env ctx it st out ctx1 st1] by (simp add: chat_delegate_def)
next
  fix s ctx st
  show "\<exists>outcome ctx1 st1. dg_handle_text_response (chat_delegate env) s ctx st = (TextReturn outcome, ctx1, st1) \<and>
      outcome \<noteq> LoopMaxIterations"
    by (simp add: chat_delegate_def chat_handle_text_response_def)
next
  fix calls body ctx st outcome ctx1 st1
  assume "dg_execute_tool_calls (chat_delegate env) calls body ctx st = (Inr (Some outcome), ctx1, st1)"
  then show "outcome \<noteq> LoopMaxIterations"
    using chat_tools_outcome [of env calls body ctx st outcome ctx1 st1] by (simp add: chat_delegate_def)
qed

text \<open>
  C5: The chat loop never runs into its hard limit: whatever the model and the tools do, by the last
  permitted iteration text has been forced, so the loop ends with an answer, an approval request, an
  interruption or an error of the model, for every configured number of tool iterations.
\<close>

theorem chat_loop_answers:
  "fst (run_agentic_loop lc (chat_delegate env) ctx (chat_loop_config env) st) \<noteq> Ok LoopMaxIterations"
  by (rule chat.loop_answers) (simp_all add: chat_loop_config_def force_text_at_def)

subsection \<open>The protocol of calls and results\<close>

lemma hook_call_same: "hook_call env tc w = (Inr tc1, w1) \<Longrightarrow> tc_id tc1 = tc_id tc \<and> tc_name tc1 = tc_name tc"
  by (auto simp: hook_call_def Let_def split: prod.splits sum.splits HookError.splits HookOutcome.splits option.splits)

lemma preflight_calls:
  "preflight env sess idx calls w = (pf, ap, w1) \<Longrightarrow>
     length pf \<le> length calls \<and>
     map (\<lambda>(tc, _). (tc_id tc, tc_name tc)) pf = map (\<lambda>tc. (tc_id tc, tc_name tc)) (take (length pf) calls) \<and>
     (case ap of
        None \<Rightarrow> length pf = length calls
      | Some a \<Rightarrow> length pf < length calls \<and> an_index a = idx + length pf \<and>
                  tc_id (an_call a) = tc_id (calls ! length pf) \<and> tc_name (an_call a) = tc_name (calls ! length pf))"
proof (induction env sess idx calls w arbitrary: pf ap w1 rule: preflight.induct)
  case (2 env sess idx tc0 tcs w)
  obtain r w0 where hc: "hook_call env tc0 w = (r, w0)" by (cases "hook_call env tc0 w")
  obtain pf' ap' w' where rec: "preflight env sess (Suc idx) tcs w0 = (pf', ap', w')"
    by (cases "preflight env sess (Suc idx) tcs w0")
  have lift: ?case if "pf = (tc, oc) # pf'" "ap = ap'" "tc_id tc = tc_id tc0" "tc_name tc = tc_name tc0"
      and IH: "length pf' \<le> length tcs \<and>
        map (\<lambda>(tc, _). (tc_id tc, tc_name tc)) pf' = map (\<lambda>tc. (tc_id tc, tc_name tc)) (take (length pf') tcs) \<and>
        (case ap' of None \<Rightarrow> length pf' = length tcs
         | Some a \<Rightarrow> length pf' < length tcs \<and> an_index a = Suc idx + length pf' \<and>
             tc_id (an_call a) = tc_id (tcs ! length pf') \<and> tc_name (an_call a) = tc_name (tcs ! length pf'))"
    for tc oc
    using that by (auto split: option.splits)
  show ?case
  proof (cases r)
    case (Inl msg)
    with 2(4) hc rec have "pf = (tc0, Rejected msg) # pf'" "ap = ap'" by simp_all
    then show ?thesis using 2(1) [OF refl hc [symmetric] _ rec] Inl by (intro lift) auto
  next
    case (Inr tc)
    note same = hook_call_same [of env tc0 w tc w0] hc Inr
    let ?gate = "approval_gate env sess (ev_lookup (ce_exec env) w (tc_name tc0)) tc"
    show ?thesis
    proof (cases "?gate = None \<or> shared_relay env")
      case True
      with 2(4) hc rec Inr obtain oc where "pf = (tc, oc) # pf'" "ap = ap'"
        by (auto simp: Let_def split: option.splits)
      moreover have "length pf' \<le> length tcs \<and>
        map (\<lambda>(tc, _). (tc_id tc, tc_name tc)) pf' = map (\<lambda>tc. (tc_id tc, tc_name tc)) (take (length pf') tcs) \<and>
        (case ap' of None \<Rightarrow> length pf' = length tcs
         | Some a \<Rightarrow> length pf' < length tcs \<and> an_index a = Suc idx + length pf' \<and>
             tc_id (an_call a) = tc_id (tcs ! length pf') \<and> tc_name (an_call a) = tc_name (tcs ! length pf'))"
        using True 2(2) [OF refl hc [symmetric] Inr _ rec] 2(3) [OF refl hc [symmetric] Inr _ _ rec]
        by (cases ?gate) auto
      ultimately show ?thesis using same by (intro lift [of tc oc]) auto
    next
      case False
      with 2(4) hc Inr same show ?thesis by (auto simp: Let_def)
    qed
  qed
qed simp

lemma run_tasks_length: "length (fst (run_tasks env ts rs w)) = length rs"
  by (induction env ts rs w rule: run_tasks.induct) (auto split: prod.splits)

lemma fill_failed_length: "length (fill_failed ts rs) = length rs"
  by (induction ts rs rule: fill_failed.induct) auto

lemma execute_runnable_length: "execute_runnable env pf w = (rs, w1) \<Longrightarrow> length rs = length pf"
  using run_tasks_length [of env "task_order env pf w" "replicate (length pf) None" w]
  by (auto simp: execute_runnable_def Let_def fill_failed_length split: if_splits prod.splits)

lemma postflight_messages:
  "length rs = length pf \<Longrightarrow> postflight env pf rs deferred st = (ms, d, st1) \<Longrightarrow>
     map role ms = replicate (length pf) Tool \<and> map tool_call_id ms = map (\<lambda>(tc, _). Some (tc_id tc)) pf"
  by (induction env pf rs deferred st arbitrary: ms d st1 rule: postflight.induct)
     (fastforce simp: tool_result_def Let_def split: prod.splits)+

lemma round_protocol:
  assumes "chat_execute_tool_calls env calls body ctx st = (r, ctx1, st1)"
  shows "\<exists>k ms. k \<le> length calls \<and>
           rc_messages ctx1 = rc_messages ctx @ assistant_with_tool_calls body calls # ms \<and>
           map role ms = replicate k Tool \<and> map tool_call_id ms = map (\<lambda>tc. Some (tc_id tc)) (take k calls) \<and>
           (case r of
              Inl _ \<Rightarrow> False
            | Inr None \<Rightarrow> k = length calls
            | Inr (Some (LoopNeedApproval p)) \<Rightarrow>
                k < length calls \<and> pap_tool_call_id p = tc_id (calls ! k) \<and> pap_tool_name p = tc_name (calls ! k) \<and>
                deferred_tool_calls p = drop (k + 1) calls \<and> context_messages p = rc_messages ctx1
            | Inr (Some (LoopResponse s)) \<Rightarrow> True
            | Inr (Some _) \<Rightarrow> False)"
proof -
  define sess1 where "sess1 = on_last_turn (ce_thread_id env)
      (record_calls (redacted_calls env (cs_world st) calls)) (cs_session st)"
  obtain pf ap w1 where pf: "preflight env sess1 0 calls (cs_world st) = (pf, ap, w1)"
    by (cases "preflight env sess1 0 calls (cs_world st)")
  obtain rs w2 where rs: "execute_runnable env pf w1 = (rs, w2)" by (cases "execute_runnable env pf w1")
  obtain ms d st2 where ms: "postflight env pf rs None (st\<lparr>cs_session := sess1, cs_world := w2\<rparr>) = (ms, d, st2)"
    by (cases "postflight env pf rs None (st\<lparr>cs_session := sess1, cs_world := w2\<rparr>)")
  note calls = preflight_calls [OF pf] and msgs = postflight_messages [OF execute_runnable_length [OF rs] ms]
  have ids: "map tool_call_id ms = map (\<lambda>tc. Some (tc_id tc)) (take (length pf) calls)"
  proof -
    have "map (\<lambda>(tc, _). Some (tc_id tc)) pf = map (\<lambda>(i, _). Some i) (map (\<lambda>(tc, _). (tc_id tc, tc_name tc)) pf)"
      by (induction pf) auto
    also have "\<dots> = map (\<lambda>tc. Some (tc_id tc)) (take (length pf) calls)" using calls by simp
    finally show ?thesis using msgs by simp
  qed
  have ctx1: "rc_messages ctx1 = rc_messages ctx @ assistant_with_tool_calls body calls # ms"
    using assms by (auto simp: chat_execute_tool_calls_def sess1_def [symmetric] pf rs ms Let_def push_msgs_def
        split: option.splits)
  have r: "r = (case d of Some i \<Rightarrow> Inr (Some (LoopResponse i))
      | None \<Rightarrow> Inr (map_option (\<lambda>a. LoopNeedApproval (approval_request env calls (rc_messages ctx1) a (cs_world st2))) ap))"
    using assms by (auto simp: chat_execute_tool_calls_def sess1_def [symmetric] pf rs ms Let_def split: option.splits)
  show ?thesis
    using calls msgs ids ctx1 r
    by (intro exI [of _ "length pf"] exI [of _ ms])
       (auto simp: approval_request_def Let_def split: option.splits)
qed

text \<open>
  C10: A round keeps the protocol of tool calls: it appends the assistant message with the calls and one
  result message for each call of an initial part of them, in order and with the call's identifier.
  If the loop goes on, every call has its result; if the round stops for an approval, the first call
  without a result is the one that waits, the later ones are deferred unchanged, and the request
  carries the context so far.
\<close>

theorem round_keeps_protocol:
  assumes "chat_execute_tool_calls env calls body ctx st = (r, ctx1, st1)"
  shows "\<exists>k ms. k \<le> length calls \<and>
           rc_messages ctx1 = rc_messages ctx @ assistant_with_tool_calls body calls # ms \<and>
           map role ms = replicate k Tool \<and> map tool_call_id ms = map (\<lambda>tc. Some (tc_id tc)) (take k calls) \<and>
           (case r of
              Inl _ \<Rightarrow> False
            | Inr None \<Rightarrow> k = length calls
            | Inr (Some (LoopNeedApproval p)) \<Rightarrow>
                k < length calls \<and> pap_tool_call_id p = tc_id (calls ! k) \<and> pap_tool_name p = tc_name (calls ! k) \<and>
                deferred_tool_calls p = drop (k + 1) calls \<and> context_messages p = rc_messages ctx1
            | Inr (Some (LoopResponse s)) \<Rightarrow> True
            | Inr (Some _) \<Rightarrow> False)"
  using assms by (rule round_protocol)

subsection \<open>Approvals\<close>

text \<open>The world in which the preflight looks up the tool of the \<open>k\<close>-th call.\<close>

definition world_before :: "('w, 're) chat_env \<Rightarrow> session \<Rightarrow> nat \<Rightarrow> tool_call list \<Rightarrow> 'w \<Rightarrow> nat \<Rightarrow> 'w" where
  "world_before env sess idx calls w k = snd (snd (preflight env sess idx (take k calls) w))"

lemma preflight_runnable_gate:
  "preflight env sess idx calls w = (pf, ap, w1) \<Longrightarrow> (tc, Runnable) \<in> set pf \<Longrightarrow>
     \<exists>k < length calls. tc_name tc = tc_name (calls ! k) \<and>
       approval_gate env sess (ev_lookup (ce_exec env) (world_before env sess idx calls w k) (tc_name tc)) tc = None"
proof (induction env sess idx calls w arbitrary: pf ap w1 rule: preflight.induct)
  case (2 env sess idx tc0 tcs w)
  obtain r w0 where hc: "hook_call env tc0 w = (r, w0)" by (cases "hook_call env tc0 w")
  obtain pf' ap' w' where rec: "preflight env sess (Suc idx) tcs w0 = (pf', ap', w')"
    by (cases "preflight env sess (Suc idx) tcs w0")
  have later: ?case
    if IH: "\<exists>k < length tcs. tc_name tc = tc_name (tcs ! k) \<and>
       approval_gate env sess (ev_lookup (ce_exec env) (world_before env sess (Suc idx) tcs w0 k) (tc_name tc)) tc = None"
      and passed: "\<And>k. world_before env sess idx (tc0 # tcs) w (Suc k) = world_before env sess (Suc idx) tcs w0 k"
  proof -
    from IH obtain k where "k < length tcs" "tc_name tc = tc_name (tcs ! k)"
      "approval_gate env sess (ev_lookup (ce_exec env) (world_before env sess (Suc idx) tcs w0 k) (tc_name tc)) tc = None"
      by blast
    then show ?thesis by (intro exI [of _ "Suc k"]) (simp add: passed)
  qed
  show ?case
  proof (cases r)
    case (Inl msg)
    with 2(4,5) hc rec have "(tc, Runnable) \<in> set pf'" by auto
    with 2(1) [OF refl hc [symmetric] Inl rec] hc Inl show ?thesis
      by (intro later) (auto simp: world_before_def Let_def split: prod.splits)
  next
    case (Inr tc1)
    let ?gate = "approval_gate env sess (ev_lookup (ce_exec env) w (tc_name tc0)) tc1"
    have name: "tc_name tc1 = tc_name tc0" using hook_call_same [OF hc [unfolded Inr]] by simp
    show ?thesis
    proof (cases ?gate)
      case None
      with 2(4,5) hc rec Inr have "tc = tc1 \<or> (tc, Runnable) \<in> set pf'" by (auto simp: Let_def)
      then show ?thesis
      proof
        assume "tc = tc1"
        then show ?thesis using None name by (intro exI [of _ 0]) (simp add: world_before_def)
      next
        assume "(tc, Runnable) \<in> set pf'"
        with 2(2) [OF refl hc [symmetric] Inr None rec] hc Inr None show ?thesis
          by (intro later) (auto simp: world_before_def Let_def split: prod.splits)
      qed
    next
      case (Some t)
      show ?thesis
      proof (cases "shared_relay env")
        case True
        with 2(4,5) hc rec Inr Some have "(tc, Runnable) \<in> set pf'" by (auto simp: Let_def)
        with 2(3) [OF refl hc [symmetric] Inr Some True rec] hc Inr Some True show ?thesis
          by (intro later) (auto simp: world_before_def Let_def split: prod.splits)
      next
        case False
        with 2(4,5) hc Inr Some show ?thesis by (auto simp: Let_def)
      qed
    qed
  qed
qed simp

lemma runnable_from_mem: "(i, tc) \<in> set (runnable_from k pf) \<Longrightarrow> (tc, Runnable) \<in> set pf"
  by (induction k pf rule: runnable_from.induct) auto

text \<open>
  C3: No tool runs without the approval it asks for: unless all tools are approved by configuration, a
  call that a round executes is one whose tool, when it was looked up in the preflight, asked for no
  approval for these very arguments, or asked for one that the session has granted for good.
\<close>

theorem no_unapproved_tool_runs:
  assumes pre: "preflight env sess idx calls w = (pf, ap, w1)"
    and sched: "set (ce_schedule env w1 (runnable_from 0 pf)) \<subseteq> set (runnable_from 0 pf)"
    and runs: "(i, tc) \<in> set (task_order env pf w1)"
    and config: "\<not> ce_auto_approve_tools env"
  shows "\<exists>k < length calls. tc_name tc = tc_name (calls ! k) \<and>
           (case ev_lookup (ce_exec env) (world_before env sess idx calls w k) (tc_name tc) of
              None \<Rightarrow> True
            | Some t \<Rightarrow> requires_approval t (tc_arguments tc) = Never \<or>
                        (requires_approval t (tc_arguments tc) = UnlessAutoApproved \<and>
                         tc_name tc \<in> set (auto_approved_tools sess)))"
proof -
  have "(i, tc) \<in> set (runnable_from 0 pf)"
    using runs sched by (auto simp: task_order_def Let_def split: if_splits)
  then have "(tc, Runnable) \<in> set pf" by (rule runnable_from_mem)
  from preflight_runnable_gate [OF pre this]
  obtain k where "k < length calls" "tc_name tc = tc_name (calls ! k)"
    "approval_gate env sess (ev_lookup (ce_exec env) (world_before env sess idx calls w k) (tc_name tc)) tc = None"
    by blast
  with config show ?thesis
    by (intro exI [of _ k])
       (auto simp: approval_gate_def needs_approval_def is_tool_auto_approved_def
             split: option.splits if_splits ApprovalRequirement.splits)
qed

subsection \<open>What the thread keeps of a round\<close>

lemma butlast_update_last: "butlast (update_last f xs) = butlast xs"
  by (cases xs rule: rev_cases) (simp_all add: update_last_def)

lemma record_result_frame:
  "butlast (turn_calls (record_result r body t)) = butlast (turn_calls t)"
  "butlast (turn_calls (record_tool_error msg t)) = butlast (turn_calls t)"
  by (simp_all add: record_result_def record_tool_result_def record_tool_error_def butlast_update_last)

text \<open>The turns of the thread after an operation that works on its last turn.\<close>

definition last_turn_of :: "uuid \<Rightarrow> session \<Rightarrow> turn list \<Rightarrow> turn \<Rightarrow> bool" where
  "last_turn_of tid sess ts t \<longleftrightarrow> (\<exists>th. map_of (threads sess) tid = Some th \<and> turns th = ts @ [t])"

lemma on_last_turn_eff: "last_turn_of tid sess ts t \<Longrightarrow> last_turn_of tid (on_last_turn tid f sess) ts (f t)"
  by (auto simp: last_turn_of_def on_last_turn_def update_last_def update_conv')

lemma enter_auth_eff:
  "last_turn_of (ce_thread_id env) (cs_session st) ts t \<Longrightarrow>
   last_turn_of (ce_thread_id env) (cs_session (enter_auth env ext st)) ts t"
  by (auto simp: last_turn_of_def enter_auth_def enter_auth_mode_def update_conv')

lemma postflight_runnable_eff:
  assumes "postflight_runnable env tc r deferred st = (d, st1)"
    and "last_turn_of (ce_thread_id env) (cs_session st) ts t"
  shows "\<exists>t1. last_turn_of (ce_thread_id env) (cs_session st1) ts t1 \<and> butlast (turn_calls t1) = butlast (turn_calls t)"
proof -
  let ?auth = "if deferred = None then check_auth_required (ev_decode (ce_exec env)) (tc_name tc) r else None"
  have "last_turn_of (ce_thread_id env) (cs_session (case ?auth of Some (ext, _) \<Rightarrow> enter_auth env ext st | None \<Rightarrow> st)) ts t"
    using assms(2) enter_auth_eff by (auto split: option.splits)
  then have "last_turn_of (ce_thread_id env) (cs_session st1) ts
      (record_result r (result_content env (tc_name tc) r) t)"
    using assms(1) on_last_turn_eff
    by (auto simp: postflight_runnable_def Let_def split: sum.splits)
  then show ?thesis using record_result_frame(1) by blast
qed

lemma postflight_eff:
  "postflight env pf rs deferred st = (ms, d, st1) \<Longrightarrow> last_turn_of (ce_thread_id env) (cs_session st) ts t \<Longrightarrow>
     \<exists>t1. last_turn_of (ce_thread_id env) (cs_session st1) ts t1 \<and> butlast (turn_calls t1) = butlast (turn_calls t)"
proof (induction env pf rs deferred st arbitrary: ms d st1 t rule: postflight.induct)
  case (1 env tc msg pf slot rs deferred st)
  let ?st = "st\<lparr>cs_session := on_last_turn (ce_thread_id env) (record_tool_error msg) (cs_session st)\<rparr>"
  obtain ms' d' where "postflight env pf rs deferred ?st = (ms', d', st1)"
    using 1(2) by (auto split: prod.splits)
  moreover have "last_turn_of (ce_thread_id env) (cs_session ?st) ts (record_tool_error msg t)"
    using on_last_turn_eff [OF 1(3)] by simp
  ultimately show ?case using 1(1) record_result_frame(2) by metis
next
  case (2 env tc pf slot rs deferred st)
  let ?r = "unwrap_or slot (missing_result (tc_name tc))"
  obtain d1 st' where r: "postflight_runnable env tc ?r deferred st = (d1, st')"
    by (cases "postflight_runnable env tc ?r deferred st")
  then obtain ms' d' where "postflight env pf rs d1 st' = (ms', d', st1)"
    using 2(2) by (auto simp: Let_def split: prod.splits)
  with 2(1) [OF refl r [symmetric]] postflight_runnable_eff [OF r 2(3)] show ?case by metis
qed auto

text \<open>
  A round with several calls loses outcomes: all calls are recorded first and every outcome is then
  recorded on the last call of the turn, so after a round of two or more calls all but the last one
  have neither a result nor an error, whatever the tools returned.
\<close>

theorem round_records_only_last_outcome:
  assumes "chat_execute_tool_calls env calls body ctx st = (r, ctx1, st1)"
    and "last_turn_of (ce_thread_id env) (cs_session st) ts t"
    and "2 \<le> length calls"
  shows "\<exists>t1. last_turn_of (ce_thread_id env) (cs_session st1) ts t1 \<and>
           butlast (turn_calls t1) =
             turn_calls t @ map (\<lambda>tc. new_call (tc_name tc) (tc_arguments tc))
                              (butlast (redacted_calls env (cs_world st) calls)) \<and>
           list_all (\<lambda>c. ttc_result c = None \<and> ttc_error c = None) (drop (length (turn_calls t)) (butlast (turn_calls t1)))"
proof -
  define rcs where "rcs = redacted_calls env (cs_world st) calls"
  define sess1 where "sess1 = on_last_turn (ce_thread_id env) (record_calls rcs) (cs_session st)"
  obtain pf ap w1 where pf: "preflight env sess1 0 calls (cs_world st) = (pf, ap, w1)"
    by (cases "preflight env sess1 0 calls (cs_world st)")
  obtain rs w2 where rs: "execute_runnable env pf w1 = (rs, w2)" by (cases "execute_runnable env pf w1")
  let ?st = "st\<lparr>cs_session := sess1, cs_world := w2\<rparr>"
  obtain ms d st2 where ms: "postflight env pf rs None ?st = (ms, d, st2)" by (cases "postflight env pf rs None ?st")
  have st2: "st1 = st2"
    using assms(1) by (auto simp: chat_execute_tool_calls_def rcs_def [symmetric] sess1_def [symmetric] pf rs ms Let_def
        split: option.splits)
  have "last_turn_of (ce_thread_id env) (cs_session ?st) ts (record_calls rcs t)"
    using on_last_turn_eff [OF assms(2)] by (simp add: sess1_def)
  with postflight_eff [OF ms] st2 obtain t1 where
    t1: "last_turn_of (ce_thread_id env) (cs_session st1) ts t1"
        "butlast (turn_calls t1) = butlast (turn_calls (record_calls rcs t))" by blast
  have "rcs \<noteq> []" using assms(3) by (auto simp: rcs_def redacted_calls_def)
  then have "butlast (turn_calls (record_calls rcs t)) =
      turn_calls t @ map (\<lambda>tc. new_call (tc_name tc) (tc_arguments tc)) (butlast rcs)"
    by (simp add: record_calls_eq butlast_append map_butlast)
  with t1 show ?thesis by (intro exI [of _ t1]) (auto simp: rcs_def new_call_def list_all_iff)
qed

subsection \<open>The tool ceiling\<close>

text \<open>
  The tools that were offered do not limit the tools that run: a round executes the calls of the
  model alike whatever the list of available tools is, so a tool that attenuation removed from the
  list is executed when the model names it.
\<close>

theorem ceiling_not_enforced:
  "chat_execute_tool_calls env calls body (ctx\<lparr>rc_available_tools := tools\<rparr>) st =
     (case chat_execute_tool_calls env calls body ctx st of
        (r, ctx1, st1) \<Rightarrow> (r, ctx1\<lparr>rc_available_tools := tools\<rparr>, st1))"
  by (simp add: chat_execute_tool_calls_def push_msgs_def Let_def split: prod.splits option.splits)

subsection \<open>An instance\<close>

text \<open>A chat with one registered tool that returns its parameters, no hooks and no patterns.\<close>

definition echo_tool :: "unit tool" where
  "echo_tool = \<lparr>t_name = ''echo'', t_description = ''Echo'', discovery_schema = JNull,
     requires_approval = (\<lambda>_. UnlessAutoApproved), execution_timeout = secs 60, sensitive_params = [],
     t_execute = (\<lambda>p w. (Some (Ok p), w))\<rparr>"

definition demo_exec :: "unit exec_env" where
  "demo_exec = \<lparr>ev_lookup = (\<lambda>_ n. if n = ''echo'' then Some echo_tool else None),
     ev_safety = safety_new (\<lambda>_. None) (\<lambda>_ _. []) \<lparr>sc_max_output_length = 100000, sc_injection_check_enabled = True\<rparr>,
     ev_regex = (\<lambda>_ _. []), ev_lower = ascii_lower, ev_decode = (\<lambda>_. None), ev_number = (\<lambda>_. None),
     ev_pretty = (\<lambda>_. Ok ''null''), ev_fmt = show_nat, ev_fmto = (\<lambda>_. [])\<rparr>"

definition demo_env :: "(unit, unit) chat_env" where
  "demo_env = \<lparr>ce_exec = demo_exec, ce_hooks = [], ce_encode = (\<lambda>_. []),
     ce_llm = \<lparr>llm_complete = \<lambda>_ w. (Err (AuthFailed []), w), llm_complete_with_tools = \<lambda>_ w. (Err (AuthFailed []), w)\<rparr>,
     ce_re = \<lparr>re_find = \<lambda>_ _. [], re_group1 = \<lambda>_ _. None\<rparr>, ce_prompt = (\<lambda>_. []), ce_tool_defs = (\<lambda>_. []),
     ce_check_cost = (\<lambda>w. (Ok (), w)), ce_record_cost = (\<lambda>_ w. w), ce_skills = [],
     ce_auto_approve_tools = False, ce_max_tool_iterations = 10, ce_channel = ''cli'', ce_user_id = ''u'',
     ce_metadata = JNull, ce_cached_prompt = [], ce_cached_prompt_no_tools = [], ce_user_tz = ''UTC'',
     ce_thread_id = 7, ce_now = (\<lambda>_. 0), ce_fresh = (\<lambda>_. 1), ce_interfere = (\<lambda>_ s. s),
     ce_schedule = (\<lambda>_ ts. rev ts)\<rparr>"

definition demo_calls :: "tool_call list" where
  "demo_calls = [\<lparr>tc_id = ''a'', tc_name = ''echo'', tc_arguments = JString ''x''\<rparr>,
                 \<lparr>tc_id = ''b'', tc_name = ''echo'', tc_arguments = JString ''y''\<rparr>]"

definition demo_session :: session where
  "demo_session = (auto_approve_tool ''echo'' (new_session 1 0 ''u''))
     \<lparr>threads := [(7, (with_id 0 7 1)\<lparr>turns := [new_turn 0 0 ''hi'']\<rparr>)]\<rparr>"

definition demo_state :: "unit chat_state" where
  "demo_state = \<lparr>cs_session = demo_session, cs_stash = [], cs_world = ()\<rparr>"

lemma demo_preflight:
  "preflight demo_env demo_session 0 demo_calls () = (map (\<lambda>tc. (tc, Runnable)) demo_calls, None, ())"
  by (simp add: demo_calls_def demo_env_def demo_exec_def hook_call_def run_hooks_def matching_hooks_def hook_ok_def
      approval_gate_def needs_approval_def echo_tool_def is_tool_auto_approved_def demo_session_def
      auto_approve_tool_def new_session_def)

theorem round_keeps_protocol_witness:
  "\<exists>k ms. k \<le> 2 \<and>
     rc_messages (fst (snd (chat_execute_tool_calls demo_env demo_calls None new_reasoning_context demo_state)))
       = assistant_with_tool_calls None demo_calls # ms \<and>
     map tool_call_id ms = map (\<lambda>tc. Some (tc_id tc)) (take k demo_calls)"
proof -
  let ?x = "chat_execute_tool_calls demo_env demo_calls None new_reasoning_context demo_state"
  have "?x = (fst ?x, fst (snd ?x), snd (snd ?x))" by simp
  from round_keeps_protocol [OF this] obtain k ms where
    "k \<le> length demo_calls"
    "rc_messages (fst (snd ?x)) = rc_messages new_reasoning_context @ assistant_with_tool_calls None demo_calls # ms"
    "map tool_call_id ms = map (\<lambda>tc. Some (tc_id tc)) (take k demo_calls)" by blast
  then show ?thesis
    by (intro exI [of _ k] exI [of _ ms]) (auto simp: new_reasoning_context_def, simp add: demo_calls_def)
qed

theorem no_unapproved_tool_runs_witness:
  "\<exists>k < length demo_calls. ''echo'' = tc_name (demo_calls ! k) \<and>
     (case ev_lookup (ce_exec demo_env) (world_before demo_env demo_session 0 demo_calls () k) ''echo'' of
        None \<Rightarrow> True
      | Some t \<Rightarrow> requires_approval t (JString ''y'') = Never \<or>
          (requires_approval t (JString ''y'') = UnlessAutoApproved \<and> ''echo'' \<in> set (auto_approved_tools demo_session)))"
proof -
  let ?pf = "map (\<lambda>tc. (tc, Runnable)) demo_calls"
  have run: "runnable_from 0 ?pf = [(0, demo_calls ! 0), (1, demo_calls ! 1)]" by (simp add: demo_calls_def)
  have a: "set (ce_schedule demo_env () (runnable_from 0 ?pf)) \<subseteq> set (runnable_from 0 ?pf)"
    by (simp add: demo_env_def)
  have b: "(1, demo_calls ! 1) \<in> set (task_order demo_env ?pf ())"
    unfolding task_order_def run by (simp add: demo_env_def)
  have c: "\<not> ce_auto_approve_tools demo_env" by (simp add: demo_env_def)
  have d: "tc_name (demo_calls ! 1) = ''echo''" "tc_arguments (demo_calls ! 1) = JString ''y''"
    by (simp_all add: demo_calls_def)
  show ?thesis by (rule no_unapproved_tool_runs [OF demo_preflight a b c, unfolded d])
qed

theorem round_records_only_last_outcome_witness:
  "\<exists>t1. last_turn_of 7 (cs_session (snd (snd (chat_execute_tool_calls demo_env demo_calls None new_reasoning_context demo_state)))) [] t1 \<and>
     list_all (\<lambda>c. ttc_result c = None \<and> ttc_error c = None) (butlast (turn_calls t1)) \<and> length (turn_calls t1) = 2"
proof -
  let ?x = "chat_execute_tool_calls demo_env demo_calls None new_reasoning_context demo_state"
  have x: "?x = (fst ?x, fst (snd ?x), snd (snd ?x))" by simp
  have id: "ce_thread_id demo_env = 7" by (simp add: demo_env_def)
  have t: "last_turn_of (ce_thread_id demo_env) (cs_session demo_state) [] (new_turn 0 0 ''hi'')"
    by (simp add: last_turn_of_def demo_state_def demo_session_def id)
  have calls: "turn_calls (new_turn 0 0 ''hi'') = []" by (simp add: new_turn_def)
  have len: "length (butlast (redacted_calls demo_env (cs_world demo_state) demo_calls)) = 1"
    by (simp add: redacted_calls_def demo_calls_def)
  from round_records_only_last_outcome [OF x t] obtain t1 where t1:
    "last_turn_of 7 (cs_session (snd (snd ?x))) [] t1"
    "butlast (turn_calls t1) = map (\<lambda>tc. new_call (tc_name tc) (tc_arguments tc))
        (butlast (redacted_calls demo_env (cs_world demo_state) demo_calls))"
    "list_all (\<lambda>c. ttc_result c = None \<and> ttc_error c = None) (butlast (turn_calls t1))"
    by (auto simp: calls id demo_calls_def)
  from t1(2) len have "length (butlast (turn_calls t1)) = 1" by simp
  then have "length (turn_calls t1) = 2" by simp
  with t1 show ?thesis by blast
qed

end
