(* ===== verification/Approval.thy ===== *)
theory Approval
  imports Chat_Delegate Thread_Commands
begin

text \<open>
  The continuation of a turn that waits for an approval (\<open>process_approval\<close>, \<open>handle_auth_intercept\<close>
  and \<open>process_auth_token\<close> of \<open>src/agent/thread_ops.rs\<close>): the user's answer is matched with the
  pending request, the tool runs with the stored parameters, the calls deferred behind it are checked
  and run, and the loop of the chat delegate goes on with the completed context.

  The state is that of the chat delegate together with the conversation rows written to the database;
  \<open>ap_writable\<close> says whether a write succeeds. The lemmas show that nothing runs without the matching
  approval, that every call of the assistant's message has its result before the model is asked again,
  and that deferred calls do not pass the hooks.
\<close>

subsection \<open>Error texts\<close>

fun show_llm_error :: "(duration option \<Rightarrow> string) \<Rightarrow> LlmError \<Rightarrow> string" where
  "show_llm_error fmto (RequestFailed p r) = ''Provider '' @ p @ '' request failed: '' @ r"
| "show_llm_error fmto (RateLimited p d) = ''Provider '' @ p @ '' rate limited, retry after '' @ fmto d"
| "show_llm_error fmto (InvalidResponse p r) = ''Invalid response from '' @ p @ '': '' @ r"
| "show_llm_error fmto (ContextLengthExceeded used limit) =
     ''Context length exceeded: '' @ show_nat used @ '' tokens used, '' @ show_nat limit @ '' allowed''"
| "show_llm_error fmto (ModelNotAvailable p m) = ''Model '' @ m @ '' not available on provider '' @ p"
| "show_llm_error fmto (AuthFailed p) = ''Authentication failed for provider '' @ p"
| "show_llm_error fmto (SessionExpired p) = ''Session expired for provider '' @ p"
| "show_llm_error fmto (SessionRenewalFailed p r) = ''Session renewal failed for provider '' @ p @ '': '' @ r"
| "show_llm_error fmto (Http s) = ''HTTP error: '' @ s"
| "show_llm_error fmto (Json s) = ''JSON error: '' @ s"
| "show_llm_error fmto (LlmIo s) = ''IO error: '' @ s"

fun show_job_error :: "(uuid \<Rightarrow> string) \<Rightarrow> (duration \<Rightarrow> string) \<Rightarrow> JobError \<Rightarrow> string" where
  "show_job_error render fmt (JobError.NotFound i) = ''Job '' @ render i @ '' not found''"
| "show_job_error render fmt (InvalidTransition i s t) =
     ''Job '' @ render i @ '' already in state '' @ s @ '', cannot transition to '' @ t"
| "show_job_error render fmt (JobFailed i r) = ''Job '' @ render i @ '' failed: '' @ r"
| "show_job_error render fmt (JobStuck i d) = ''Job '' @ render i @ '' stuck for '' @ fmt d"
| "show_job_error render fmt (MaxJobsExceeded n) = ''Maximum parallel jobs ('' @ show_nat n @ '') exceeded''"
| "show_job_error render fmt (ContextError i r) = ''Job '' @ render i @ '' context error: '' @ r"

subsection \<open>Environment\<close>

record ('w, 're) approval_env =
  ap_chat :: "('w, 're) chat_env"
  ap_lower :: "string \<Rightarrow> string"
  ap_captures :: "string \<Rightarrow> (span \<times> span) list"
  ap_parse_list :: "string \<Rightarrow> string list option"
  ap_render :: "uuid \<Rightarrow> string"
  ap_json :: "json \<Rightarrow> string"
  ap_rows :: "json list \<Rightarrow> string option"
  ap_writable :: "'w \<Rightarrow> bool"

fun show_error :: "('w, 're) approval_env \<Rightarrow> Error \<Rightarrow> string" where
  "show_error ae (LlmErr e) = ''LLM error: '' @ show_llm_error (ev_fmto (ce_exec (ap_chat ae))) e"
| "show_error ae (ToolErr e) =
     ''Tool error: '' @ show_tool_error (ev_fmt (ce_exec (ap_chat ae))) (ev_fmto (ce_exec (ap_chat ae))) e"
| "show_error ae (JobErr e) = ''Job error: '' @ show_job_error (ap_render ae) (ev_fmt (ce_exec (ap_chat ae))) e"

text \<open>The thread of the message, and the clock.\<close>

abbreviation ap_thread_id :: "('w, 're) approval_env \<Rightarrow> uuid" where
  "ap_thread_id ae \<equiv> ce_thread_id (ap_chat ae)"

abbreviation ap_now :: "('w, 're) approval_env \<Rightarrow> 'w chat_state \<Rightarrow> datetime" where
  "ap_now ae st \<equiv> ce_now (ap_chat ae) (cs_world st)"

type_synonym db_rows = "conversation_message list"

definition on_thread :: "uuid \<Rightarrow> (thread \<Rightarrow> thread) \<Rightarrow> session \<Rightarrow> session" where
  "on_thread tid f sess =
     (case map_of (threads sess) tid of
        None \<Rightarrow> sess
      | Some th \<Rightarrow> sess\<lparr>threads := AList.update tid (f th) (threads sess)\<rparr>)"

abbreviation upd_thread :: "('w, 're) approval_env \<Rightarrow> (thread \<Rightarrow> thread) \<Rightarrow> 'w chat_state \<Rightarrow> 'w chat_state" where
  "upd_thread ae f st \<equiv> st\<lparr>cs_session := on_thread (ap_thread_id ae) f (cs_session st)\<rparr>"

subsection \<open>Authentication requests\<close>

definition handle_auth_intercept ::
  "('w, 're) approval_env \<Rightarrow> string \<Rightarrow> string \<Rightarrow> 'w chat_state \<Rightarrow> db_rows \<Rightarrow> 'w chat_state \<times> db_rows" where
  "handle_auth_intercept ae ext instructions st rows =
     (case map_of (threads (cs_session st)) (ap_thread_id ae) of
        None \<Rightarrow> (st, rows)
      | Some _ \<Rightarrow>
          (upd_thread ae (complete_turn (ap_now ae st) (ap_now ae st) instructions \<circ>
                          enter_auth_mode (ap_now ae st) (ap_now ae st) ext) st,
           persist_assistant_response (ap_writable ae (cs_world st)) instructions rows))"

text \<open>What configuring a token returns: an activation flag and a message, or an error.\<close>

datatype token_outcome = Configured bool string | ValidationFailed string | ConfigureFailed string

definition process_auth_token ::
  "('w, 're) approval_env \<Rightarrow> (string \<Rightarrow> string \<Rightarrow> 'w \<Rightarrow> token_outcome \<times> 'w) option \<Rightarrow> pending_auth \<Rightarrow> string
     \<Rightarrow> 'w chat_state \<Rightarrow> string \<times> 'w chat_state" where
  "process_auth_token ae configure p token st =
     (let st1 = upd_thread ae (\<lambda>th. th\<lparr>pending_auth := None\<rparr>) st in
      case configure of
        None \<Rightarrow> (''Extension manager not available.'', st1)
      | Some conf \<Rightarrow>
          (case conf (pa_extension_name p) (trim_str token) (cs_world st1) of
             (res, w1) \<Rightarrow>
               let st2 = st1\<lparr>cs_world := w1\<rparr>;
                   again = upd_thread ae (enter_auth_mode (ap_now ae st2) (ap_now ae st2) (pa_extension_name p)) st2 in
               (case res of
                  Configured activated msg \<Rightarrow> (msg, if activated then st2 else again)
                | ValidationFailed msg \<Rightarrow> (msg, again)
                | ConfigureFailed msg \<Rightarrow> (msg, st2))))"

subsection \<open>The deferred calls\<close>

fun deferred_preflight ::
  "('w, 're) chat_env \<Rightarrow> session \<Rightarrow> nat \<Rightarrow> tool_call list \<Rightarrow> 'w \<Rightarrow> tool_call list \<times> 'w approval_needed option" where
  "deferred_preflight env sess idx [] w = ([], None)"
| "deferred_preflight env sess idx (tc # tcs) w =
     (case approval_gate env sess (ev_lookup (ce_exec env) w (tc_name tc)) tc of
        Some t \<Rightarrow>
          ([], Some \<lparr>an_index = idx, an_call = tc, an_tool = t,
                    an_allow_always = (requires_approval t (tc_arguments tc) \<noteq> Always)\<rparr>)
      | None \<Rightarrow>
          (case deferred_preflight env sess (Suc idx) tcs w of (run, ap) \<Rightarrow> (tc # run, ap)))"

definition task_failed :: "string \<Rightarrow> tool_outcome" where
  "task_failed name = Err (ExecutionFailed name ''Task failed during execution'')"

definition deferred_execute ::
  "('w, 're) chat_env \<Rightarrow> tool_call list \<Rightarrow> 'w \<Rightarrow> (tool_call \<times> tool_outcome) list \<times> 'w" where
  "deferred_execute env run w =
     (let tasks = List.enumerate 0 run;
          order = (if length run \<le> 1 then tasks else ce_schedule env w tasks) in
      case run_tasks env order (replicate (length run) None) w of
        (rs, w1) \<Rightarrow> (map (\<lambda>(tc, slot). (tc, unwrap_or slot (task_failed (tc_name tc)))) (zip run rs), w1))"

definition outcome_text :: "('w, 're) approval_env \<Rightarrow> string \<Rightarrow> string \<Rightarrow> tool_outcome \<Rightarrow> string" where
  "outcome_text ae name cid r =
     fst (process_tool_result (ce_exec (ap_chat ae)) (\<lambda>e. show_error ae (ToolErr e)) name cid r)"

definition record_outcome :: "('w, 're) approval_env \<Rightarrow> tool_outcome \<Rightarrow> string \<Rightarrow> 'w chat_state \<Rightarrow> 'w chat_state" where
  "record_outcome ae r body st =
     st\<lparr>cs_session := on_last_turn (ap_thread_id ae) (record_result r body) (cs_session st)\<rparr>"

text \<open>The first result that asks for a token puts the thread into authentication mode.\<close>

definition deferred_auth ::
  "('w, 're) approval_env \<Rightarrow> string \<Rightarrow> tool_outcome \<Rightarrow> string option \<Rightarrow> 'w chat_state \<Rightarrow> db_rows
     \<Rightarrow> string option \<times> 'w chat_state \<times> db_rows" where
  "deferred_auth ae name r auth st rows =
     (if auth \<noteq> None then (auth, st, rows)
      else case check_auth_required (ev_decode (ce_exec (ap_chat ae))) name r of
        None \<Rightarrow> (None, st, rows)
      | Some (ext, instructions) \<Rightarrow> (Some instructions, handle_auth_intercept ae ext instructions st rows))"

fun deferred_postflight ::
  "('w, 're) approval_env \<Rightarrow> (tool_call \<times> tool_outcome) list \<Rightarrow> string option \<Rightarrow> 'w chat_state \<Rightarrow> db_rows
     \<Rightarrow> chat_message list \<times> string option \<times> 'w chat_state \<times> db_rows" where
  "deferred_postflight ae [] auth st rows = ([], auth, st, rows)"
| "deferred_postflight ae ((tc, r) # rest) auth st rows =
     (let body = outcome_text ae (tc_name tc) (tc_id tc) r in
      case deferred_auth ae (tc_name tc) r auth (record_outcome ae r body st) rows of
        (auth1, st1, rows1) \<Rightarrow>
          (case deferred_postflight ae rest auth1 st1 rows1 of
             (ms, auth2, st2, rows2) \<Rightarrow> (tool_result (tc_id tc) (tc_name tc) body # ms, auth2, st2, rows2)))"

subsection \<open>The answer to a request\<close>

definition next_approval ::
  "('w, 're) approval_env \<Rightarrow> pending_approval \<Rightarrow> tool_call list \<Rightarrow> chat_message list \<Rightarrow> 'w approval_needed \<Rightarrow> 'w \<Rightarrow> pending_approval" where
  "next_approval ae p deferred ms ap w =
     (let tc = an_call ap in
      \<lparr>request_id = ce_fresh (ap_chat ae) w, pap_tool_name = tc_name tc, parameters = tc_arguments tc,
       display_parameters = redact_params (tc_arguments tc) (sensitive_params (an_tool ap)),
       pap_description = t_description (an_tool ap), pap_tool_call_id = tc_id tc, context_messages = ms,
       deferred_tool_calls = drop (an_index ap + 1) deferred, pap_user_timezone = pap_user_timezone p,
       allow_always = an_allow_always ap\<rparr>)"

abbreviation need_approval :: "pending_approval \<Rightarrow> SubmissionResult" where
  "need_approval p \<equiv>
     NeedApproval (request_id p) (pap_tool_name p) (pap_description p) (display_parameters p) (allow_always p)"

text \<open>
  An approved request up to the point where the loop goes on: either the answer to the user, or the
  context for the model.
\<close>

definition approved_round ::
  "('w, 're) approval_env \<Rightarrow> bool \<Rightarrow> pending_approval \<Rightarrow> 'w chat_state \<Rightarrow> db_rows
     \<Rightarrow> (SubmissionResult + chat_message list) \<times> 'w chat_state \<times> db_rows" where
  "approved_round ae always p st rows =
     (let env = ap_chat ae;
          st1 = (if always then st\<lparr>cs_session := auto_approve_tool (pap_tool_name p) (cs_session st)\<rparr> else st);
          st2 = upd_thread ae (\<lambda>th. th\<lparr>thread_state := Processing\<rparr>) st1 in
      case execute_tool_with_safety (ce_exec env) (pap_tool_name p) (parameters p) (cs_world st2) of
        (r, w1) \<Rightarrow>
      let body = outcome_text ae (pap_tool_name p) (pap_tool_call_id p) r;
          st3 = record_outcome ae r body (st2\<lparr>cs_world := w1\<rparr>) in
      case check_auth_required (ev_decode (ce_exec env)) (pap_tool_name p) r of
        Some (ext, instructions) \<Rightarrow>
          (Inl (Response instructions), handle_auth_intercept ae ext instructions st3 rows)
      | None \<Rightarrow>
      let ms = context_messages p @ [tool_result (pap_tool_call_id p) (pap_tool_name p) body] in
      case deferred_preflight env (cs_session st3) 0 (deferred_tool_calls p) (cs_world st3) of (run, ap) \<Rightarrow>
      case deferred_execute env run (cs_world st3) of (results, w2) \<Rightarrow>
      case deferred_postflight ae results None (st3\<lparr>cs_world := w2\<rparr>) rows of (ms2, auth, st4, rows4) \<Rightarrow>
      case auth of
        Some instructions \<Rightarrow> (Inl (Response instructions), st4, rows4)
      | None \<Rightarrow>
          (case ap of
             Some a \<Rightarrow>
               let p1 = next_approval ae p (deferred_tool_calls p) (ms @ ms2) a (cs_world st4) in
               (Inl (need_approval p1), upd_thread ae (await_approval (ap_now ae st4) p1) st4, rows4)
           | None \<Rightarrow> (Inr (ms @ ms2), st4, rows4)))"

definition finish_approved ::
  "('w, 're) approval_env \<Rightarrow> (Error, AgenticLoopResult) result \<Rightarrow> 'w chat_state \<Rightarrow> db_rows
     \<Rightarrow> (Error, SubmissionResult) result \<times> 'w chat_state \<times> db_rows" where
  "finish_approved ae outcome st rows =
     (case map_of (threads (cs_session st)) (ap_thread_id ae) of
        None \<Rightarrow> (Err (JobErr (JobError.NotFound (ap_thread_id ae))), st, rows)
      | Some th \<Rightarrow>
          (case outcome of
             Inr (AgentResponse s) \<Rightarrow>
               let resp = fst (extract_suggestions (ap_captures ae) (ap_parse_list ae) s);
                   th1 = complete_turn (ap_now ae st) (ap_now ae st) resp th;
                   (n, calls) = (if turns th1 = [] then (0, [])
                                 else (turn_number (last (turns th1)), turn_calls (last (turns th1))));
                   rows1 = persist_tool_calls (ap_json ae) (ap_rows ae) (ap_writable ae (cs_world st)) n calls rows in
               (Ok (Response resp), upd_thread ae (\<lambda>_. th1) st,
                persist_assistant_response (ap_writable ae (cs_world st)) resp rows1)
           | Inr (AgentNeedApproval p) \<Rightarrow>
               (Ok (need_approval p), upd_thread ae (await_approval (ap_now ae st) p) st, rows)
           | Inl e \<Rightarrow>
               (Ok (SrError (show_error ae e)),
                upd_thread ae (fail_turn (ap_now ae st) (ap_now ae st) (show_error ae e)) st, rows)))"

definition rejection_text :: "string \<Rightarrow> string" where
  "rejection_text name =
     ''Tool '' @ [CHR 0x27] @ name @ [CHR 0x27] @ '' was rejected. The agent will not execute this tool.'' @
     [CHR 0x0A, CHR 0x0A] @ ''You can continue the conversation or try a different approach.''"

definition reject_pending ::
  "('w, 're) approval_env \<Rightarrow> pending_approval \<Rightarrow> 'w chat_state \<Rightarrow> db_rows
     \<Rightarrow> (Error, SubmissionResult) result \<times> 'w chat_state \<times> db_rows" where
  "reject_pending ae p st rows =
     (let rejection = rejection_text (pap_tool_name p) in
      case map_of (threads (cs_session st)) (ap_thread_id ae) of
        None \<Rightarrow> (Ok (Response rejection), st, rows)
      | Some _ \<Rightarrow>
          (Ok (Response rejection),
           upd_thread ae (complete_turn (ap_now ae st) (ap_now ae st) rejection \<circ> clear_pending_approval (ap_now ae st)) st,
           persist_assistant_response (ap_writable ae (cs_world st)) rejection rows))"

definition process_approval ::
  "('w, 're) approval_env \<Rightarrow> uuid option \<Rightarrow> bool \<Rightarrow> bool \<Rightarrow> 'w chat_state \<Rightarrow> db_rows
     \<Rightarrow> (Error, SubmissionResult) result \<times> 'w chat_state \<times> db_rows" where
  "process_approval ae req approved always st rows =
     (case map_of (threads (cs_session st)) (ap_thread_id ae) of
        None \<Rightarrow> (Err (JobErr (JobError.NotFound (ap_thread_id ae))), st, rows)
      | Some th \<Rightarrow>
          if thread_state th \<noteq> AwaitingApproval then (Ok (ok_with_message []), st, rows)
          else
            let st1 = upd_thread ae (\<lambda>th. snd (take_pending_approval th)) st in
            case fst (take_pending_approval th) of
              None \<Rightarrow> (Ok (ok_with_message []), st1, rows)
            | Some p \<Rightarrow>
                if req \<noteq> None \<and> req \<noteq> Some (request_id p)
                then (Ok (SrError ''Request ID mismatch. Use the correct request ID.''),
                      upd_thread ae (await_approval (ap_now ae st1) p) st1, rows)
                else if approved
                then (case approved_round ae always p st1 rows of
                        (Inl res, st2, rows2) \<Rightarrow> (Ok res, st2, rows2)
                      | (Inr ms, st2, rows2) \<Rightarrow>
                          (case chat_run (ap_lower ae) (ap_chat ae) ms (ap_render ae (ap_thread_id ae)) st2 of
                             (outcome, st3) \<Rightarrow> finish_approved ae outcome st3 rows2))
                else reject_pending ae p st1 rows)"

subsection \<open>Nothing runs without the matching approval\<close>

text \<open>The request a thread waits for.\<close>

definition waiting :: "('w, 're) approval_env \<Rightarrow> 'w chat_state \<Rightarrow> pending_approval option" where
  "waiting ae st =
     (case map_of (threads (cs_session st)) (ap_thread_id ae) of
        None \<Rightarrow> None
      | Some th \<Rightarrow> if thread_state th = AwaitingApproval then pending_approval th else None)"

definition granted :: "('w, 're) approval_env \<Rightarrow> uuid option \<Rightarrow> bool \<Rightarrow> 'w chat_state \<Rightarrow> bool" where
  "granted ae req approved st \<longleftrightarrow>
     approved \<and> (case waiting ae st of None \<Rightarrow> False | Some p \<Rightarrow> req = None \<or> req = Some (request_id p))"

lemma map_of_on_thread:
  "map_of (threads (on_thread tid f sess)) tid = map_option f (map_of (threads sess) tid)"
  by (simp add: on_thread_def update_conv split: option.splits)

lemma on_thread_frame:
  "auto_approved_tools (on_thread tid f sess) = auto_approved_tools sess"
  "t \<noteq> tid \<Longrightarrow> map_of (threads (on_thread tid f sess)) t = map_of (threads sess) t"
  by (auto simp: on_thread_def update_conv split: option.splits)

lemmas approval_defs =
  process_approval_def reject_pending_def take_pending_approval_def await_approval_def clear_pending_approval_def
  complete_turn_def waiting_def granted_def map_of_on_thread on_thread_frame

text \<open>
  C8: Without the matching approval nothing runs: unless the user approves and the thread waits for the
  request (the one named, if the answer names one), the world is unchanged and so is what the session
  has approved for good. An answer that names another request leaves the request waiting; a rejection
  ends the wait.
\<close>

theorem unapproved_runs_nothing:
  assumes "process_approval ae req approved always st rows = (res, st1, rows1)"
    and "\<not> granted ae req approved st"
  shows "cs_world st1 = cs_world st \<and>
         auto_approved_tools (cs_session st1) = auto_approved_tools (cs_session st) \<and>
         waiting ae st1 =
           (case waiting ae st of
              None \<Rightarrow> None
            | Some p \<Rightarrow> if req \<noteq> None \<and> req \<noteq> Some (request_id p) then Some p else None)"
proof (cases "waiting ae st")
  case None
  with assms(1) show ?thesis
    by (cases "map_of (threads (cs_session st)) (ap_thread_id ae)") (auto simp: approval_defs Let_def split: if_splits)
next
  case (Some p)
  then obtain th where th: "map_of (threads (cs_session st)) (ap_thread_id ae) = Some th"
    "thread_state th = AwaitingApproval" "pending_approval th = Some p"
    by (auto simp: waiting_def split: option.splits if_splits)
  show ?thesis
  proof (cases "req \<noteq> None \<and> req \<noteq> Some (request_id p)")
    case True
    with assms(1) th Some show ?thesis by (auto simp: approval_defs Let_def)
  next
    case False
    with assms(2) Some have "\<not> approved" by (auto simp: granted_def)
    with False assms(1) th Some show ?thesis by (auto simp: approval_defs Let_def)
  qed
qed

subsection \<open>Every call gets its result\<close>

text \<open>
  A request that waits at the \<open>k\<close>-th call of an assistant message: the context ends with that message
  and the results of the calls before it, and the calls behind it are deferred.
\<close>

definition pending_ok ::
  "chat_message list \<Rightarrow> string option \<Rightarrow> tool_call list \<Rightarrow> nat \<Rightarrow> pending_approval \<Rightarrow> bool" where
  "pending_ok pre body calls k p \<longleftrightarrow>
     k < length calls \<and> pap_tool_call_id p = tc_id (calls ! k) \<and> pap_tool_name p = tc_name (calls ! k) \<and>
     deferred_tool_calls p = drop (k + 1) calls \<and>
     (let ms = drop (length pre + 1) (context_messages p) in
      context_messages p = pre @ assistant_with_tool_calls body calls # ms \<and>
      map role ms = replicate k Tool \<and> map tool_call_id ms = map (\<lambda>tc. Some (tc_id tc)) (take k calls))"

lemma deferred_preflight_prefix:
  "deferred_preflight env sess idx tcs w = (run, ap) \<Longrightarrow>
     (case ap of
        None \<Rightarrow> run = tcs
      | Some a \<Rightarrow> length run < length tcs \<and> run = take (length run) tcs \<and>
                  an_index a = idx + length run \<and> an_call a = tcs ! length run)"
  by (induction env sess idx tcs w arbitrary: run ap rule: deferred_preflight.induct)
     (fastforce split: option.splits prod.splits)+

lemma deferred_execute_calls:
  "deferred_execute env run w = (results, w1) \<Longrightarrow> map fst results = run"
  by (auto simp: deferred_execute_def Let_def comp_def case_prod_beta run_tasks_length split: if_splits)

lemma deferred_postflight_messages:
  "deferred_postflight ae results auth st rows = (ms, auth1, st1, rows1) \<Longrightarrow>
     map role ms = replicate (length results) Tool \<and>
     map tool_call_id ms = map (\<lambda>tc. Some (tc_id tc)) (map fst results)"
  by (induction ae results auth st rows arbitrary: ms auth1 st1 rows1 rule: deferred_postflight.induct)
     (fastforce simp: tool_result_def Let_def split: prod.splits)+

lemma take_past_nth:
  "k < length xs \<Longrightarrow> map f (take k xs) @ f (xs ! k) # map f (take n (drop (k + 1) xs)) = map f (take (k + 1 + n) xs)"
proof -
  assume "k < length xs"
  then have "take (k + 1) xs = take k xs @ [xs ! k]" by (simp add: take_Suc_conv_app_nth)
  then show ?thesis unfolding take_add [of "k + 1" n xs] by (simp only: map_append append_assoc list.map append_Cons append_Nil)
qed

definition has_thread :: "('w, 're) approval_env \<Rightarrow> 'w chat_state \<Rightarrow> bool" where
  "has_thread ae st \<longleftrightarrow> map_of (threads (cs_session st)) (ap_thread_id ae) \<noteq> None"

lemma has_thread_ops:
  "has_thread ae (record_outcome ae r b st) = has_thread ae st"
  "has_thread ae (upd_thread ae f st) = has_thread ae st"
  "has_thread ae (st\<lparr>cs_world := w\<rparr>) = has_thread ae st"
  "has_thread ae (st\<lparr>cs_session := auto_approve_tool nm (cs_session st)\<rparr>) = has_thread ae st"
  "has_thread ae (fst (handle_auth_intercept ae e i st rows)) = has_thread ae st"
  by (simp_all add: has_thread_def record_outcome_def on_last_turn_def update_conv' auto_approve_tool_def
      handle_auth_intercept_def map_of_on_thread split: option.splits)

lemma deferred_auth_thread:
  "has_thread ae (fst (snd (deferred_auth ae name r auth st rows))) = has_thread ae st"
  by (simp add: deferred_auth_def has_thread_ops split: option.splits prod.splits)

lemma deferred_postflight_thread:
  "deferred_postflight ae results auth st rows = (ms, auth1, st1, rows1) \<Longrightarrow> has_thread ae st1 = has_thread ae st"
proof (induction ae results auth st rows arbitrary: ms auth1 st1 rows1 rule: deferred_postflight.induct)
  case (2 ae tc r rest auth st rows)
  let ?b = "outcome_text ae (tc_name tc) (tc_id tc) r"
  obtain auth2 st2 rows2 where
    d: "deferred_auth ae (tc_name tc) r auth (record_outcome ae r ?b st) rows = (auth2, st2, rows2)"
    by (cases "deferred_auth ae (tc_name tc) r auth (record_outcome ae r ?b st) rows") auto
  then have "has_thread ae st2 = has_thread ae st"
    using deferred_auth_thread [of ae "tc_name tc" r auth "record_outcome ae r ?b st" rows] by (simp add: has_thread_ops)
  with 2 d show ?case by (auto simp: Let_def split: prod.splits)
qed simp

lemma waiting_await:
  "has_thread ae st \<Longrightarrow> waiting ae (upd_thread ae (await_approval now p) st) = Some p"
  by (auto simp: has_thread_def waiting_def map_of_on_thread await_approval_def)

text \<open>The messages after one more result and those of a run of deferred calls.\<close>

lemma answered_prefix:
  fixes calls :: "tool_call list"
  assumes "k < length calls" "cid = tc_id (calls ! k)"
    and "map role ms0 = replicate k Tool" "map tool_call_id ms0 = map (\<lambda>tc. Some (tc_id tc)) (take k calls)"
    and "map role ms2 = replicate (length run) Tool" "map tool_call_id ms2 = map (\<lambda>tc. Some (tc_id tc)) run"
    and "run = take n (drop (k + 1) calls)"
  shows "map role (ms0 @ tool_result cid nm shown # ms2) = replicate (k + 1 + length run) Tool"
    "map tool_call_id (ms0 @ tool_result cid nm shown # ms2) = map (\<lambda>tc. Some (tc_id tc)) (take (k + 1 + n) calls)"
  using assms take_past_nth [of k calls "\<lambda>tc :: tool_call. Some (tc_id tc)" n]
  by (simp_all add: tool_result_def replicate_add replicate_app_Cons_same)

text \<open>A request for a deferred call that has to wait is again one of the same message, at a later position.\<close>

lemma next_approval_ok:
  fixes calls :: "tool_call list"
  assumes "deferred_tool_calls p = drop (k + 1) calls" and "k + 1 + n < length calls"
    and "an_index a = n" "an_call a = drop (k + 1) calls ! n"
    and "ms = pre @ assistant_with_tool_calls body calls # rs"
    and "map role rs = replicate (k + 1 + n) Tool"
    and "map tool_call_id rs = map (\<lambda>tc. Some (tc_id tc)) (take (k + 1 + n) calls)"
  shows "pending_ok pre body calls (k + 1 + n) (next_approval ae p (deferred_tool_calls p) ms a w)"
  using assms by (simp add: pending_ok_def next_approval_def Let_def add.commute add.left_commute)

text \<open>
  C14: An approved request keeps the protocol of calls and results across the interruption: before the
  model is asked again every call of the assistant's message has its result, in order and after the
  context that the request was stored with; and if another call has to wait, the thread waits for it
  at a later position of the same message, with the results so far.
\<close>

theorem approval_completes_calls:
  assumes ok: "pending_ok pre body calls k p"
    and round: "approved_round ae always p st rows = (out, st1, rows1)"
    and thread: "map_of (threads (cs_session st)) (ap_thread_id ae) = Some th"
  shows "case out of
           Inr ms \<Rightarrow> \<exists>rs. ms = pre @ assistant_with_tool_calls body calls # rs \<and>
                       map role rs = replicate (length calls) Tool \<and>
                       map tool_call_id rs = map (\<lambda>tc. Some (tc_id tc)) calls
         | Inl (NeedApproval rid nm d dp aa) \<Rightarrow>
             \<exists>k1 p1. k < k1 \<and> pending_ok pre body calls k1 p1 \<and> waiting ae st1 = Some p1 \<and> request_id p1 = rid
         | Inl (Response _) \<Rightarrow> True
         | Inl _ \<Rightarrow> False"
proof -
  let ?env = "ap_chat ae"
  let ?id = "\<lambda>tc :: tool_call. Some (tc_id tc)"
  from ok obtain ms0 where k: "k < length calls"
    and p: "pap_tool_call_id p = tc_id (calls ! k)" "pap_tool_name p = tc_name (calls ! k)"
      "deferred_tool_calls p = drop (k + 1) calls"
    and ctx: "context_messages p = pre @ assistant_with_tool_calls body calls # ms0"
    and ms0: "map role ms0 = replicate k Tool" "map tool_call_id ms0 = map ?id (take k calls)"
    by (auto simp: pending_ok_def Let_def)
  define st2 where "st2 = upd_thread ae (\<lambda>th. th\<lparr>thread_state := Processing\<rparr>)
    (if always then st\<lparr>cs_session := auto_approve_tool (pap_tool_name p) (cs_session st)\<rparr> else st)"
  obtain r w1 where ex: "execute_tool_with_safety (ce_exec ?env) (pap_tool_name p) (parameters p) (cs_world st2) = (r, w1)"
    by (cases "execute_tool_with_safety (ce_exec ?env) (pap_tool_name p) (parameters p) (cs_world st2)")
  define shown where "shown = outcome_text ae (pap_tool_name p) (pap_tool_call_id p) r"
  define st3 where "st3 = record_outcome ae r shown (st2\<lparr>cs_world := w1\<rparr>)"
  have th3: "has_thread ae st3" using thread by (simp add: st3_def st2_def has_thread_ops) (simp add: has_thread_def)
  note step = round [unfolded approved_round_def Let_def, folded st2_def, unfolded ex prod.case, folded shown_def, folded st3_def]
  show ?thesis
  proof (cases "check_auth_required (ev_decode (ce_exec ?env)) (pap_tool_name p) r")
    case (Some ei)
    with step show ?thesis by (cases ei) auto
  next
    case None
    obtain run ap where pf: "deferred_preflight ?env (cs_session st3) 0 (deferred_tool_calls p) (cs_world st3) = (run, ap)"
      by (cases "deferred_preflight ?env (cs_session st3) 0 (deferred_tool_calls p) (cs_world st3)")
    obtain results w2 where dx: "deferred_execute ?env run (cs_world st3) = (results, w2)"
      by (cases "deferred_execute ?env run (cs_world st3)")
    obtain ms2 auth st4 rows4 where post:
      "deferred_postflight ae results None (st3\<lparr>cs_world := w2\<rparr>) rows = (ms2, auth, st4, rows4)"
      by (cases "deferred_postflight ae results None (st3\<lparr>cs_world := w2\<rparr>) rows") auto
    let ?tr = "tool_result (pap_tool_call_id p) (pap_tool_name p) shown"
    let ?ms = "context_messages p @ ?tr # ms2"
    have run: "map fst results = run" using deferred_execute_calls [OF dx] .
    have ms2: "map role ms2 = replicate (length run) Tool" "map tool_call_id ms2 = map ?id run"
      using deferred_postflight_messages [OF post] run by (auto dest: arg_cong [where f = length])
    have th4: "has_thread ae st4" using deferred_postflight_thread [OF post] th3 by (simp add: has_thread_ops)
    note all = answered_prefix [OF k p(1) ms0 ms2]
    have dp: "case ap of None \<Rightarrow> run = drop (k + 1) calls
        | Some a \<Rightarrow> length run < length (drop (k + 1) calls) \<and> run = take (length run) (drop (k + 1) calls) \<and>
            an_index a = length run \<and> an_call a = drop (k + 1) calls ! length run"
      using deferred_preflight_prefix [OF pf] p by (simp split: option.splits)
    note go = step [unfolded None option.case pf dx post prod.case]
    show ?thesis
    proof (cases auth)
      case (Some i)
      with go show ?thesis by auto
    next
      case no_auth: None
      show ?thesis
      proof (cases ap)
        case None
        with dp have run_all: "run = take (length calls) (drop (k + 1) calls)" by simp
        with k have "k + 1 + length run = length calls" by simp
        then show ?thesis using go no_auth None ctx all(1) [OF run_all] all(2) [OF run_all] k by auto
      next
        case (Some a)
        let ?n = "length run"
        let ?p1 = "next_approval ae p (deferred_tool_calls p) ?ms a (cs_world st4)"
        have some: "k + 1 + ?n < length calls" "an_index a = ?n" "an_call a = drop (k + 1) calls ! ?n"
          and run_n: "run = take ?n (drop (k + 1) calls)" using dp Some by auto
        have "pending_ok pre body calls (k + 1 + ?n) ?p1"
          by (rule next_approval_ok [OF p(3) some _ all(1) [OF run_n] all(2) [OF run_n]]) (simp add: ctx)
        moreover have "waiting ae (upd_thread ae (await_approval (ap_now ae st4) ?p1) st4) = Some ?p1"
          by (rule waiting_await [OF th4])
        ultimately show ?thesis
          using go no_auth Some by (auto intro!: exI [of _ "k + 1 + ?n"])
      qed
    qed
  qed
qed

subsection \<open>Deferred calls and hooks\<close>

abbreviation with_hooks :: "'w hook_registry \<Rightarrow> ('w, 're) chat_env \<Rightarrow> ('w, 're) chat_env" where
  "with_hooks h env \<equiv> env\<lparr>ce_hooks := h\<rparr>"

lemma deferred_preflight_hooks:
  "deferred_preflight (with_hooks h env) sess idx tcs w = deferred_preflight env sess idx tcs w"
  by (induction tcs arbitrary: idx) (simp_all add: approval_gate_def cong: option.case_cong if_cong)

lemma run_tasks_hooks: "run_tasks (with_hooks h env) ts rs w = run_tasks env ts rs w"
  by (induction env ts rs w rule: run_tasks.induct) (simp_all split: prod.splits)

lemma deferred_execute_hooks: "deferred_execute (with_hooks h env) run w = deferred_execute env run w"
  by (simp add: deferred_execute_def run_tasks_hooks Let_def cong: if_cong)

lemma approval_texts_hooks:
  "outcome_text (ae\<lparr>ap_chat := with_hooks h (ap_chat ae)\<rparr>) name cid r = outcome_text ae name cid r"
  "record_outcome (ae\<lparr>ap_chat := with_hooks h (ap_chat ae)\<rparr>) r body st = record_outcome ae r body st"
  "handle_auth_intercept (ae\<lparr>ap_chat := with_hooks h (ap_chat ae)\<rparr>) e i st rows = handle_auth_intercept ae e i st rows"
  "next_approval (ae\<lparr>ap_chat := with_hooks h (ap_chat ae)\<rparr>) p d ms a w = next_approval ae p d ms a w"
  by (simp_all add: outcome_text_def process_tool_result_def record_outcome_def handle_auth_intercept_def
      next_approval_def Let_def split: option.splits sum.splits)

lemma deferred_auth_hooks:
  "deferred_auth (ae\<lparr>ap_chat := with_hooks h (ap_chat ae)\<rparr>) name r auth st rows = deferred_auth ae name r auth st rows"
  by (simp add: deferred_auth_def approval_texts_hooks cong: option.case_cong)

lemma deferred_postflight_hooks:
  "deferred_postflight (ae\<lparr>ap_chat := with_hooks h (ap_chat ae)\<rparr>) results auth st rows =
     deferred_postflight ae results auth st rows"
  by (induction results arbitrary: auth st rows)
     (simp_all add: split_paired_all approval_texts_hooks deferred_auth_hooks Let_def case_prod_beta)

text \<open>
  The hooks have no say in the calls deferred behind an approval: whatever hooks are registered, an
  approved request runs its own call and the deferred ones alike, so a hook that rejects or changes
  every tool call has no effect on them, although it is asked for each call of an uninterrupted round.
\<close>

theorem deferred_calls_skip_hooks:
  "approved_round (ae\<lparr>ap_chat := with_hooks h (ap_chat ae)\<rparr>) always p st rows = approved_round ae always p st rows"
  by (simp add: approved_round_def approval_texts_hooks deferred_preflight_hooks deferred_execute_hooks
      deferred_postflight_hooks Let_def cong: if_cong option.case_cong prod.case_cong)

subsection \<open>A round that stops for an approval\<close>

lemma round_pending_ok:
  assumes "chat_execute_tool_calls env calls body ctx st = (Inr (Some (LoopNeedApproval p)), ctx1, st1)"
  shows "\<exists>k. pending_ok (rc_messages ctx) body calls k p"
proof -
  from round_protocol [OF assms] obtain k ms where
    "k < length calls" "rc_messages ctx1 = rc_messages ctx @ assistant_with_tool_calls body calls # ms"
    "map role ms = replicate k Tool" "map tool_call_id ms = map (\<lambda>tc. Some (tc_id tc)) (take k calls)"
    "pap_tool_call_id p = tc_id (calls ! k)" "pap_tool_name p = tc_name (calls ! k)"
    "deferred_tool_calls p = drop (k + 1) calls" "context_messages p = rc_messages ctx1"
    by auto
  then show ?thesis by (intro exI [of _ k]) (simp add: pending_ok_def Let_def)
qed

subsection \<open>An instance\<close>

definition demo_approval :: "(unit, unit) approval_env" where
  "demo_approval = \<lparr>ap_chat = demo_env, ap_lower = (\<lambda>s. s), ap_captures = (\<lambda>_. []), ap_parse_list = (\<lambda>_. None),
     ap_render = (\<lambda>_. ''7''), ap_json = (\<lambda>_. []), ap_rows = (\<lambda>_. Some []), ap_writable = (\<lambda>_. True)\<rparr>"

definition demo_request :: pending_approval where
  "demo_request = \<lparr>request_id = 3, pap_tool_name = ''echo'', parameters = JString ''x'', display_parameters = JString ''x'',
     pap_description = ''Echo'', pap_tool_call_id = tc_id (demo_calls ! 0),
     context_messages = [assistant_with_tool_calls None demo_calls], deferred_tool_calls = drop 1 demo_calls,
     pap_user_timezone = None, allow_always = True\<rparr>"

definition demo_waiting :: "unit chat_state" where
  "demo_waiting = upd_thread demo_approval (await_approval 0 demo_request) demo_state"

lemma demo_waiting_thread:
  "waiting demo_approval demo_waiting = Some demo_request" "has_thread demo_approval demo_waiting"
  by (auto simp: demo_waiting_def demo_approval_def demo_env_def demo_state_def demo_session_def waiting_def
      map_of_on_thread await_approval_def has_thread_def auto_approve_tool_def)

theorem unapproved_runs_nothing_witness:
  "waiting demo_approval (fst (snd (process_approval demo_approval (Some 4) True False demo_waiting []))) = Some demo_request"
proof -
  let ?x = "process_approval demo_approval (Some 4) True False demo_waiting []"
  have x: "?x = (fst ?x, fst (snd ?x), snd (snd ?x))" by simp
  have "\<not> granted demo_approval (Some 4) True demo_waiting"
    by (simp add: granted_def demo_waiting_thread demo_request_def)
  from unapproved_runs_nothing [OF x this] show ?thesis
    by (simp add: demo_waiting_thread) (simp add: demo_request_def)
qed

theorem approval_completes_calls_witness:
  "case fst (approved_round demo_approval False demo_request demo_waiting []) of
     Inr ms \<Rightarrow> \<exists>rs. ms = [] @ assistant_with_tool_calls None demo_calls # rs \<and>
                 map role rs = replicate (length demo_calls) Tool \<and>
                 map tool_call_id rs = map (\<lambda>tc. Some (tc_id tc)) demo_calls
   | Inl (NeedApproval rid nm d dp aa) \<Rightarrow>
       \<exists>k1 p1. 0 < k1 \<and> pending_ok [] None demo_calls k1 p1 \<and>
         waiting demo_approval (fst (snd (approved_round demo_approval False demo_request demo_waiting []))) = Some p1 \<and>
         request_id p1 = rid
   | Inl (Response _) \<Rightarrow> True
   | Inl _ \<Rightarrow> False"
proof -
  let ?x = "approved_round demo_approval False demo_request demo_waiting []"
  have x: "?x = (fst ?x, fst (snd ?x), snd (snd ?x))" by simp
  have ok: "pending_ok [] None demo_calls 0 demo_request"
    by (simp add: pending_ok_def demo_request_def demo_calls_def)
  from demo_waiting_thread(2) obtain th where
    th: "map_of (threads (cs_session demo_waiting)) (ap_thread_id demo_approval) = Some th"
    by (auto simp: has_thread_def)
  show ?thesis by (rule approval_completes_calls [OF ok x th])
qed

end
