(* ===== verification/Floats.thy ===== *)
theory Floats
  imports Complex_Main "HOL-Library.Log_Nat" Claw_Prelude
begin

text \<open>
  Binary floating point for the places where the program mixes it with integers: a finite positive
  value is a rational number, and every operation rounds its exact result to the nearest number with
  \<open>prec\<close> significant bits, ties to even (\<open>prec\<close> is 53 for \<open>f64\<close> and 24 for \<open>f32\<close>). Only non-negative
  values in the normal range occur in the program, so subnormal numbers, infinities and negative zero
  are left out. The lemmas bound the error of one rounding and show that integers below \<open>2 ^ prec\<close> are
  exact and never crossed by rounding.
\<close>

definition pow2 :: "int \<Rightarrow> rat" where
  "pow2 s = (if 0 \<le> s then 2 ^ nat s else 1 / 2 ^ nat (- s))"

text \<open>The scale that brings a positive number between \<open>2 ^ (prec - 1)\<close> and \<open>2 ^ prec\<close>.\<close>

definition scale_of :: "nat \<Rightarrow> rat \<Rightarrow> int" where
  "scale_of prec x =
     (case quotient_of x of (p, q) \<Rightarrow>
        let s = int prec - (int (floorlog 2 (nat p)) - int (floorlog 2 (nat q))) in
        if 2 ^ prec \<le> x * pow2 s then s - 1 else s)"

definition round_even :: "rat \<Rightarrow> int" where
  "round_even y =
     (let n = \<lfloor>y\<rfloor>; f = y - of_int n in
      if 1 / 2 < f \<or> (f = 1 / 2 \<and> odd n) then n + 1 else n)"

definition f_round :: "nat \<Rightarrow> rat \<Rightarrow> rat" where
  "f_round prec x =
     (if x \<le> 0 then 0
      else let s = scale_of prec x in of_int (round_even (x * pow2 s)) / pow2 s)"

abbreviation f64 :: "rat \<Rightarrow> rat" where "f64 \<equiv> f_round 53"
abbreviation f32 :: "rat \<Rightarrow> rat" where "f32 \<equiv> f_round 24"

definition f64_of_nat :: "nat \<Rightarrow> rat" where "f64_of_nat n = f64 (of_nat n)"
definition f64_mul :: "rat \<Rightarrow> rat \<Rightarrow> rat" where "f64_mul a b = f64 (a * b)"
definition f64_div :: "rat \<Rightarrow> rat \<Rightarrow> rat" where "f64_div a b = f64 (a / b)"
definition f64_add :: "rat \<Rightarrow> rat \<Rightarrow> rat" where "f64_add a b = f64 (a + b)"
definition f64_to_usize :: "rat \<Rightarrow> nat" where "f64_to_usize x = nat \<lfloor>x\<rfloor>"

subsection \<open>Scaling\<close>

lemma pow2_pos [simp]: "0 < pow2 s" "pow2 s \<noteq> 0" "0 \<le> pow2 s"
  by (auto simp: pow2_def)

lemma pow2_Suc: "pow2 (s + 1) = 2 * pow2 s"
proof (cases "0 \<le> s")
  case True
  then show ?thesis by (simp add: pow2_def nat_add_distrib)
next
  case False
  then obtain k where k: "nat (- s) = Suc k" by (cases "nat (- s)") auto
  then have "nat (- (s + 1)) = k" by simp
  with k False show ?thesis by (cases "s = - 1") (auto simp: pow2_def)
qed

lemma pow2_pred: "pow2 (s - 1) = pow2 s / 2"
  using pow2_Suc [of "s - 1"] by simp

lemma pow2_nat: "pow2 (int n) = 2 ^ n"
  by (simp add: pow2_def)

lemma pow2_add: "pow2 (a + int n) = pow2 a * 2 ^ n"
proof (induction n)
  case (Suc n)
  have "pow2 (a + int (Suc n)) = pow2 ((a + int n) + 1)" by (simp add: algebra_simps)
  with Suc show ?case by (simp only: pow2_Suc power_Suc mult.left_commute)
qed simp

lemma pow2_diff: "pow2 (int a - int b) = 2 ^ a / 2 ^ b"
proof -
  have "pow2 (int a - int b) * 2 ^ b = 2 ^ a"
    using pow2_add [of "int a - int b" b] by (simp add: pow2_nat)
  then show ?thesis by (simp add: field_simps)
qed

lemma floorlog_range: "0 < n \<Longrightarrow> 2 ^ (floorlog 2 n - 1) \<le> n \<and> n < 2 ^ floorlog 2 n \<and> 0 < floorlog 2 n"
  using floorlog_bounds [of n 2] by (auto simp: floorlog_def)

lemma floorlog_rat:
  assumes "0 < p"
  shows "(2 :: rat) ^ floorlog 2 (nat p) / 2 \<le> of_int p \<and> (of_int p :: rat) < 2 ^ floorlog 2 (nat p)"
proof -
  let ?k = "floorlog 2 (nat p)"
  have k: "2 ^ (?k - 1) \<le> nat p" "nat p < 2 ^ ?k" "0 < ?k" using floorlog_range [of "nat p"] assms by auto
  then have "2 ^ (?k - 1) \<le> p" "p < 2 ^ ?k" using assms by (simp_all add: nat_less_iff le_nat_iff)
  then have "(of_int (2 ^ (?k - 1)) :: rat) \<le> of_int p" "(of_int p :: rat) < of_int (2 ^ ?k)"
    by (simp_all only: of_int_le_iff of_int_less_iff)
  then have "(2 :: rat) ^ (?k - 1) \<le> of_int p" "(of_int p :: rat) < 2 ^ ?k" by (simp_all only: of_int_power of_int_numeral)
  moreover have "(2 :: rat) ^ (?k - 1) = 2 ^ ?k / 2" using k(3) by (cases ?k) auto
  ultimately show ?thesis by (simp only: simp_thms)
qed

lemma scale_of_bounds:
  assumes "0 < x"
  shows "2 ^ prec / 2 \<le> x * pow2 (scale_of prec x) \<and> x * pow2 (scale_of prec x) < 2 ^ prec"
proof -
  obtain p q where pq: "quotient_of x = (p, q)" by (cases "quotient_of x")
  have q: "0 < q" using quotient_of_denom_pos [OF pq] .
  have x: "x = of_int p / of_int q" using quotient_of_div [OF pq] .
  with assms q have p: "0 < p" by (simp add: zero_less_divide_iff)
  let ?P = "floorlog 2 (nat p)" and ?Q = "floorlog 2 (nat q)"
  let ?s = "int prec - (int ?P - int ?Q)"
  have rp: "(2 :: rat) ^ ?P / 2 \<le> of_int p" "(of_int p :: rat) < 2 ^ ?P" using floorlog_rat [OF p] by auto
  have rq: "(2 :: rat) ^ ?Q / 2 \<le> of_int q" "(of_int q :: rat) < 2 ^ ?Q" using floorlog_rat [OF q] by auto
  have ps: "pow2 ?s = 2 ^ (prec + ?Q) / 2 ^ ?P" using pow2_diff [of "prec + ?Q" ?P] by (simp add: algebra_simps)
  have y: "x * pow2 ?s = (of_int p / 2 ^ ?P) * (2 ^ ?Q / of_int q) * 2 ^ prec"
    unfolding x ps by (simp add: power_add field_simps)
  have a: "1 / 2 \<le> (of_int p :: rat) / 2 ^ ?P" "(of_int p :: rat) / 2 ^ ?P < 1" using rp by (simp_all add: field_simps)
  have b: "1 < (2 :: rat) ^ ?Q / of_int q" "(2 :: rat) ^ ?Q / of_int q \<le> 2" using rq q by (simp_all add: field_simps)
  have lo: "1 / 2 < (of_int p / 2 ^ ?P) * ((2 :: rat) ^ ?Q / of_int q)"
    using mult_le_less_imp_less [OF a(1) b(1)] by simp
  have hi: "(of_int p / 2 ^ ?P) * ((2 :: rat) ^ ?Q / of_int q) < 2"
    using mult_less_le_imp_less [OF a(2) b(2)] a b by simp
  have "2 ^ prec / 2 < A * 2 ^ prec \<and> A * 2 ^ prec < 2 * (2 :: rat) ^ prec" if "1 / 2 < A" "A < 2" for A
    using mult_strict_right_mono [OF that(1), of "2 ^ prec"] mult_strict_right_mono [OF that(2), of "2 ^ prec"] by simp
  from this [OF lo hi] have "2 ^ prec / 2 < x * pow2 ?s" "x * pow2 ?s < 2 * 2 ^ prec" unfolding y by simp_all
  then show ?thesis by (auto simp: scale_of_def pq Let_def pow2_pred)
qed

lemma round_even_bounds:
  "\<lfloor>y\<rfloor> \<le> round_even y" "round_even y \<le> \<lceil>y\<rceil>" "\<bar>of_int (round_even y) - y\<bar> \<le> 1 / 2" "round_even (of_int n) = n"
proof -
  define f where "f = y - of_int \<lfloor>y\<rfloor>"
  have f: "0 \<le> f" "f < 1" unfolding f_def by (simp_all add: of_int_floor_le) linarith
  have c: "0 < f \<Longrightarrow> \<lfloor>y\<rfloor> + 1 \<le> \<lceil>y\<rceil>" unfolding f_def by linarith
  show "\<lfloor>y\<rfloor> \<le> round_even y" by (simp add: round_even_def Let_def)
  have "round_even y = \<lfloor>y\<rfloor> \<or> (0 < f \<and> round_even y = \<lfloor>y\<rfloor> + 1)"
    by (auto simp: round_even_def Let_def f_def)
  then show "round_even y \<le> \<lceil>y\<rceil>" using c floor_le_ceiling [of y] by auto
  show "\<bar>of_int (round_even y) - y\<bar> \<le> 1 / 2"
    using f unfolding round_even_def Let_def f_def [symmetric] by (auto simp: f_def)
  show "round_even (of_int n) = n" by (simp add: round_even_def)
qed
subsection \<open>Error and order of a rounding\<close>

lemma f_round_nonneg: "0 \<le> f_round prec x"
proof (cases "0 < x")
  case True
  then have "0 \<le> \<lfloor>x * pow2 (scale_of prec x)\<rfloor>" by simp
  then have "0 \<le> round_even (x * pow2 (scale_of prec x))"
    using round_even_bounds(1) [of "x * pow2 (scale_of prec x)"] by linarith
  with True show ?thesis by (simp add: f_round_def Let_def)
qed (simp add: f_round_def)

lemma f_round_error:
  assumes "0 < x"
  shows "\<bar>f_round prec x - x\<bar> \<le> x / 2 ^ prec"
proof -
  let ?p = "pow2 (scale_of prec x)" and ?y = "x * pow2 (scale_of prec x)"
  have "f_round prec x - x = (of_int (round_even ?y) - ?y) / ?p"
    using assms by (simp add: f_round_def Let_def field_simps)
  then have "\<bar>f_round prec x - x\<bar> = \<bar>of_int (round_even ?y) - ?y\<bar> / ?p" by (simp add: abs_divide)
  also have "\<dots> \<le> (1 / 2) / ?p" by (intro divide_right_mono round_even_bounds(3)) simp
  also have "\<dots> \<le> (?y / 2 ^ prec) / ?p"
    using scale_of_bounds [OF assms, of prec] by (intro divide_right_mono) (simp_all add: field_simps)
  also have "\<dots> = x / 2 ^ prec" by simp
  finally show ?thesis .
qed

text \<open>Below \<open>2 ^ prec\<close> the scale is not negative, so scaling an integer gives an integer.\<close>

lemma scale_nonneg:
  assumes "0 < x" and "x < 2 ^ prec"
  shows "0 \<le> scale_of prec x"
proof (rule ccontr)
  assume "\<not> 0 \<le> scale_of prec x"
  then have "pow2 (scale_of prec x) \<le> 1 / 2"
    by (cases "nat (- scale_of prec x)") (auto simp: pow2_def field_simps)
  with assms have "x * pow2 (scale_of prec x) \<le> x * (1 / 2)" by (intro mult_left_mono) auto
  with assms scale_of_bounds [OF assms(1), of prec] show False by simp
qed

lemma pow2_int: "0 \<le> s \<Longrightarrow> pow2 s = of_int (2 ^ nat s)"
  by (simp add: pow2_def)

lemma f_round_ge_int:
  assumes "of_nat k \<le> x" and "x < 2 ^ prec"
  shows "of_nat k \<le> f_round prec x"
proof (cases "0 < x")
  case True
  let ?s = "scale_of prec x"
  have s: "pow2 ?s = of_int (2 ^ nat ?s)" using scale_nonneg [OF True assms(2)] by (rule pow2_int)
  have "of_nat k * pow2 ?s \<le> x * pow2 ?s" using assms(1) by (intro mult_right_mono) auto
  then have "of_int (int k * 2 ^ nat ?s) \<le> x * pow2 ?s" by (simp add: s)
  then have "int k * 2 ^ nat ?s \<le> round_even (x * pow2 ?s)"
    using round_even_bounds(1) le_floor_iff order_trans by blast
  then have "(of_int (int k * 2 ^ nat ?s) :: rat) \<le> of_int (round_even (x * pow2 ?s))" by (simp only: of_int_le_iff)
  then have "of_nat k * pow2 ?s \<le> of_int (round_even (x * pow2 ?s))" by (simp add: s)
  then have "of_nat k \<le> of_int (round_even (x * pow2 ?s)) / pow2 ?s" by (simp add: field_simps)
  with True show ?thesis by (simp add: f_round_def Let_def)
next
  case False
  with assms(1) have "of_nat k \<le> (0 :: rat)" by (meson leI order_trans)
  then show ?thesis using f_round_nonneg [of prec x] by linarith
qed

lemma f_round_nat: "n < 2 ^ prec \<Longrightarrow> f_round prec (of_nat n) = of_nat n"
proof (cases "n = 0")
  case False
  assume n: "n < 2 ^ prec"
  let ?x = "of_nat n :: rat"
  have x: "0 < ?x" "?x < 2 ^ prec" using False n of_nat_less_iff [of n "2 ^ prec", where 'a = rat] by simp_all
  have s: "pow2 (scale_of prec ?x) = of_int (2 ^ nat (scale_of prec ?x))"
    using scale_nonneg [OF x] by (rule pow2_int)
  have "?x * pow2 (scale_of prec ?x) = of_int (int n * 2 ^ nat (scale_of prec ?x))" unfolding s by simp
  then have "round_even (?x * pow2 (scale_of prec ?x)) = int n * 2 ^ nat (scale_of prec ?x)"
    by (simp only: round_even_bounds(4))
  then show ?thesis using x by (simp add: f_round_def Let_def) (simp add: s)
qed (simp add: f_round_def)

text \<open>\<open>{:.1}\<close>: one decimal, ties to even.\<close>

definition show_fixed1 :: "rat \<Rightarrow> string" where
  "show_fixed1 x = (let t = nat (round_even (x * 10)) in show_nat (t div 10) @ ''.'' @ show_nat (t mod 10))"

end
