(* ===== verification/Compaction.thy ===== *)
theory Compaction
  imports Floats Reasoning Submissions Session_Thread
begin

text \<open>
  The context monitor (\<open>src/agent/context_monitor.rs\<close>) and the compactor (\<open>src/agent/compaction.rs\<close>):
  token estimates, the choice of a strategy, summarising, archiving and dropping old turns, and the
  command \<open>/compact\<close> of \<open>src/agent/thread_ops.rs\<close>.

  The workspace is an append operation that may fail; the model is called through \<open>Reasoning\<close>. The
  lemmas show that the floating-point estimate is an integer formula, and that compaction never loses a
  turn when it fails, keeps the newest turns in order, never increases the estimate and reports what it
  did.
\<close>

subsection \<open>Context monitor\<close>

definition DEFAULT_CONTEXT_LIMIT :: nat where "DEFAULT_CONTEXT_LIMIT = 100000"
definition COMPACTION_THRESHOLD :: rat where "COMPACTION_THRESHOLD = f64 (8 / 10)"
definition TOKENS_PER_WORD :: rat where "TOKENS_PER_WORD = f64 (13 / 10)"

datatype CompactionStrategy = SummarizeOld nat | TruncateOld nat | MoveToWorkspace

definition default_strategy :: CompactionStrategy where "default_strategy = SummarizeOld 5"

record context_monitor =
  context_limit :: nat
  threshold_ratio :: rat

definition monitor_new :: context_monitor where
  "monitor_new = \<lparr>context_limit = DEFAULT_CONTEXT_LIMIT, threshold_ratio = COMPACTION_THRESHOLD\<rparr>"

definition with_limit :: "nat \<Rightarrow> context_monitor \<Rightarrow> context_monitor" where
  "with_limit n m = m\<lparr>context_limit := n\<rparr>"

definition with_threshold :: "rat \<Rightarrow> context_monitor \<Rightarrow> context_monitor" where
  "with_threshold r m =
     m\<lparr>threshold_ratio := (if r < f64 (1 / 2) then f64 (1 / 2) else if f64 (95 / 100) < r then f64 (95 / 100) else r)\<rparr>"

definition estimate_text_tokens :: "string \<Rightarrow> nat" where
  "estimate_text_tokens s = f64_to_usize (f64_mul (f64_of_nat (length (split_ws s))) TOKENS_PER_WORD)"

definition estimate_message_tokens :: "chat_message \<Rightarrow> nat" where
  "estimate_message_tokens m =
     f64_to_usize (f64_mul (f64_of_nat (length (split_ws (content m)))) TOKENS_PER_WORD) + 4"

definition estimate_tokens :: "chat_message list \<Rightarrow> nat" where
  "estimate_tokens ms = sum_list (map estimate_message_tokens ms)"

definition monitor_threshold :: "context_monitor \<Rightarrow> nat" where
  "monitor_threshold m = f64_to_usize (f64_mul (f64_of_nat (context_limit m)) (threshold_ratio m))"

definition needs_compaction :: "context_monitor \<Rightarrow> chat_message list \<Rightarrow> bool" where
  "needs_compaction m ms \<longleftrightarrow> monitor_threshold m \<le> estimate_tokens ms"

text \<open>
  The quotient of tokens and limit against a constant. With a limit of zero the quotient is infinite,
  or not a number and then no comparison with it holds.
\<close>

definition usage_above :: "context_monitor \<Rightarrow> nat \<Rightarrow> rat \<Rightarrow> bool" where
  "usage_above m tokens c \<longleftrightarrow>
     (if context_limit m = 0 then 0 < tokens
      else c < f64_div (f64_of_nat tokens) (f64_of_nat (context_limit m)))"

definition show_usage_percent :: "context_monitor \<Rightarrow> chat_message list \<Rightarrow> string" where
  "show_usage_percent m ms =
     (let tokens = estimate_tokens ms in
      if context_limit m = 0 then (if 0 < tokens then ''inf'' else ''NaN'')
      else show_fixed1 (f64_mul (f64_div (f64_of_nat tokens) (f64_of_nat (context_limit m))) 100))"

definition suggest_compaction :: "context_monitor \<Rightarrow> chat_message list \<Rightarrow> CompactionStrategy option" where
  "suggest_compaction m ms =
     (if \<not> needs_compaction m ms then None
      else
        let tokens = estimate_tokens ms in
        if usage_above m tokens (f64 (95 / 100)) then Some (TruncateOld 3)
        else if usage_above m tokens (f64 (85 / 100)) then Some (SummarizeOld 5)
        else Some MoveToWorkspace)"

record context_breakdown =
  cb_total_tokens :: nat
  cb_system_tokens :: nat
  cb_user_tokens :: nat
  cb_assistant_tokens :: nat
  cb_tool_tokens :: nat
  cb_message_count :: nat

definition count_message :: "context_breakdown \<Rightarrow> chat_message \<Rightarrow> context_breakdown" where
  "count_message b m =
     (let n = estimate_message_tokens m; b1 = b\<lparr>cb_total_tokens := cb_total_tokens b + n\<rparr> in
      case role m of
        System \<Rightarrow> b1\<lparr>cb_system_tokens := cb_system_tokens b1 + n\<rparr>
      | User \<Rightarrow> b1\<lparr>cb_user_tokens := cb_user_tokens b1 + n\<rparr>
      | Assistant \<Rightarrow> b1\<lparr>cb_assistant_tokens := cb_assistant_tokens b1 + n\<rparr>
      | Tool \<Rightarrow> b1\<lparr>cb_tool_tokens := cb_tool_tokens b1 + n\<rparr>)"

definition analyze :: "chat_message list \<Rightarrow> context_breakdown" where
  "analyze ms =
     foldl count_message
       \<lparr>cb_total_tokens = 0, cb_system_tokens = 0, cb_user_tokens = 0, cb_assistant_tokens = 0, cb_tool_tokens = 0,
        cb_message_count = length ms\<rparr> ms"

subsection \<open>Compactor\<close>

record compaction_result =
  co_turns_removed :: nat
  co_tokens_before :: nat
  co_tokens_after :: nat
  co_summary_written :: bool
  co_summary :: "string option"

record compaction_partial =
  cp_removed :: nat
  cp_written :: bool
  cp_summary :: "string option"

definition empty_partial :: compaction_partial where
  "empty_partial = \<lparr>cp_removed = 0, cp_written = False, cp_summary = None\<rparr>"

text \<open>
  What the compactor is given: the provider, the matcher of the response cleaning, the printer of
  JSON values in thread messages, the append operation of the workspace (\<open>None\<close> without one) and the
  date and time as it prints them.
\<close>

record 'w compactor =
  cc_llm :: "'w llm_provider"
  cc_re :: re_engine
  cc_json :: "json \<Rightarrow> string"
  cc_append :: "(string \<Rightarrow> string \<Rightarrow> 'w \<Rightarrow> (string, unit) result \<times> 'w) option"
  cc_date :: "'w \<Rightarrow> string"
  cc_time :: "'w \<Rightarrow> string"

abbreviation NLs :: string where "NLs \<equiv> [CHR 0x0A]"

definition SUMMARY_PROMPT :: string where
  "SUMMARY_PROMPT =
     ''Summarize the following conversation concisely. Focus on:'' @ NLs @ ''- Key decisions made'' @ NLs @
     ''- Important information exchanged'' @ NLs @ ''- Actions taken'' @ NLs @ ''- Outcomes achieved'' @ NLs @ NLs @
     ''Be brief but capture all important details. Use bullet points.''"

definition format_for_summary :: "chat_message \<Rightarrow> string" where
  "format_for_summary m =
     (case role m of
        User \<Rightarrow> ''User: '' @ content m
      | Assistant \<Rightarrow> ''Assistant: '' @ content m
      | System \<Rightarrow> ''System: '' @ content m
      | Tool \<Rightarrow> ''Tool '' @ unwrap_or (msg_name m) ''unknown'' @ '': '' @ content m)"

text \<open>The bit pattern of the \<open>f32\<close> 0.3.\<close>

abbreviation F32_0_3 :: u32 where "F32_0_3 \<equiv> 0x3E99999A"

definition generate_summary :: "'w compactor \<Rightarrow> chat_message list \<Rightarrow> ('w, string) llm_call" where
  "generate_summary cc ms w =
     (let formatted = join_str [CHR 0x0A, CHR 0x0A] (map format_for_summary ms);
          req = with_temperature F32_0_3 (with_max_tokens 1024 (new_request
                  [system_msg SUMMARY_PROMPT,
                   user_msg (''Please summarize this conversation:'' @ NLs @ NLs @ formatted)])) in
      case reasoning_complete (cc_re cc) (cc_llm cc) req w of
        (Inl e, w') \<Rightarrow> (Err e, w')
      | (Inr (t, _), w') \<Rightarrow> (Ok t, w'))"

definition write_section ::
  "'w compactor \<Rightarrow> (string \<Rightarrow> string \<Rightarrow> 'w \<Rightarrow> (string, unit) result \<times> 'w) \<Rightarrow> string \<Rightarrow> string \<Rightarrow> 'w
     \<Rightarrow> (string, unit) result \<times> 'w" where
  "write_section cc app title body w =
     app (''daily/'' @ cc_date cc w @ ''.md'')
       (NLs @ ''## '' @ title @ '' ('' @ cc_time cc w @ '')'' @ NLs @ NLs @ body @ NLs) w"

definition turn_exchange :: "turn \<Rightarrow> chat_message list" where
  "turn_exchange t = user_msg (user_input t) # (case response t of Some r \<Rightarrow> [assistant_msg r] | None \<Rightarrow> [])"

definition compact_with_summary ::
  "'w compactor \<Rightarrow> nat \<Rightarrow> thread \<Rightarrow> 'w \<Rightarrow> (LlmError, compaction_partial) result \<times> thread \<times> 'w" where
  "compact_with_summary cc keep th w =
     (if length (turns th) \<le> keep then (Ok empty_partial, th, w)
      else
        let n = length (turns th) - keep;
            to_summarize = concat (map turn_exchange (take n (turns th))) in
        case generate_summary cc to_summarize w of
          (Inl e, w1) \<Rightarrow> (Err e, th, w1)
        | (Inr summary, w1) \<Rightarrow>
            (case cc_append cc of
               None \<Rightarrow> (Ok \<lparr>cp_removed = n, cp_written = False, cp_summary = Some summary\<rparr>, truncate_turns keep th, w1)
             | Some app \<Rightarrow>
                 (case write_section cc app ''Context Summary'' summary w1 of
                    (Inr _, w2) \<Rightarrow>
                      (Ok \<lparr>cp_removed = n, cp_written = True, cp_summary = Some summary\<rparr>, truncate_turns keep th, w2)
                  | (Inl _, w2) \<Rightarrow>
                      (Ok \<lparr>cp_removed = 0, cp_written = False, cp_summary = Some summary\<rparr>, th, w2))))"

definition compact_truncate :: "nat \<Rightarrow> thread \<Rightarrow> compaction_partial \<times> thread" where
  "compact_truncate keep th =
     (let th1 = truncate_turns keep th in
      (\<lparr>cp_removed = length (turns th) - length (turns th1), cp_written = False, cp_summary = None\<rparr>, th1))"

definition format_turn :: "turn \<Rightarrow> string" where
  "format_turn t =
     ''**Turn '' @ show_nat (turn_number t + 1) @ ''**'' @ NLs @ ''User: '' @ user_input t @ NLs @
     (case response t of Some r \<Rightarrow> ''Agent: '' @ r @ NLs | None \<Rightarrow> []) @
     (if turn_calls t = [] then [] else ''Tools: '' @ join_str '', '' (map ttc_name (turn_calls t)) @ NLs)"

definition format_turns_for_storage :: "turn list \<Rightarrow> string" where
  "format_turns_for_storage ts = join_str NLs (map format_turn ts)"

definition compact_to_workspace :: "'w compactor \<Rightarrow> thread \<Rightarrow> 'w \<Rightarrow> compaction_partial \<times> thread \<times> 'w" where
  "compact_to_workspace cc th w =
     (case cc_append cc of
        None \<Rightarrow> (case compact_truncate 5 th of (p, th1) \<Rightarrow> (p, th1, w))
      | Some app \<Rightarrow>
          let keep = 10 in
          if length (turns th) \<le> keep then (empty_partial, th, w)
          else
            let n = length (turns th) - keep in
            case write_section cc app ''Archived Context'' (format_turns_for_storage (take n (turns th))) w of
              (Inr _, w1) \<Rightarrow> (\<lparr>cp_removed = n, cp_written = True, cp_summary = None\<rparr>, truncate_turns keep th, w1)
            | (Inl _, w1) \<Rightarrow> (\<lparr>cp_removed = 0, cp_written = False, cp_summary = None\<rparr>, th, w1))"

definition compact_by :: "'w compactor \<Rightarrow> CompactionStrategy \<Rightarrow> thread \<Rightarrow> 'w \<Rightarrow> (LlmError, compaction_partial) result \<times> thread \<times> 'w" where
  "compact_by cc strategy th w =
     (case strategy of
        SummarizeOld keep \<Rightarrow> compact_with_summary cc keep th w
      | TruncateOld keep \<Rightarrow> (case compact_truncate keep th of (p, th1) \<Rightarrow> (Ok p, th1, w))
      | MoveToWorkspace \<Rightarrow> (case compact_to_workspace cc th w of (p, th1, w1) \<Rightarrow> (Ok p, th1, w1)))"

definition compact ::
  "'w compactor \<Rightarrow> CompactionStrategy \<Rightarrow> thread \<Rightarrow> 'w \<Rightarrow> (LlmError, compaction_result) result \<times> thread \<times> 'w" where
  "compact cc strategy th w =
     (let tokens_before = cb_total_tokens (analyze (thread_messages (cc_json cc) th)) in
      case compact_by cc strategy th w of
        (Inl e, th1, w1) \<Rightarrow> (Err e, th1, w1)
      | (Inr p, th1, w1) \<Rightarrow>
          (Ok \<lparr>co_turns_removed = cp_removed p, co_tokens_before = tokens_before,
               co_tokens_after = cb_total_tokens (analyze (thread_messages (cc_json cc) th1)),
               co_summary_written = cp_written p, co_summary = cp_summary p\<rparr>, th1, w1))"

subsection \<open>The token estimate is an integer formula\<close>

lemma tokens_per_word: "TOKENS_PER_WORD = 5854679515581645 / 2 ^ 52"
  unfolding TOKENS_PER_WORD_def by code_simp

lemma floor_scaled:
  assumes "n < 2 ^ 40"
  shows "f64_to_usize (f64_mul (f64_of_nat n) TOKENS_PER_WORD) = 13 * n div 10"
proof (cases "n = 0")
  case False
  define c where "c = TOKENS_PER_WORD"
  define k where "k = 13 * n div 10"
  have c: "13 / 10 \<le> c" "c \<le> 13 / 10 + 1 / 2 ^ 52" unfolding c_def tokens_per_word by simp_all
  have n: "0 < (of_nat n :: rat)" "(of_nat n :: rat) \<le> 2 ^ 40"
    using False assms of_nat_le_iff [of n "2 ^ 40", where 'a = rat] by simp_all
  have "13 * n = 10 * k + 13 * n mod 10" unfolding k_def by simp
  moreover have "13 * n mod 10 \<le> 9" by (simp add: mod_less_divisor [THEN less_Suc_eq_le [THEN iffD1]])
  ultimately have "10 * k \<le> 13 * n" "13 * n \<le> 10 * k + 9" by linarith+
  then have k: "(of_nat k :: rat) \<le> 13 / 10 * of_nat n" "13 / 10 * of_nat n \<le> (of_nat k :: rat) + 9 / 10"
    using of_nat_le_iff [of "10 * k" "13 * n", where 'a = rat] of_nat_le_iff [of "13 * n" "10 * k + 9", where 'a = rat]
    by simp_all
  let ?x = "of_nat n * c"
  have x: "of_nat n * (13 / 10) \<le> ?x" "?x \<le> of_nat n * (13 / 10) + of_nat n / 2 ^ 52"
    using mult_left_mono [OF c(1), of "of_nat n"] mult_left_mono [OF c(2), of "of_nat n"] n by (simp_all add: algebra_simps)
  have small: "of_nat n / 2 ^ 52 \<le> (1 :: rat) / 2 ^ 12" using n by simp
  have "y < 2 ^ 41" if "y \<le> a * (13 / 10) + b" "b \<le> 1 / 2 ^ 12" "a \<le> 2 ^ 40" for a b y :: rat using that by simp
  from this [OF x(2) small n(2)] have bound: "?x < 2 ^ 41" .
  then have lt: "?x < 2 ^ 53" by (rule order_less_le_trans) simp
  have lo: "of_nat k \<le> f64 ?x" using f_round_ge_int [OF _ lt, of k] k(1) x(1) by (simp add: algebra_simps)
  have "\<bar>f64 ?x - ?x\<bar> \<le> ?x / 2 ^ 53" using f_round_error [of ?x 53] n c by (simp add: mult_pos_pos)
  moreover have "r \<le> y + 1 / 2 ^ 12" if "\<bar>r - y\<bar> \<le> y / 2 ^ 53" "y < 2 ^ 41" for r y :: rat
    using that abs_ge_self [of "r - y"] by simp
  ultimately have near: "f64 ?x \<le> ?x + 1 / 2 ^ 12" using bound by blast
  have "r < j + 1" if "r \<le> y + 1 / 2 ^ 12" "y \<le> a * (13 / 10) + b" "b \<le> 1 / 2 ^ 12" "13 / 10 * a \<le> j + 9 / 10"
    for r y a b j :: rat using that by simp
  from this [OF near x(2) small k(2)] have hi: "f64 ?x < of_nat k + 1" .
  have "f64_of_nat n = of_nat n" unfolding f64_of_nat_def using assms by (intro f_round_nat) simp
  moreover have "\<lfloor>f64 ?x\<rfloor> = int k" using lo hi by (simp add: floor_eq_iff)
  ultimately show ?thesis by (simp add: f64_to_usize_def f64_mul_def c_def k_def)
qed (simp add: f64_to_usize_def f64_mul_def f64_of_nat_def f_round_def)

text \<open>
  The estimate of a message, computed in floating point, is the number of words times thirteen
  tenths, rounded down, plus four, for every message of less than \<open>2 ^ 40\<close> words.
\<close>

theorem estimate_is_integer_formula:
  assumes "length (split_ws (content m)) < 2 ^ 40"
  shows "estimate_message_tokens m = 13 * length (split_ws (content m)) div 10 + 4"
  using floor_scaled [OF assms] by (simp add: estimate_message_tokens_def)

theorem estimate_is_integer_formula_witness: "estimate_message_tokens (user_msg ''one two three four'') = 9"
proof -
  have w: "split_ws (content (user_msg ''one two three four'')) = [''one'', ''two'', ''three'', ''four'']" by code_simp
  have "length (split_ws (content (user_msg ''one two three four''))) < 2 ^ 40" unfolding w by simp
  from estimate_is_integer_formula [OF this] show ?thesis unfolding w by simp
qed

subsection \<open>Compaction loses nothing by failing\<close>

lemma count_message_total: "cb_total_tokens (count_message b m) = cb_total_tokens b + estimate_message_tokens m"
  by (cases "role m") (simp_all add: count_message_def Let_def)

lemma analyze_total: "cb_total_tokens (analyze ms) = estimate_tokens ms"
proof -
  have "cb_total_tokens (foldl count_message b ms) = cb_total_tokens b + estimate_tokens ms" for b
    by (induction ms arbitrary: b) (simp_all add: estimate_tokens_def count_message_total)
  then show ?thesis by (simp add: analyze_def)
qed

text \<open>The estimate only reads the texts, which do not depend on the numbering of the turns.\<close>

lemma estimate_tokens_contents:
  "map content ms = map content ms' \<Longrightarrow> estimate_tokens ms = estimate_tokens ms'"
proof -
  let ?g = "\<lambda>c. f64_to_usize (f64_mul (f64_of_nat (length (split_ws c))) TOKENS_PER_WORD) + 4"
  have "estimate_tokens xs = sum_list (map ?g (map content xs))" for xs
    by (simp add: estimate_tokens_def estimate_message_tokens_def [abs_def] comp_def)
  then show "map content ms = map content ms' \<Longrightarrow> ?thesis" by metis
qed

lemma contents_renumbered: "map content (turn_messages js (t\<lparr>turn_number := i\<rparr>)) = map content (turn_messages js t)"
  by (simp add: turn_messages_def tool_messages_def assistant_with_tool_calls_def tool_result_def comp_def case_prod_beta
      call_content_def split: option.splits)

lemma estimate_tokens_concat: "estimate_tokens (concat mss) = sum_list (map estimate_tokens mss)"
  by (induction mss) (simp_all add: estimate_tokens_def)

lemma estimate_turns:
  "estimate_tokens (thread_messages js th) = sum_list (map (\<lambda>t. estimate_tokens (turn_messages js t)) (turns th))"
  by (simp add: thread_messages_def estimate_tokens_concat comp_def)

abbreviation unnumbered :: "turn list \<Rightarrow> turn list" where
  "unnumbered ts \<equiv> map (\<lambda>t. t\<lparr>turn_number := 0\<rparr>) ts"

lemma unnumbered_truncate: "unnumbered (turns (truncate_turns keep th)) = unnumbered (drop (length (turns th) - keep) (turns th))"
  by (simp add: truncate_turns_def map_enumerate_snd)

lemma length_truncate: "length (turns (truncate_turns keep th)) = min keep (length (turns th))"
  by (auto simp: truncate_turns_def)

lemma estimate_unnumbered:
  "sum_list (map (\<lambda>t. estimate_tokens (turn_messages js t)) (unnumbered ts))
     = sum_list (map (\<lambda>t. estimate_tokens (turn_messages js t)) ts)"
  by (simp add: comp_def estimate_tokens_contents [OF contents_renumbered])

lemma truncate_estimate:
  "estimate_tokens (thread_messages js (truncate_turns keep th)) \<le> estimate_tokens (thread_messages js th)"
proof -
  let ?e = "\<lambda>t. estimate_tokens (turn_messages js t)" and ?n = "length (turns th) - keep"
  have "sum_list (map ?e (turns th)) = sum_list (map ?e (take ?n (turns th))) + sum_list (map ?e (drop ?n (turns th)))"
    by (metis append_take_drop_id map_append sum_list_append)
  moreover have "sum_list (map ?e (turns (truncate_turns keep th))) = sum_list (map ?e (drop ?n (turns th)))"
    by (metis estimate_unnumbered unnumbered_truncate)
  ultimately show ?thesis unfolding estimate_turns by simp
qed

text \<open>What a compaction may do to a thread: nothing, or drop all but the newest turns.\<close>

definition archived :: "'w compactor \<Rightarrow> CompactionStrategy \<Rightarrow> bool \<Rightarrow> bool" where
  "archived cc strategy written \<longleftrightarrow> written \<or> cc_append cc = None \<or> (\<exists>keep. strategy = TruncateOld keep)"

lemma compact_by_cases:
  assumes "compact_by cc strategy th w = (res, th1, w1)"
  obtains (failed) e where "res = Inl e" "th1 = th"
  | (kept) p where "res = Inr p" "th1 = th" "cp_removed p = 0"
  | (dropped) p keep where "res = Inr p" "th1 = truncate_turns keep th" "cp_removed p = length (turns th) - keep"
      "archived cc strategy (cp_written p)"
  using assms that
  by (auto simp: compact_by_def compact_with_summary_def compact_truncate_def compact_to_workspace_def archived_def
      Let_def empty_partial_def length_truncate split: CompactionStrategy.splits if_splits prod.splits sum.splits option.splits)

text \<open>
  Compaction is safe. When it fails the thread is unchanged. When it succeeds, the number of removed
  turns it reports is the number it removed, the turns left are the newest ones, in order and unchanged
  but for their numbers, and the estimate after it is not above the one before it; and when it removed
  any turn, the old turns or their summary were written to the workspace first, unless there is no
  workspace or the strategy is plain truncation.
\<close>

theorem compaction_safe:
  assumes "compact cc strategy th w = (res, th1, w1)"
  shows "case res of
      Inl _ \<Rightarrow> th1 = th
    | Inr r \<Rightarrow>
        co_turns_removed r + length (turns th1) = length (turns th) \<and>
        unnumbered (turns th1) = unnumbered (drop (co_turns_removed r) (turns th)) \<and>
        co_tokens_after r \<le> co_tokens_before r \<and>
        (co_turns_removed r = 0 \<or> archived cc strategy (co_summary_written r))"
proof -
  obtain r0 where run: "compact_by cc strategy th w = (r0, th1, w1)"
    and res: "res = (case r0 of Inl e \<Rightarrow> Inl e | Inr p \<Rightarrow>
      Inr \<lparr>co_turns_removed = cp_removed p, co_tokens_before = estimate_tokens (thread_messages (cc_json cc) th),
           co_tokens_after = estimate_tokens (thread_messages (cc_json cc) th1),
           co_summary_written = cp_written p, co_summary = cp_summary p\<rparr>)"
    using assms by (auto simp: compact_def Let_def analyze_total split: prod.splits sum.splits)
  from run show ?thesis
  proof (cases rule: compact_by_cases)
    case (dropped p keep)
    then show ?thesis using truncate_estimate [of "cc_json cc" keep th]
      by (simp add: res length_truncate unnumbered_truncate)
  qed (simp_all add: res)
qed

theorem compaction_safe_witness:
  "let th = (new_thread 0 0 0)\<lparr>turns := [new_turn 0 0 ''a b'', new_turn 0 1 ''c'']\<rparr>;
       cc = \<lparr>cc_llm = \<lparr>llm_complete = \<lambda>_ w. (Err (AuthFailed []), w),
                        llm_complete_with_tools = \<lambda>_ w. (Err (AuthFailed []), w)\<rparr>,
             cc_re = \<lparr>re_find = \<lambda>_ _. [], re_group1 = \<lambda>_ _. None\<rparr>, cc_json = \<lambda>_. [],
             cc_append = None, cc_date = \<lambda>_. [], cc_time = \<lambda>_. []\<rparr> :: unit compactor
   in case compact cc (TruncateOld 1) th () of
        (Inl _, _) \<Rightarrow> False
      | (Inr r, th1, _) \<Rightarrow> co_turns_removed r = 1 \<and> map user_input (turns th1) = [''c''] \<and>
                            co_tokens_after r \<le> co_tokens_before r"
proof -
  let ?th = "(new_thread 0 0 0)\<lparr>turns := [new_turn 0 0 ''a b'', new_turn 0 1 ''c'']\<rparr>"
  let ?cc = "\<lparr>cc_llm = \<lparr>llm_complete = \<lambda>_ w. (Err (AuthFailed []), w),
                        llm_complete_with_tools = \<lambda>_ w. (Err (AuthFailed []), w)\<rparr>,
             cc_re = \<lparr>re_find = \<lambda>_ _. [], re_group1 = \<lambda>_ _. None\<rparr>, cc_json = \<lambda>_. [],
             cc_append = None, cc_date = \<lambda>_. [], cc_time = \<lambda>_. []\<rparr> :: unit compactor"
  obtain r th1 where run: "compact ?cc (TruncateOld 1) ?th () = (Inr r, th1, ())"
    and r: "co_turns_removed r = 1" "map user_input (turns th1) = [''c'']"
    by (simp add: compact_def compact_by_def compact_truncate_def truncate_turns_def new_turn_def Let_def)
  from compaction_safe [OF run] r run show ?thesis by simp
qed

end
