(* ===== verification/Scheduler.thy ===== *)
theory Scheduler
  imports Chat_Delegate
begin

text \<open>
  The scheduler of \<open>src/agent/scheduler.rs\<close> and its tasks (\<open>src/agent/task.rs\<close>): dispatching a job
  (create, set metadata and token budget, persist, schedule), the table of running jobs, messages to
  workers, stopping and cleaning up, and subtasks.

  A worker runs in a task of its own; here it is its message queue and whether it has ended. The table
  of jobs is written under one lock, so \<open>schedule\<close> and \<open>stop\<close> are atomic, and \<open>sched_step\<close> interleaves
  them with the steps of the workers and the reapers. The database is a record of operations that may
  fail. The lemmas show the limit on running jobs and on queues, what a dispatch establishes, what a
  failed dispatch leaves behind, and the order of a batch's results.
\<close>

subsection \<open>State\<close>

datatype WorkerMessage = StartJob | StopJob | PingJob | UserMessage string

record scheduled_job =
  sj_finished :: bool
  sj_queue :: "WorkerMessage list"
  sj_approval :: "ApprovalContext option"

text \<open>The database operations the scheduler uses.\<close>

record ('w, 'd) job_store =
  db_save_job :: "'d job_context \<Rightarrow> 'w \<Rightarrow> (string, unit) result \<times> 'w"
  db_update_job_status :: "uuid \<Rightarrow> JobState \<Rightarrow> string option \<Rightarrow> 'w \<Rightarrow> (string, unit) result \<times> 'w"

record ('w, 'd) sched_env =
  se_exec :: "'w exec_env"
  se_now :: "'w \<Rightarrow> datetime"
  se_fresh :: "'w \<Rightarrow> uuid"
  se_json_error :: "string \<Rightarrow> string"
  se_elapsed :: "'w \<Rightarrow> 'w \<Rightarrow> duration"
  se_max_parallel_jobs :: nat
  se_max_tokens_per_job :: u64
  se_store :: "('w, 'd) job_store option"
  se_builtin :: "'w \<Rightarrow> string list"
  se_extension :: "'w \<Rightarrow> (string \<times> string list) option"

record ('w, 'd) sched_state =
  ss_contexts :: "'d context_manager"
  ss_jobs :: "(uuid, scheduled_job) hmap"
  ss_subtasks :: "(uuid, bool) hmap"
  ss_world :: 'w

text \<open>The number of messages a worker's channel holds.\<close>

definition CHANNEL_CAPACITY :: nat where "CHANNEL_CAPACITY = 16"

subsection \<open>Scheduling\<close>

definition start_transition :: "('w, 'd) sched_env \<Rightarrow> 'w \<Rightarrow> 'd job_context \<Rightarrow> (string, unit) result \<times> 'd job_context" where
  "start_transition se w = transition_to (se_now se w) (se_now se w) InProgress (Some ''Scheduled for execution'')"

text \<open>A worker that has just been spawned, with its first message.\<close>

definition spawned :: "ApprovalContext option \<Rightarrow> scheduled_job" where
  "spawned ap = \<lparr>sj_finished = False, sj_queue = [StartJob], sj_approval = ap\<rparr>"

definition schedule_with_context ::
  "('w, 'd) sched_env \<Rightarrow> uuid \<Rightarrow> ApprovalContext option \<Rightarrow> ('w, 'd) sched_state
     \<Rightarrow> (JobError, unit) result \<times> ('w, 'd) sched_state" where
  "schedule_with_context se jid ap st =
     (if map_of (ss_jobs st) jid \<noteq> None then (Ok (), st)
      else if se_max_parallel_jobs se \<le> length (ss_jobs st) then (Err (MaxJobsExceeded (se_max_parallel_jobs se)), st)
      else
        (case update_context jid (start_transition se (ss_world st)) (ss_contexts st) of
           (Inl e, cm) \<Rightarrow> (Err e, st\<lparr>ss_contexts := cm\<rparr>)
         | (Inr (Inl s), cm) \<Rightarrow> (Err (ContextError jid s), st\<lparr>ss_contexts := cm\<rparr>)
         | (Inr (Inr _), cm) \<Rightarrow>
             (Ok (), st\<lparr>ss_contexts := cm, ss_jobs := AList.update jid (spawned ap) (ss_jobs st)\<rparr>)))"

definition schedule :: "('w, 'd) sched_env \<Rightarrow> uuid \<Rightarrow> ('w, 'd) sched_state \<Rightarrow> (JobError, unit) result \<times> ('w, 'd) sched_state" where
  "schedule se jid = schedule_with_context se jid None"

text \<open>
  The task that waits for a worker to end and frees its slot. The look at the table and the removal
  take the lock separately, so the table may change in between.
\<close>

definition reap_check :: "uuid \<Rightarrow> ('w, 'd) sched_state \<Rightarrow> bool" where
  "reap_check jid st \<longleftrightarrow> (case map_of (ss_jobs st) jid of Some sj \<Rightarrow> sj_finished sj | None \<Rightarrow> True)"

definition reap_remove :: "uuid \<Rightarrow> ('w, 'd) sched_state \<Rightarrow> ('w, 'd) sched_state" where
  "reap_remove jid st = st\<lparr>ss_jobs := AList.delete jid (ss_jobs st)\<rparr>"

subsection \<open>Dispatching\<close>

text \<open>\<open>Value::as_u64\<close>: a non-negative integer below \<open>2 ^ 64\<close>.\<close>

definition json_as_u64 :: "json \<Rightarrow> u64 option" where
  "json_as_u64 j =
     (case j of
        JNumber ds \<Rightarrow>
          if ds \<noteq> [] \<and> list_all is_ascii_digit ds \<and> digits_value ds < 2 ^ 64
          then Some (word_of_int (digits_value ds)) else None
      | _ \<Rightarrow> None)"

definition job_max_tokens :: "u64 \<Rightarrow> json option \<Rightarrow> u64" where
  "job_max_tokens limit meta =
     (case Option.bind meta (\<lambda>m. Option.bind (jget m ''max_tokens'') json_as_u64) of
        Some user_val \<Rightarrow> if limit = 0 then user_val else min user_val limit
      | None \<Rightarrow> limit)"

text \<open>The metadata and the token budget, set under one lock, and the context as it is then.\<close>

definition apply_metadata ::
  "u64 \<Rightarrow> json option \<Rightarrow> uuid \<Rightarrow> 'd context_manager \<Rightarrow> (JobError, 'd job_context) result \<times> 'd context_manager" where
  "apply_metadata limit meta jid cm =
     (let n = job_max_tokens limit meta in
      case meta of
        Some v \<Rightarrow>
          update_context_and_get jid
            (\<lambda>c. let c1 = c\<lparr>metadata := v\<rparr> in if 0 < n then c1\<lparr>max_tokens := n\<rparr> else c1) cm
      | None \<Rightarrow>
          if 0 < n then update_context_and_get jid (\<lambda>c. c\<lparr>max_tokens := n\<rparr>) cm
          else (get_context jid cm, cm))"

definition persist_job ::
  "('w, 'd) sched_env \<Rightarrow> 'd job_context \<Rightarrow> 'w \<Rightarrow> (string, unit) result \<times> 'w" where
  "persist_job se c w = (case se_store se of None \<Rightarrow> (Ok (), w) | Some db \<Rightarrow> db_save_job db c w)"

definition dispatch_job_inner ::
  "('w, 'd::zero) sched_env \<Rightarrow> string \<Rightarrow> string \<Rightarrow> string \<Rightarrow> json option \<Rightarrow> ApprovalContext option \<Rightarrow> ('w, 'd) sched_state
     \<Rightarrow> (JobError, uuid) result \<times> ('w, 'd) sched_state" where
  "dispatch_job_inner se uid ttl descr meta ap st =
     (let w = ss_world st in
      case create_job_for_user (se_fresh se w) (se_now se w) uid ttl descr (ss_contexts st) of
        (Inl e, cm) \<Rightarrow> (Err e, st\<lparr>ss_contexts := cm\<rparr>)
      | (Inr jid, cm) \<Rightarrow>
      case apply_metadata (se_max_tokens_per_job se) meta jid cm of
        (Inl e, cm1) \<Rightarrow> (Err e, st\<lparr>ss_contexts := cm1\<rparr>)
      | (Inr c, cm1) \<Rightarrow>
      case persist_job se c w of
        (Inl e, w1) \<Rightarrow>
          (Err (JobFailed jid (''failed to persist job: '' @ e)), st\<lparr>ss_contexts := cm1, ss_world := w1\<rparr>)
      | (Inr _, w1) \<Rightarrow>
      case schedule_with_context se jid ap (st\<lparr>ss_contexts := cm1, ss_world := w1\<rparr>) of
        (Inl e, st1) \<Rightarrow> (Err e, st1)
      | (Inr _, st1) \<Rightarrow> (Ok jid, st1))"

definition autonomous_approval_context :: "('w, 'd) sched_env \<Rightarrow> string \<Rightarrow> 'w \<Rightarrow> ApprovalContext" where
  "autonomous_approval_context se uid w =
     autonomous_with_tools (autonomous_allowed_tool_names (se_builtin se w) (se_extension se w) uid)"

definition dispatch_job ::
  "('w, 'd::zero) sched_env \<Rightarrow> string \<Rightarrow> string \<Rightarrow> string \<Rightarrow> json option \<Rightarrow> ('w, 'd) sched_state
     \<Rightarrow> (JobError, uuid) result \<times> ('w, 'd) sched_state" where
  "dispatch_job se uid ttl descr meta st =
     dispatch_job_inner se uid ttl descr meta (Some (autonomous_approval_context se uid (ss_world st))) st"

definition dispatch_job_with_context ::
  "('w, 'd::zero) sched_env \<Rightarrow> string \<Rightarrow> string \<Rightarrow> string \<Rightarrow> json option \<Rightarrow> ApprovalContext \<Rightarrow> ('w, 'd) sched_state
     \<Rightarrow> (JobError, uuid) result \<times> ('w, 'd) sched_state" where
  "dispatch_job_with_context se uid ttl descr meta ap st = dispatch_job_inner se uid ttl descr meta (Some ap) st"

subsection \<open>Messages, stopping and cleaning up\<close>

text \<open>Sending waits for room; the receiver is gone once the worker has ended.\<close>

definition channel_ready :: "scheduled_job \<Rightarrow> bool" where
  "channel_ready sj \<longleftrightarrow> sj_finished sj \<or> length (sj_queue sj) < CHANNEL_CAPACITY"

definition send_to_worker :: "WorkerMessage \<Rightarrow> scheduled_job \<Rightarrow> (unit, unit) result \<times> scheduled_job" where
  "send_to_worker m sj = (if sj_finished sj then (Err (), sj) else (Ok (), sj\<lparr>sj_queue := sj_queue sj @ [m]\<rparr>))"

definition send_message ::
  "uuid \<Rightarrow> string \<Rightarrow> ('w, 'd) sched_state \<Rightarrow> (JobError, unit) result \<times> ('w, 'd) sched_state" where
  "send_message jid s st =
     (case map_of (ss_jobs st) jid of
        None \<Rightarrow> (Err (JobError.NotFound jid), st)
      | Some sj \<Rightarrow>
          (case send_to_worker (UserMessage s) sj of
             (Inl _, _) \<Rightarrow> (Err (JobFailed jid ''Worker channel closed''), st)
           | (Inr _, sj1) \<Rightarrow> (Ok (), st\<lparr>ss_jobs := AList.update jid sj1 (ss_jobs st)\<rparr>)))"

text \<open>
  The closure that stops a job keeps the context when the transition is refused. The status is written
  to the database by a detached task, so a failure is only logged.
\<close>

definition stop_transition :: "('w, 'd) sched_env \<Rightarrow> 'w \<Rightarrow> 'd job_context \<Rightarrow> unit \<times> 'd job_context" where
  "stop_transition se w c =
     ((), snd (transition_to (se_now se w) (se_now se w) Cancelled (Some ''Stopped by scheduler'') c))"

definition record_status ::
  "('w, 'd) sched_env \<Rightarrow> uuid \<Rightarrow> JobState \<Rightarrow> string option \<Rightarrow> 'w \<Rightarrow> 'w" where
  "record_status se jid s reason w =
     (case se_store se of None \<Rightarrow> w | Some db \<Rightarrow> snd (db_update_job_status db jid s reason w))"

definition stop :: "('w, 'd) sched_env \<Rightarrow> uuid \<Rightarrow> ('w, 'd) sched_state \<Rightarrow> (JobError, unit) result \<times> ('w, 'd) sched_state" where
  "stop se jid st =
     (case map_of (ss_jobs st) jid of
        None \<Rightarrow> (Ok (), st)
      | Some _ \<Rightarrow>
          let st1 = st\<lparr>ss_jobs := AList.delete jid (ss_jobs st)\<rparr> in
          (case update_context jid (stop_transition se (ss_world st)) (ss_contexts st1) of
             (Inl e, cm) \<Rightarrow> (Err e, st1\<lparr>ss_contexts := cm\<rparr>)
           | (Inr _, cm) \<Rightarrow>
               (Ok (), st1\<lparr>ss_contexts := cm,
                          ss_world := record_status se jid Cancelled (Some ''Stopped by scheduler'') (ss_world st)\<rparr>)))"

definition is_running :: "uuid \<Rightarrow> ('w, 'd) sched_state \<Rightarrow> bool" where
  "is_running jid st \<longleftrightarrow> map_of (ss_jobs st) jid \<noteq> None"

definition running_count :: "('w, 'd) sched_state \<Rightarrow> nat" where
  "running_count st = length (ss_jobs st)"

definition subtask_count :: "('w, 'd) sched_state \<Rightarrow> nat" where
  "subtask_count st = length (ss_subtasks st)"

definition running_jobs :: "('w, 'd) sched_state \<Rightarrow> uuid list" where
  "running_jobs st = map fst (ss_jobs st)"

definition cleanup_finished :: "('w, 'd) sched_state \<Rightarrow> ('w, 'd) sched_state" where
  "cleanup_finished st =
     st\<lparr>ss_jobs := fold AList.delete (map fst (filter (\<lambda>(i, sj). sj_finished sj) (ss_jobs st))) (ss_jobs st),
        ss_subtasks := fold AList.delete (map fst (filter snd (ss_subtasks st))) (ss_subtasks st)\<rparr>"

definition stop_all :: "('w, 'd) sched_env \<Rightarrow> ('w, 'd) sched_state \<Rightarrow> ('w, 'd) sched_state" where
  "stop_all se st =
     (let st1 = fold (\<lambda>jid s. snd (stop se jid s)) (running_jobs st) st in st1\<lparr>ss_subtasks := []\<rparr>)"

subsection \<open>Subtasks\<close>

record task_output =
  tk_result :: json
  tk_duration :: duration

record task_context =
  tx_task_id :: uuid
  tx_parent_id :: "uuid option"
  tx_metadata :: json

definition new_task_context :: "uuid \<Rightarrow> task_context" where
  "new_task_context tid = \<lparr>tx_task_id = tid, tx_parent_id = None, tx_metadata = JNull\<rparr>"

definition with_parent :: "uuid \<Rightarrow> task_context \<Rightarrow> task_context" where
  "with_parent p c = c\<lparr>tx_parent_id := Some p\<rparr>"

definition with_task_metadata :: "json \<Rightarrow> task_context \<Rightarrow> task_context" where
  "with_task_metadata m c = c\<lparr>tx_metadata := m\<rparr>"

text \<open>A background task is its handler: what it does with the context, and its description.\<close>

datatype 'w task_kind =
    TaskJob uuid string string
  | ToolExec uuid string json
  | Background uuid string "task_context \<Rightarrow> 'w \<Rightarrow> (Error, task_output) result \<times> 'w"

fun task_id :: "'w task_kind \<Rightarrow> uuid option" where
  "task_id (TaskJob i _ _) = Some i"
| "task_id (ToolExec _ _ _) = None"
| "task_id (Background i _ _) = Some i"

fun task_description :: "'w task_kind \<Rightarrow> string" where
  "task_description (TaskJob _ ttl _) = ''job: '' @ ttl"
| "task_description (ToolExec _ n _) = ''tool: '' @ n"
| "task_description (Background _ d _) = ''background: '' @ d"

definition execute_tool_task ::
  "('w, 'd) sched_env \<Rightarrow> 'd context_manager \<Rightarrow> ApprovalContext option \<Rightarrow> uuid \<Rightarrow> string \<Rightarrow> json \<Rightarrow> 'w
     \<Rightarrow> (Error, task_output) result \<times> 'w" where
  "execute_tool_task se cm ap jid tname params w =
     (let env = se_exec se in
      case ev_lookup env w tname of
        None \<Rightarrow> (Err (ToolErr (NotFoundTool tname)), w)
      | Some t \<Rightarrow>
      case get_context jid cm of
        Inl e \<Rightarrow> (Err (JobErr e), w)
      | Inr c \<Rightarrow>
      if state c = Cancelled then (Err (ToolErr (ExecutionFailed tname ''Job is cancelled'')), w)
      else
        let normalized = normalized_params env t params in
        if is_blocked_or_default ap tname (requires_approval t normalized)
        then (Err (ToolErr (autonomous_unavailable_error tname (user_id c))), w)
        else case execute_tool_with_safety env tname normalized w of
          (Inl e, w1) \<Rightarrow> (Err (ToolErr e), w1)
        | (Inr s, w1) \<Rightarrow>
            (case ev_decode env s of
               None \<Rightarrow> (Err (ToolErr (ExecutionFailed tname (''Failed to parse tool output as JSON: '' @ se_json_error se s))), w1)
             | Some v \<Rightarrow> (Ok \<lparr>tk_result = v, tk_duration = se_elapsed se w w1\<rparr>, w1)))"

text \<open>What the spawned task does and sends to its receiver; a job cannot be spawned this way.\<close>

definition subtask_body ::
  "('w, 'd) sched_env \<Rightarrow> 'd context_manager \<Rightarrow> uuid \<Rightarrow> uuid \<Rightarrow> 'w task_kind
     \<Rightarrow> ('w \<Rightarrow> (Error, task_output) result \<times> 'w) option" where
  "subtask_body se cm tid parent task =
     (case task of
        TaskJob _ _ _ \<Rightarrow> None
      | ToolExec tool_parent tname params \<Rightarrow> Some (execute_tool_task se cm None tool_parent tname params)
      | Background _ _ run \<Rightarrow> Some (run (with_parent parent (new_task_context tid))))"

definition spawn_subtask ::
  "uuid \<Rightarrow> uuid \<Rightarrow> 'w task_kind \<Rightarrow> ('w, 'd) sched_state \<Rightarrow> (JobError, uuid) result \<times> ('w, 'd) sched_state" where
  "spawn_subtask tid parent task st =
     (case task of
        TaskJob _ _ _ \<Rightarrow> (Err (ContextError parent ''Use schedule() for Job tasks, not spawn_subtask()''), st)
      | _ \<Rightarrow> (Ok tid, st\<lparr>ss_subtasks := AList.update tid False (ss_subtasks st)\<rparr>))"

definition reap_subtask :: "uuid \<Rightarrow> ('w, 'd) sched_state \<Rightarrow> ('w, 'd) sched_state" where
  "reap_subtask tid st =
     (if map_of (ss_subtasks st) tid = Some False then st
      else st\<lparr>ss_subtasks := AList.delete tid (ss_subtasks st)\<rparr>)"

text \<open>
  A batch: every task is spawned, then they run in the order in which the runtime finishes them
  (\<open>order\<close>, positions of the batch), and the receivers are read in the order of the batch. A task that
  does not finish drops its sender. \<open>tids\<close> are the fresh identifiers.
\<close>

fun spawn_tasks ::
  "(nat \<Rightarrow> uuid) \<Rightarrow> uuid \<Rightarrow> nat \<Rightarrow> 'w task_kind list \<Rightarrow> ('w, 'd) sched_state \<Rightarrow> uuid option list \<times> ('w, 'd) sched_state" where
  "spawn_tasks tids parent i [] st = ([], st)"
| "spawn_tasks tids parent i (t # ts) st =
     (case spawn_subtask (tids i) parent t st of
        (Inr tid, st1) \<Rightarrow> (case spawn_tasks tids parent (Suc i) ts st1 of (rs, st2) \<Rightarrow> (Some tid # rs, st2))
      | (Inl _, st1) \<Rightarrow> (case spawn_tasks tids parent (Suc i) ts st1 of (rs, st2) \<Rightarrow> (None # rs, st2)))"

fun run_subtasks ::
  "('w, 'd) sched_env \<Rightarrow> (nat \<Rightarrow> uuid) \<Rightarrow> uuid \<Rightarrow> 'w task_kind list \<Rightarrow> nat list
     \<Rightarrow> (Error, task_output) result option list \<Rightarrow> ('w, 'd) sched_state
     \<Rightarrow> (Error, task_output) result option list \<times> ('w, 'd) sched_state" where
  "run_subtasks se tids parent ts [] slots st = (slots, st)"
| "run_subtasks se tids parent ts (i # is') slots st =
     (if length ts \<le> i then run_subtasks se tids parent ts is' slots st
      else case subtask_body se (ss_contexts st) (tids i) parent (ts ! i) of
        None \<Rightarrow> run_subtasks se tids parent ts is' slots st
      | Some run \<Rightarrow>
          (case run (ss_world st) of
             (r, w1) \<Rightarrow>
               run_subtasks se tids parent ts is' (slots[i := Some r])
                 (st\<lparr>ss_world := w1, ss_subtasks := AList.update (tids i) True (ss_subtasks st)\<rparr>)))"

definition batch_result ::
  "uuid \<Rightarrow> uuid option \<Rightarrow> (Error, task_output) result option \<Rightarrow> (Error, task_output) result" where
  "batch_result parent receiver slot =
     (case receiver of
        None \<Rightarrow> Err (JobErr (ContextError parent ''Subtask failed to spawn''))
      | Some _ \<Rightarrow>
          (case slot of
             Some r \<Rightarrow> r
           | None \<Rightarrow> Err (JobErr (ContextError parent ''Subtask channel closed unexpectedly''))))"

definition spawn_batch ::
  "('w, 'd) sched_env \<Rightarrow> (nat \<Rightarrow> uuid) \<Rightarrow> nat list \<Rightarrow> uuid \<Rightarrow> 'w task_kind list \<Rightarrow> ('w, 'd) sched_state
     \<Rightarrow> (Error, task_output) result list \<times> ('w, 'd) sched_state" where
  "spawn_batch se tids order parent ts st =
     (if ts = [] then ([], st)
      else case spawn_tasks tids parent 0 ts st of (receivers, st1) \<Rightarrow>
           case run_subtasks se tids parent ts order (replicate (length ts) None) st1 of (slots, st2) \<Rightarrow>
             (map2 (batch_result parent) receivers slots, st2))"

subsection \<open>Limits under interleaving\<close>

text \<open>
  Operations of the scheduler, of its clients, of the reapers and of the workers. A worker may take
  a message from its queue, end, or change the world and the contexts in any way. The removal by a
  reaper may come at any time after its look at the table.
\<close>

inductive sched_step :: "('w, 'd::zero) sched_env \<Rightarrow> ('w, 'd) sched_state \<Rightarrow> ('w, 'd) sched_state \<Rightarrow> bool" for se where
  step_dispatch: "sched_step se st (snd (dispatch_job_inner se uid ttl descr meta ap st))"
| step_schedule: "sched_step se st (snd (schedule_with_context se jid ap st))"
| step_stop: "sched_step se st (snd (stop se jid st))"
| step_stop_all: "sched_step se st (stop_all se st)"
| step_send: "(\<And>sj. map_of (ss_jobs st) jid = Some sj \<Longrightarrow> channel_ready sj) \<Longrightarrow> sched_step se st (snd (send_message jid s st))"
| step_cleanup: "sched_step se st (cleanup_finished st)"
| step_reap: "sched_step se st (reap_remove jid st)"
| step_take: "map_of (ss_jobs st) jid = Some sj \<Longrightarrow>
    sched_step se st (st\<lparr>ss_jobs := AList.update jid (sj\<lparr>sj_queue := tl (sj_queue sj)\<rparr>) (ss_jobs st)\<rparr>)"
| step_end: "map_of (ss_jobs st) jid = Some sj \<Longrightarrow>
    sched_step se st (st\<lparr>ss_jobs := AList.update jid (sj\<lparr>sj_finished := True\<rparr>) (ss_jobs st)\<rparr>)"
| step_work: "sched_step se st (st\<lparr>ss_contexts := cm, ss_world := w\<rparr>)"

definition sched_inv :: "('w, 'd) sched_env \<Rightarrow> ('w, 'd) sched_state \<Rightarrow> bool" where
  "sched_inv se st \<longleftrightarrow> hm_wf (ss_jobs st) \<and> length (ss_jobs st) \<le> se_max_parallel_jobs se \<and>
     (\<forall>(i, sj) \<in> set (ss_jobs st). length (sj_queue sj) \<le> CHANNEL_CAPACITY)"

lemma sched_inv_add:
  "sched_inv se st \<Longrightarrow> map_of (ss_jobs st) jid = None \<Longrightarrow> length (ss_jobs st) < se_max_parallel_jobs se \<Longrightarrow>
     length (sj_queue sj) \<le> CHANNEL_CAPACITY \<Longrightarrow> sched_inv se (st\<lparr>ss_jobs := AList.update jid sj (ss_jobs st)\<rparr>)"
  using set_update_subset [of jid sj "ss_jobs st"]
  by (fastforce simp: sched_inv_def length_update_absent distinct_update)

lemma sched_inv_set:
  "sched_inv se st \<Longrightarrow> map_of (ss_jobs st) jid = Some sj0 \<Longrightarrow> length (sj_queue sj) \<le> CHANNEL_CAPACITY \<Longrightarrow>
     sched_inv se (st\<lparr>ss_jobs := AList.update jid sj (ss_jobs st)\<rparr>)"
  using set_update_subset [of jid sj "ss_jobs st"]
  by (fastforce simp: sched_inv_def length_update_present distinct_update)

lemma sched_inv_shrink:
  "sched_inv se st \<Longrightarrow> set jobs \<subseteq> set (ss_jobs st) \<Longrightarrow> length jobs \<le> length (ss_jobs st) \<Longrightarrow> hm_wf jobs \<Longrightarrow>
     ss_jobs st' = jobs \<Longrightarrow> sched_inv se st'"
  by (force simp: sched_inv_def)

lemma sched_inv_delete: "sched_inv se st \<Longrightarrow> ss_jobs st' = AList.delete jid (ss_jobs st) \<Longrightarrow> sched_inv se st'"
  by (rule sched_inv_shrink [OF _ set_delete_subset length_delete])
     (simp_all add: sched_inv_def distinct_delete)

lemma sched_inv_frame: "sched_inv se st \<Longrightarrow> ss_jobs st' = ss_jobs st \<Longrightarrow> sched_inv se st'"
  by (simp add: sched_inv_def)

lemma sched_inv_queue: "sched_inv se st \<Longrightarrow> map_of (ss_jobs st) jid = Some sj \<Longrightarrow> length (sj_queue sj) \<le> CHANNEL_CAPACITY"
  by (auto simp: sched_inv_def dest: map_of_SomeD)

lemma schedule_inv [claw_inv]: "sched_inv se st \<Longrightarrow> sched_inv se (snd (schedule_with_context se jid ap st))"
proof -
  assume inv: "sched_inv se st"
  have add: "sched_inv se (st\<lparr>ss_contexts := cm, ss_jobs := AList.update jid (spawned ap) (ss_jobs st)\<rparr>)"
    if "map_of (ss_jobs st) jid = None" "\<not> se_max_parallel_jobs se \<le> length (ss_jobs st)" for cm
    using sched_inv_add [of se "st\<lparr>ss_contexts := cm\<rparr>" jid "spawned ap"] inv that
    by (simp add: sched_inv_def spawned_def CHANNEL_CAPACITY_def)
  show ?thesis
    using inv add
    by (auto simp: schedule_with_context_def intro: sched_inv_frame split: prod.split sum.split)
qed

lemma stop_inv [claw_inv]: "sched_inv se st \<Longrightarrow> sched_inv se (snd (stop se jid st))"
  by (auto simp: stop_def Let_def intro: sched_inv_delete split: option.split prod.split sum.split)

lemma dispatch_inv [claw_inv]:
  assumes "sched_inv se st"
  shows "sched_inv se (snd (dispatch_job_inner se uid ttl descr meta ap st))"
proof -
  have frame: "sched_inv se (st\<lparr>ss_contexts := cm\<rparr>)" "sched_inv se (st\<lparr>ss_contexts := cm, ss_world := w\<rparr>)" for cm w
    using assms by (simp_all add: sched_inv_def)
  have "sched_inv se st1" if "schedule_with_context se jid ap (st\<lparr>ss_contexts := cm, ss_world := w\<rparr>) = (r, st1)"
    for cm w jid r st1 using schedule_inv [of se "st\<lparr>ss_contexts := cm, ss_world := w\<rparr>" jid ap, OF frame(2)] that by simp
  then show ?thesis by (simp add: dispatch_job_inner_def Let_def frame split: prod.split sum.split)
qed

lemma fold_delete_shrinks:
  "set (fold AList.delete ks m) \<subseteq> set m \<and> length (fold AList.delete ks m) \<le> length m \<and>
     (hm_wf m \<longrightarrow> hm_wf (fold AList.delete ks m))"
proof (induction ks arbitrary: m)
  case (Cons k ks)
  from Cons [of "AList.delete k m"] set_delete_subset [of k m] length_delete [of k m]
  show ?case by (auto simp: distinct_delete)
qed simp

lemma fold_stop_inv: "sched_inv se st \<Longrightarrow> sched_inv se (fold (\<lambda>jid s. snd (stop se jid s)) ids st)"
  by (induction ids arbitrary: st) (auto intro: stop_inv)

lemma sched_step_inv: "sched_step se st st' \<Longrightarrow> sched_inv se st \<Longrightarrow> sched_inv se st'"
proof (induction rule: sched_step.induct)
  case (step_stop_all st)
  then show ?case by (auto simp: stop_all_def Let_def intro: sched_inv_frame fold_stop_inv)
next
  case (step_send st jid s)
  then show ?case
    by (auto simp: send_message_def send_to_worker_def channel_ready_def intro: sched_inv_set split: option.split)
next
  case (step_cleanup st)
  let ?ks = "map fst (filter (\<lambda>(i, sj). sj_finished sj) (ss_jobs st))"
  have "hm_wf (ss_jobs st)" using step_cleanup by (simp add: sched_inv_def)
  then have "set (fold AList.delete ?ks (ss_jobs st)) \<subseteq> set (ss_jobs st)"
    "length (fold AList.delete ?ks (ss_jobs st)) \<le> length (ss_jobs st)" "hm_wf (fold AList.delete ?ks (ss_jobs st))"
    using fold_delete_shrinks by blast+
  from sched_inv_shrink [OF step_cleanup this] show ?case by (simp add: cleanup_finished_def)
next
  case (step_take st jid sj)
  then show ?case using sched_inv_queue [OF step_take(2,1)] by (intro sched_inv_set) auto
next
  case (step_end st jid sj)
  then show ?case using sched_inv_queue [OF step_end(2,1)] by (intro sched_inv_set) auto
next
  case (step_reap st jid)
  then show ?case by (rule sched_inv_delete) (simp add: reap_remove_def)
next
  case (step_work st cm w)
  then show ?case by (rule sched_inv_frame) simp
qed (fact dispatch_inv schedule_inv stop_inv)+

definition idle_state :: "'d context_manager \<Rightarrow> 'w \<Rightarrow> ('w, 'd) sched_state" where
  "idle_state cm w = \<lparr>ss_contexts = cm, ss_jobs = [], ss_subtasks = [], ss_world = w\<rparr>"


definition demo_sched :: "(unit, int) sched_env" where
  "demo_sched = \<lparr>se_exec = demo_exec, se_now = \<lambda>_. 0, se_fresh = \<lambda>_. 7, se_json_error = \<lambda>_. [],
     se_elapsed = \<lambda>_ _. 0, se_max_parallel_jobs = 1, se_max_tokens_per_job = 100, se_store = None,
     se_builtin = \<lambda>_. [''echo''], se_extension = \<lambda>_. None\<rparr>"


subsection \<open>What a dispatch establishes\<close>

lemma create_job_cases:
  "create_job_for_user f now uid ttl descr cm = (res, cm1) \<Longrightarrow>
     (res = Ok f \<and> map_of (contexts cm1) f = Some (with_user f now uid ttl descr) \<and>
      contexts cm1 = AList.update f (with_user f now uid ttl descr) (contexts cm)) \<or>
     (res = Err (MaxJobsExceeded (max_jobs cm)) \<and> cm1 = cm)"
  by (auto simp: create_job_for_user_def insert_context_def insert_phase_def memory_phase_def with_user_def Let_def
      update_conv split: if_splits)

text \<open>The context after the metadata has been applied to a new job.\<close>

definition budgeted :: "u64 \<Rightarrow> json option \<Rightarrow> 'd job_context \<Rightarrow> 'd job_context" where
  "budgeted limit meta c =
     (case meta of None \<Rightarrow> c | Some v \<Rightarrow> c\<lparr>metadata := v\<rparr>)\<lparr>max_tokens := job_max_tokens limit meta\<rparr>"

lemma apply_metadata_new:
  assumes "map_of (contexts cm) jid = Some c" "max_tokens c = 0"
  shows "\<exists>cm1. apply_metadata limit meta jid cm = (Ok (budgeted limit meta c), cm1) \<and>
           map_of (contexts cm1) = (map_of (contexts cm))(jid \<mapsto> budgeted limit meta c)"
proof -
  have same: "budgeted limit meta c = (case meta of None \<Rightarrow> c | Some v \<Rightarrow> c\<lparr>metadata := v\<rparr>)"
    if "job_max_tokens limit meta = 0" using that assms(2) by (simp add: budgeted_def split: option.split)
  show ?thesis
  proof (cases meta)
    case None
    then show ?thesis using assms same
      by (cases "job_max_tokens limit meta = 0")
         (auto simp: apply_metadata_def budgeted_def update_context_and_get_def get_context_def update_conv' word_neq_0_conv fun_upd_idem_iff Let_def)
  next
    case (Some v)
    then show ?thesis using assms same
      by (cases "job_max_tokens limit meta = 0")
         (auto simp: apply_metadata_def budgeted_def update_context_and_get_def update_conv' word_neq_0_conv Let_def)
  qed
qed

lemma schedule_new:
  assumes "map_of (ss_jobs st) jid = None" "map_of (contexts (ss_contexts st)) jid = Some c" "state c = Pending"
    and "schedule_with_context se jid ap st = (res, st1)"
  shows "(res = Ok () \<and> map_of (ss_jobs st1) jid = Some (spawned ap) \<and>
          map_of (contexts (ss_contexts st1)) jid = Some (snd (start_transition se (ss_world st) c)) \<and> ss_world st1 = ss_world st) \<or>
         (res = Err (MaxJobsExceeded (se_max_parallel_jobs se)) \<and> st1 = st)"
proof -
  have "start_transition se (ss_world st) c = (Ok (), snd (start_transition se (ss_world st) c))"
    using transition_to_ok_iff [of "se_now se (ss_world st)" "se_now se (ss_world st)" InProgress "Some ''Scheduled for execution''" c] assms(3)
    by (simp add: start_transition_def transition_to_def job_defs)
  with assms show ?thesis
    by (auto simp: schedule_with_context_def update_context_def update_conv' Let_def split: if_splits prod.splits)
qed

lemma started_job:
  "state c = Pending \<Longrightarrow> state (snd (start_transition se w c)) = InProgress"
  by (simp add: start_transition_def state_transition_to job_defs)

lemma dispatch_cases:
  assumes run: "dispatch_job_inner se uid ttl descr meta ap st = (res, st1)"
    and fresh: "map_of (ss_jobs st) (se_fresh se (ss_world st)) = None"
  obtains (full) "res = Err (MaxJobsExceeded (max_jobs (ss_contexts st)))" "st1 = st"
  | (unsaved) e c where "res = Err (JobFailed (se_fresh se (ss_world st)) (''failed to persist job: '' @ e))"
      "c = budgeted (se_max_tokens_per_job se) meta (with_user (se_fresh se (ss_world st)) (se_now se (ss_world st)) uid ttl descr)"
      "fst (persist_job se c (ss_world st)) = Err e" "ss_jobs st1 = ss_jobs st"
      "map_of (contexts (ss_contexts st1)) = (map_of (contexts (ss_contexts st)))(se_fresh se (ss_world st) \<mapsto> c)"
  | (busy) c where "res = Err (MaxJobsExceeded (se_max_parallel_jobs se))"
      "c = budgeted (se_max_tokens_per_job se) meta (with_user (se_fresh se (ss_world st)) (se_now se (ss_world st)) uid ttl descr)"
      "ss_jobs st1 = ss_jobs st"
      "map_of (contexts (ss_contexts st1)) = (map_of (contexts (ss_contexts st)))(se_fresh se (ss_world st) \<mapsto> c)"
  | (started) c w where "res = Ok (se_fresh se (ss_world st))"
      "c = budgeted (se_max_tokens_per_job se) meta (with_user (se_fresh se (ss_world st)) (se_now se (ss_world st)) uid ttl descr)"
      "persist_job se c (ss_world st) = (Ok (), w)"
      "map_of (ss_jobs st1) (se_fresh se (ss_world st)) = Some (spawned ap)"
      "map_of (contexts (ss_contexts st1)) (se_fresh se (ss_world st)) = Some (snd (start_transition se w c))"
proof -
  let ?w = "ss_world st" let ?jid = "se_fresh se ?w"
  let ?c0 = "with_user ?jid (se_now se ?w) uid ttl descr" and ?lim = "se_max_tokens_per_job se"
  obtain r cm where cr: "create_job_for_user ?jid (se_now se ?w) uid ttl descr (ss_contexts st) = (r, cm)" by fastforce
  from create_job_cases [OF cr] show thesis
  proof
    assume "r = Err (MaxJobsExceeded (max_jobs (ss_contexts st))) \<and> cm = ss_contexts st"
    then show thesis using run cr by (intro full) (auto simp: dispatch_job_inner_def Let_def)
  next
    assume ok: "r = Ok ?jid \<and> map_of (contexts cm) ?jid = Some ?c0 \<and> contexts cm = AList.update ?jid ?c0 (contexts (ss_contexts st))"
    then have "map_of (contexts cm) ?jid = Some ?c0" by blast
    then obtain cm1 where md: "apply_metadata ?lim meta ?jid cm = (Ok (budgeted ?lim meta ?c0), cm1)"
      and upd: "map_of (contexts cm1) = (map_of (contexts cm))(?jid \<mapsto> budgeted ?lim meta ?c0)"
      using apply_metadata_new [of cm ?jid ?c0 ?lim meta] by (auto simp: with_user_def)
    let ?c = "budgeted ?lim meta ?c0"
    have upd': "map_of (contexts cm1) = (map_of (contexts (ss_contexts st)))(?jid \<mapsto> ?c)"
      using upd ok by (simp add: update_conv')
    have pend: "state ?c = Pending" by (simp add: budgeted_def with_user_def split: option.split)
    obtain p w1 where ps: "persist_job se ?c ?w = (p, w1)" by fastforce
    show thesis
    proof (cases p)
      case (Inl e)
      then show thesis using run cr ok md ps upd' by (intro unsaved [of e ?c]) (auto simp: dispatch_job_inner_def Let_def)
    next
      case (Inr u)
      obtain q st2 where sc: "schedule_with_context se ?jid ap (st\<lparr>ss_contexts := cm1, ss_world := w1\<rparr>) = (q, st2)" by fastforce
      have "res = (case q of Inl e \<Rightarrow> Err e | Inr _ \<Rightarrow> Ok ?jid)" "st1 = st2"
        using run cr ok md ps Inr sc by (auto simp: dispatch_job_inner_def Let_def split: sum.splits)
      with schedule_new [OF _ _ pend sc] fresh upd' ps Inr show thesis
        by (auto intro: busy started)
    qed
  qed
qed

lemma budgeted_frame [simp]:
  "state (budgeted l m c) = state c" "user_id (budgeted l m c) = user_id c"
  "max_tokens (budgeted l m c) = job_max_tokens l m" "title (budgeted l m c) = title c"
  by (simp_all add: budgeted_def split: option.split)

lemma with_user_fields [simp]:
  "state (with_user f n u t d) = Pending" "user_id (with_user f n u t d) = u" "title (with_user f n u t d) = t"
  by (simp_all add: with_user_def)

lemma start_transition_frame [simp]:
  "user_id (snd (start_transition se w c)) = user_id c" "max_tokens (snd (start_transition se w c)) = max_tokens c"
  by (simp_all add: start_transition_def)

text \<open>What the metadata asks for.\<close>

definition requested_tokens :: "json option \<Rightarrow> u64 option" where
  "requested_tokens meta = Option.bind meta (\<lambda>m. Option.bind (jget m ''max_tokens'') json_as_u64)"

text \<open>
  A dispatch that returns an identifier has saved the job before starting it, and has left one worker
  for it with the given scope and the job in progress under its owner, with a token budget that is
  within the configured limit unless the request asks for a budget of zero. A dispatch that fails
  starts nothing.
\<close>

theorem dispatch_contract:
  assumes "dispatch_job_inner se uid ttl descr meta ap st = (res, st1)"
    and "map_of (ss_jobs st) (se_fresh se (ss_world st)) = None"
  shows "case res of
      Inl e \<Rightarrow> ss_jobs st1 = ss_jobs st
    | Inr jid \<Rightarrow> jid = se_fresh se (ss_world st) \<and> map_of (ss_jobs st1) jid = Some (spawned ap) \<and>
        (\<exists>c w c0. map_of (contexts (ss_contexts st1)) jid = Some c \<and>
           persist_job se c0 (ss_world st) = (Ok (), w) \<and> state c0 = Pending \<and> c = snd (start_transition se w c0) \<and>
           state c = InProgress \<and> user_id c = uid \<and>
           (se_max_tokens_per_job se = 0 \<or> requested_tokens meta = Some 0 \<or>
            0 < max_tokens c \<and> max_tokens c \<le> se_max_tokens_per_job se))"
  using assms
proof (cases rule: dispatch_cases)
  case (started c w)
  have "0 < job_max_tokens l meta \<and> job_max_tokens l meta \<le> l"
    if "l \<noteq> 0" "requested_tokens meta \<noteq> Some 0" for l
    using that by (auto simp: job_max_tokens_def requested_tokens_def word_neq_0_conv min_def split: option.splits)
  then have "se_max_tokens_per_job se = 0 \<or> requested_tokens meta = Some 0 \<or>
      0 < max_tokens c \<and> max_tokens c \<le> se_max_tokens_per_job se" using started(2) by auto
  moreover have "state c = Pending" "user_id c = uid" using started(2) by simp_all
  ultimately show ?thesis using started(1,3-5)
    by (auto simp: started_job intro!: exI [of _ w] exI [of _ c])
qed simp_all

theorem dispatch_contract_witness:
  "let (res, st1) = dispatch_job_inner demo_sched ''u'' ''t'' ''d'' None None (idle_state (new_manager 1) ()) in
   res = Ok 7 \<and> (\<exists>c. map_of (contexts (ss_contexts st1)) 7 = Some c \<and> state c = InProgress \<and>
      0 < max_tokens c \<and> max_tokens c \<le> 100)"
proof -
  let ?st = "idle_state (new_manager 1) () :: (unit, int) sched_state"
  let ?r = "dispatch_job_inner demo_sched ''u'' ''t'' ''d'' None None ?st"
  have ok: "fst ?r = Ok 7"
    by (simp add: dispatch_job_inner_def demo_sched_def idle_state_def create_job_for_user_def insert_context_def
        insert_phase_def memory_phase_def new_manager_def parallel_count_def with_user_def apply_metadata_def
        job_max_tokens_def update_context_and_get_def persist_job_def schedule_with_context_def update_context_def
        start_transition_def transition_to_def job_defs Let_def)
  have "?r = (fst ?r, snd ?r)" by simp
  from dispatch_contract [OF this] ok show ?thesis
    by (auto simp: demo_sched_def idle_state_def requested_tokens_def case_prod_beta)
qed

text \<open>
  The configured token limit does not bind a job whose metadata asks for zero tokens: the minimum of
  the two is zero, a zero budget is not stored, and a job without a stored budget is never refused
  tokens, whatever the limit.
\<close>

theorem zero_request_escapes_limit:
  assumes "dispatch_job_inner se uid ttl descr (Some (JObject [(''max_tokens'', JNumber ''0'')])) ap st = (Ok jid, st1)"
    and "map_of (ss_jobs st) (se_fresh se (ss_world st)) = None"
  shows "\<exists>c. map_of (contexts (ss_contexts st1)) jid = Some c \<and> max_tokens c = 0 \<and> fst (add_tokens k c) = Ok ()"
  using assms
proof (cases rule: dispatch_cases)
  case (started c w)
  have z: "requested_tokens (Some (JObject [(''max_tokens'', JNumber ''0'')])) = Some 0"
    by (simp add: requested_tokens_def jget_def json_as_u64_def) code_simp
  then have "job_max_tokens l (Some (JObject [(''max_tokens'', JNumber ''0'')])) = 0" for l
    by (simp add: job_max_tokens_def requested_tokens_def [symmetric])
  then show ?thesis using started by (simp add: add_tokens_def Let_def)
qed simp_all

text \<open>
  A dispatch that fails after the job was created leaves the job behind: it stays pending in the
  registry, where it holds an execution slot, it is not running, and stopping it does nothing. With a
  limit of one job no other job can be created from then on.
\<close>

theorem failed_dispatch_keeps_slot:
  assumes "dispatch_job_inner se uid ttl descr meta ap st = (Err (JobFailed jid why), st1)"
    and "map_of (ss_jobs st) (se_fresh se (ss_world st)) = None"
    and "max_jobs (ss_contexts st1) \<le> 1"
  shows "\<not> is_running jid st1 \<and> stop se jid st1 = (Ok (), st1) \<and>
         (\<exists>c. map_of (contexts (ss_contexts st1)) jid = Some c \<and> state c = Pending) \<and>
         fst (create_job_for_user f now u t d (ss_contexts st1)) = Err (MaxJobsExceeded (max_jobs (ss_contexts st1)))"
  using assms(1,2)
proof (cases rule: dispatch_cases)
  case (unsaved e c)
  have jid: "jid = se_fresh se (ss_world st)" using unsaved(1) by simp
  have pend: "map_of (contexts (ss_contexts st1)) jid = Some c" "state c = Pending" using unsaved(2,5) jid by simp_all
  then have "parallel_count (ss_contexts st1) \<noteq> 0"
    by (auto simp: parallel_count_def hm_count_def filter_empty_conv job_defs dest!: map_of_SomeD intro!: bexI)
  with assms(3) have "fst (create_job_for_user f now u t d (ss_contexts st1)) = Err (MaxJobsExceeded (max_jobs (ss_contexts st1)))"
    by (simp add: create_job_for_user_def insert_context_def insert_phase_def Let_def)
  then show ?thesis using pend unsaved(4) assms(2) jid by (simp add: is_running_def stop_def)
qed simp_all

subsection \<open>Subtasks\<close>

lemma length_spawn_tasks: "length (fst (spawn_tasks tids parent i ts st)) = length ts"
  by (induction tids parent i ts st rule: spawn_tasks.induct) (auto split: prod.splits sum.splits)

lemma spawn_tasks_receivers:
  "k < length ts \<Longrightarrow> fst (spawn_tasks tids parent i ts st) ! k = None \<longleftrightarrow> (\<exists>a b c. ts ! k = TaskJob a b c)"
proof (induction tids parent i ts st arbitrary: k rule: spawn_tasks.induct)
  case (2 tids parent i t ts st)
  then show ?case
    by (cases k; cases t) (auto simp: spawn_subtask_def split: prod.splits)
qed simp

lemma spawn_tasks_frame:
  "ss_contexts (snd (spawn_tasks tids parent i ts st)) = ss_contexts st"
  by (induction tids parent i ts st rule: spawn_tasks.induct)
     (auto simp: spawn_subtask_def split: prod.splits sum.splits task_kind.splits)

lemma run_subtasks_length: "length (fst (run_subtasks se tids parent ts is' slots st)) = length slots"
  by (induction se tids parent ts is' slots st rule: run_subtasks.induct) (auto split: option.splits prod.splits)

lemma run_subtasks_other:
  "k \<notin> set is' \<Longrightarrow> fst (run_subtasks se tids parent ts is' slots st) ! k = slots ! k"
  by (induction se tids parent ts is' slots st rule: run_subtasks.induct) (auto split: option.splits prod.splits)

lemma run_subtasks_slot:
  assumes "k \<in> set is'" "k < length ts" "length slots = length ts"
    and "subtask_body se (ss_contexts st) (tids k) parent (ts ! k) = Some run"
  shows "\<exists>w. fst (run_subtasks se tids parent ts is' slots st) ! k = Some (fst (run w))"
  using assms
proof (induction se tids parent ts is' slots st rule: run_subtasks.induct)
  case (2 se tids parent ts i is' slots st)
  show ?case
  proof (cases "k \<in> set is'")
    case True
    with 2 show ?thesis by (auto split: option.splits prod.splits)
  next
    case False
    with 2 have "i = k" by simp
    with 2 False show ?thesis
      by (auto simp: run_subtasks_other split: prod.splits) (metis fst_conv)
  qed
qed simp

text \<open>
  The results of a batch are in the order of its tasks, whatever order they finish in: one result per
  task, a finished task has what it computed, a job is refused and a task that does not finish is an
  error.
\<close>

theorem batch_results_in_order:
  assumes "spawn_batch se tids order parent ts st = (rs, st1)" "k < length ts"
  shows "length rs = length ts \<and>
    (case subtask_body se (ss_contexts st) (tids k) parent (ts ! k) of
       None \<Rightarrow> rs ! k = Err (JobErr (ContextError parent ''Subtask failed to spawn''))
     | Some run \<Rightarrow>
         if k \<in> set order then \<exists>w. rs ! k = fst (run w)
         else rs ! k = Err (JobErr (ContextError parent ''Subtask channel closed unexpectedly'')))"
proof -
  obtain recs st2 slots st3 where sp: "spawn_tasks tids parent 0 ts st = (recs, st2)"
    and rn: "run_subtasks se tids parent ts order (replicate (length ts) None) st2 = (slots, st3)" by fastforce
  have rs: "rs = map2 (batch_result parent) recs slots"
    using assms sp rn by (auto simp: spawn_batch_def split: if_splits)
  have len: "length recs = length ts" "length slots = length ts"
    using length_spawn_tasks [of tids parent 0 ts st] run_subtasks_length [of se tids parent ts order _ st2] sp rn
    by (auto, metis fst_conv length_replicate)
  have cm: "ss_contexts st2 = ss_contexts st" using spawn_tasks_frame [of tids parent 0 ts st] sp by simp
  have rk: "rs ! k = batch_result parent (recs ! k) (slots ! k)" and lrs: "length rs = length ts"
    using rs len assms(2) by simp_all
  have none: "recs ! k = None \<longleftrightarrow> subtask_body se (ss_contexts st) (tids k) parent (ts ! k) = None"
    using spawn_tasks_receivers [OF assms(2), of tids parent 0 st] sp by (auto simp: subtask_body_def split: task_kind.splits)
  show ?thesis
  proof (cases "subtask_body se (ss_contexts st) (tids k) parent (ts ! k)")
    case None
    then show ?thesis using none lrs by (simp add: rk batch_result_def)
  next
    case (Some run)
    then have "recs ! k \<noteq> None" using none by simp
    moreover have "slots ! k = None" if "k \<notin> set order"
      using run_subtasks_other [OF that, of se tids parent ts "replicate (length ts) None" st2] rn assms(2) by simp
    moreover have "\<exists>w. slots ! k = Some (fst (run w))" if "k \<in> set order"
      using run_subtasks_slot [OF that assms(2), of "replicate (length ts) None" se st2 tids parent run] Some cm rn by simp
    ultimately show ?thesis using Some lrs by (auto simp: rk batch_result_def, blast)
  qed
qed

text \<open>A tool that needs an approval it does not have, or whose job is cancelled, does not run as a subtask.\<close>

lemma tool_task_guarded:
  assumes "ev_lookup (se_exec se) w n = Some t" "get_context jid cm = Ok c"
    and "state c = Cancelled \<or> is_blocked_or_default ap n (requires_approval t (normalized_params (se_exec se) t p))"
  shows "\<exists>e. execute_tool_task se cm ap jid n p w = (Err (ToolErr e), w)"
  using assms by (auto simp: execute_tool_task_def Let_def)

theorem batch_results_in_order_witness:
  "fst (spawn_batch demo_sched (\<lambda>i. i) [1, 0] 9
      [TaskJob 1 ''a'' ''b'', ToolExec 5 ''missing'' JNull] (idle_state (new_manager 1) ())) ! 1
     = Err (ToolErr (NotFoundTool ''missing''))"
proof -
  let ?ts = "[TaskJob 1 ''a'' ''b'', ToolExec 5 ''missing'' JNull] :: unit task_kind list"
  let ?b = "spawn_batch demo_sched (\<lambda>i. i) [1, 0] 9 ?ts (idle_state (new_manager 1) ())"
  have "?b = (fst ?b, snd ?b)" by simp
  from batch_results_in_order [OF this, of 1] show ?thesis
    by (auto simp: subtask_body_def execute_tool_task_def demo_sched_def demo_exec_def)
qed

end
