(* ===== verification/Job_Commands.thy ===== *)
theory Job_Commands
  imports Approval Compaction Scheduler
begin

text \<open>
  The commands of \<open>src/agent/commands.rs\<close>: creating, checking, cancelling, listing and helping jobs, the
  thread commands \<open>/summarize\<close> and \<open>/suggest\<close>, the heartbeat command and the system commands, with the
  dispatch from the intents of the router.

  The queries of the database, the printers of times and amounts, the registries of tools and skills,
  the catalog and the model list are parameters. The lemmas show who may act on a job, where the
  database path answers more than it should, what cancelling and helping really do, and when a restart
  can happen.
\<close>

subsection \<open>Environment\<close>

record agent_job_summary =
  as_total :: nat
  as_in_progress :: nat
  as_completed :: nat
  as_failed :: nat
  as_stuck :: nat

record sandbox_job_summary =
  sb_total :: nat
  sb_running :: nat
  sb_completed :: nat
  sb_failed :: nat
  sb_interrupted :: nat

record job_row =
  jr_id :: uuid
  jr_title :: string
  jr_status :: string
  jr_user_id :: string

record ('w, 'd) job_queries =
  jq_get_job :: "uuid \<Rightarrow> 'w \<Rightarrow> (string, 'd job_context option) result"
  jq_agent_job_summary :: "'w \<Rightarrow> (string, agent_job_summary) result"
  jq_sandbox_job_summary :: "'w \<Rightarrow> (string, sandbox_job_summary) result"
  jq_list_agent_jobs :: "'w \<Rightarrow> (string, job_row list) result"
  jq_list_sandbox_jobs :: "'w \<Rightarrow> (string, job_row list) result"

text \<open>The nil identifier is zero.\<close>

record ('w, 'd) job_cmd_env =
  jc_sched :: "('w, 'd) sched_env"
  jc_queries :: "('w, 'd) job_queries option"
  jc_parse_uuid :: "string \<Rightarrow> uuid option"
  jc_render :: "uuid \<Rightarrow> string"
  jc_time :: "datetime \<Rightarrow> string"
  jc_amount :: "'d \<Rightarrow> string"

definition format_count :: "nat \<Rightarrow> string \<Rightarrow> string" where
  "format_count n sfx =
     (if 1000000 \<le> n then show_fixed1 (f64_div (f64_of_nat n) 1000000) @ ''M '' @ sfx
      else if 1000 \<le> n then show_fixed1 (f64_div (f64_of_nat n) 1000) @ ''K '' @ sfx
      else show_nat n @ '' '' @ sfx)"

fun debug_job_state :: "JobState \<Rightarrow> string" where
  "debug_job_state Pending = ''Pending''"
| "debug_job_state InProgress = ''InProgress''"
| "debug_job_state Completed = ''Completed''"
| "debug_job_state Submitted = ''Submitted''"
| "debug_job_state Accepted = ''Accepted''"
| "debug_job_state Failed = ''Failed''"
| "debug_job_state Stuck = ''Stuck''"
| "debug_job_state Cancelled = ''Cancelled''"

subsection \<open>Jobs\<close>

definition set_category :: "uuid \<Rightarrow> string option \<Rightarrow> ('w, 'd) sched_state \<Rightarrow> ('w, 'd) sched_state" where
  "set_category jid cat st =
     (case cat of
        None \<Rightarrow> st
      | Some c \<Rightarrow> st\<lparr>ss_contexts := snd (update_context jid (\<lambda>x. ((), x\<lparr>category := Some c\<rparr>)) (ss_contexts st))\<rparr>)"

definition handle_create_job ::
  "('w, 'd::zero) job_cmd_env \<Rightarrow> string \<Rightarrow> string \<Rightarrow> string \<Rightarrow> string option \<Rightarrow> ('w, 'd) sched_state
     \<Rightarrow> (Error, string) result \<times> ('w, 'd) sched_state" where
  "handle_create_job je uid ttl descr cat st =
     (case dispatch_job (jc_sched je) uid ttl descr None st of
        (Inl e, st1) \<Rightarrow> (Err (JobErr e), st1)
      | (Inr jid, st1) \<Rightarrow>
          (Ok (''Created job: '' @ ttl @ NLs @ ''ID: '' @ jc_render je jid @ NLs @ NLs @
               ''The job has been scheduled and is now running.''), set_category jid cat st1))"

definition job_report :: "('w, 'd) job_cmd_env \<Rightarrow> 'd job_context \<Rightarrow> string" where
  "job_report je c =
     ''Job: '' @ title c @ NLs @ ''Status: '' @ debug_job_state (state c) @ NLs @
     ''Created: '' @ jc_time je (created_at c) @ NLs @
     ''Started: '' @ (case started_at c of Some t \<Rightarrow> jc_time je t | None \<Rightarrow> ''Not started'') @ NLs @
     ''Actual cost: '' @ jc_amount je (actual_cost c)"

definition jobs_summary_text :: "nat \<Rightarrow> nat \<Rightarrow> nat \<Rightarrow> nat \<Rightarrow> nat \<Rightarrow> string" where
  "jobs_summary_text t ip c f s =
     ''Jobs summary: Total: '' @ show_nat t @ '' In Progress: '' @ show_nat ip @ '' Completed: '' @ show_nat c @
     '' Failed: '' @ show_nat f @ '' Stuck: '' @ show_nat s"

definition db_summary :: "('w, 'd) job_queries \<Rightarrow> 'w \<Rightarrow> string" where
  "db_summary q w =
     (let a = (case jq_agent_job_summary q w of Inr s \<Rightarrow> s
                 | Inl _ \<Rightarrow> \<lparr>as_total = 0, as_in_progress = 0, as_completed = 0, as_failed = 0, as_stuck = 0\<rparr>);
          b = (case jq_sandbox_job_summary q w of Inr s \<Rightarrow> s
                 | Inl _ \<Rightarrow> \<lparr>sb_total = 0, sb_running = 0, sb_completed = 0, sb_failed = 0, sb_interrupted = 0\<rparr>) in
      jobs_summary_text (as_total a + sb_total b) (as_in_progress a + sb_running b) (as_completed a + sb_completed b)
        (as_failed a + (sb_failed b + sb_interrupted b)) (as_stuck a))"

definition parse_job_id :: "('w, 'd) job_cmd_env \<Rightarrow> string \<Rightarrow> (Error, uuid) result" where
  "parse_job_id je s = (case jc_parse_uuid je s of Some i \<Rightarrow> Ok i | None \<Rightarrow> Err (JobErr (JobError.NotFound 0)))"

text \<open>The context of a job, for its owner.\<close>

definition owned_context :: "string \<Rightarrow> uuid \<Rightarrow> ('w, 'd) sched_state \<Rightarrow> (Error, 'd job_context) result" where
  "owned_context uid jid st =
     (case get_context jid (ss_contexts st) of
        Inl e \<Rightarrow> Err (JobErr e)
      | Inr c \<Rightarrow> if user_id c \<noteq> uid then Err (JobErr (JobError.NotFound jid)) else Ok c)"

definition handle_check_status ::
  "('w, 'd) job_cmd_env \<Rightarrow> string \<Rightarrow> string option \<Rightarrow> ('w, 'd) sched_state \<Rightarrow> (Error, string) result" where
  "handle_check_status je uid jid st =
     (case jid of
        Some s \<Rightarrow>
          (case parse_job_id je s of
             Inl e \<Rightarrow> Err e
           | Inr i \<Rightarrow>
               let from_registry = (case owned_context uid i st of Inl e \<Rightarrow> Err e | Inr c \<Rightarrow> Ok (job_report je c)) in
               (case jc_queries je of
                  None \<Rightarrow> from_registry
                | Some q \<Rightarrow>
                    (case jq_get_job q i (ss_world st) of
                       Inr (Some c) \<Rightarrow> Ok (job_report je c)
                     | _ \<Rightarrow> from_registry)))
      | None \<Rightarrow>
          (case jc_queries je of
             Some q \<Rightarrow> Ok (db_summary q (ss_world st))
           | None \<Rightarrow>
               let s = summary_for uid (ss_contexts st) in
               Ok (jobs_summary_text (total s) (n_in_progress s) (n_completed s) (n_failed s) (n_stuck s))))"

definition handle_cancel_job ::
  "('w, 'd) job_cmd_env \<Rightarrow> string \<Rightarrow> string \<Rightarrow> ('w, 'd) sched_state \<Rightarrow> (Error, string) result \<times> ('w, 'd) sched_state" where
  "handle_cancel_job je uid s st =
     (case parse_job_id je s of
        Inl e \<Rightarrow> (Err e, st)
      | Inr i \<Rightarrow>
      case owned_context uid i st of
        Inl e \<Rightarrow> (Err e, st)
      | Inr _ \<Rightarrow>
      case stop (jc_sched je) i st of
        (Inl e, st1) \<Rightarrow> (Err (JobErr e), st1)
      | (Inr _, st1) \<Rightarrow>
          (Ok (''Job '' @ s @ '' has been cancelled.''),
           st1\<lparr>ss_world := record_status (jc_sched je) i Cancelled (Some ''Cancelled by user'') (ss_world st1)\<rparr>))"

definition list_line :: "string \<Rightarrow> string \<Rightarrow> string \<Rightarrow> string" where
  "list_line i t s = ''  '' @ i @ '' - '' @ t @ '' ('' @ s @ '')'' @ NLs"

definition rows_or_empty :: "(string, job_row list) result \<Rightarrow> job_row list" where
  "rows_or_empty r = (case r of Inr rows \<Rightarrow> rows | Inl _ \<Rightarrow> [])"

definition handle_list_jobs :: "('w, 'd) job_cmd_env \<Rightarrow> string \<Rightarrow> string option \<Rightarrow> ('w, 'd) sched_state \<Rightarrow> (Error, string) result" where
  "handle_list_jobs je uid filter_by st =
     (case jc_queries je of
        Some q \<Rightarrow>
          let rows = rows_or_empty (jq_list_agent_jobs q (ss_world st)) @ rows_or_empty (jq_list_sandbox_jobs q (ss_world st)) in
          if rows = [] then Ok ''No jobs found.''
          else Ok (''Jobs:'' @ NLs @ concat (map (\<lambda>r. list_line (jc_render je (jr_id r)) (jr_title r) (jr_status r)) rows))
      | None \<Rightarrow>
          let jobs = all_jobs_for uid (ss_contexts st) in
          if jobs = [] then Ok ''No jobs found.''
          else Ok (''Jobs:'' @ NLs @ concat (map (\<lambda>i.
                 case get_context i (ss_contexts st) of
                   Inr c \<Rightarrow> list_line (jc_render je i) (title c) (debug_job_state (state c))
                 | Inl _ \<Rightarrow> []) jobs)))"

definition handle_help_job ::
  "('w, 'd) job_cmd_env \<Rightarrow> string \<Rightarrow> string \<Rightarrow> ('w, 'd) sched_state \<Rightarrow> (Error, string) result \<times> ('w, 'd) sched_state" where
  "handle_help_job je uid s st =
     (case parse_job_id je s of
        Inl e \<Rightarrow> (Err e, st)
      | Inr i \<Rightarrow>
      case owned_context uid i st of
        Inl e \<Rightarrow> (Err e, st)
      | Inr c \<Rightarrow>
      if state c = Stuck
      then let now = se_now (jc_sched je) (ss_world st) in
        (case update_context i (attempt_recovery now now) (ss_contexts st) of
           (Inl e, cm) \<Rightarrow> (Err (JobErr e), st\<lparr>ss_contexts := cm\<rparr>)
         | (Inr (Inl r), cm) \<Rightarrow> (Err (JobErr (ContextError i r)), st\<lparr>ss_contexts := cm\<rparr>)
         | (Inr (Inr _), cm) \<Rightarrow>
             (case schedule (jc_sched je) i (st\<lparr>ss_contexts := cm\<rparr>) of
                (Inl e, st1) \<Rightarrow> (Err (JobErr e), st1)
              | (Inr _, st1) \<Rightarrow>
                  (Ok (''Job '' @ s @ '' was stuck. Attempting recovery (attempt #'' @
                       show_nat (unat (repair_attempts c + 1)) @ '').''), st1)))
      else (Ok (''Job '' @ s @ '' is not stuck (current state: '' @ debug_job_state (state c) @ ''). No help needed.''), st))"

definition process_job_status ::
  "('w, 're) approval_env \<Rightarrow> ('w, 'd) job_cmd_env \<Rightarrow> string \<Rightarrow> string option \<Rightarrow> ('w, 'd) sched_state \<Rightarrow> SubmissionResult" where
  "process_job_status ae je uid jid st =
     (case handle_check_status je uid jid st of
        Inr s \<Rightarrow> Response s
      | Inl e \<Rightarrow> SrError (''Job status error: '' @ show_error ae e))"

definition process_job_cancel ::
  "('w, 're) approval_env \<Rightarrow> ('w, 'd) job_cmd_env \<Rightarrow> string \<Rightarrow> string \<Rightarrow> ('w, 'd) sched_state
     \<Rightarrow> SubmissionResult \<times> ('w, 'd) sched_state" where
  "process_job_cancel ae je uid jid st =
     (case handle_cancel_job je uid jid st of
        (Inr s, st1) \<Rightarrow> (Response s, st1)
      | (Inl e, st1) \<Rightarrow> (SrError (''Cancel error: '' @ show_error ae e), st1))"

subsection \<open>Heartbeat, summaries and suggestions\<close>

datatype HeartbeatResult = HbOk | HbNeedsAttention string | HbSkipped | HbFailed string

definition process_heartbeat :: "('w \<Rightarrow> HeartbeatResult \<times> 'w) option \<Rightarrow> 'w \<Rightarrow> SubmissionResult \<times> 'w" where
  "process_heartbeat check w =
     (case check of
        None \<Rightarrow> (SrError ''Heartbeat requires a workspace (database must be connected).'', w)
      | Some run \<Rightarrow>
          (case run w of (r, w1) \<Rightarrow>
             (case r of
                HbOk \<Rightarrow> ok_with_message ''Heartbeat: all clear, nothing needs attention.''
              | HbNeedsAttention msg \<Rightarrow> Response (''Heartbeat findings:'' @ NLs @ NLs @ msg)
              | HbSkipped \<Rightarrow> ok_with_message ''Heartbeat skipped: no HEARTBEAT.md checklist found in workspace.''
              | HbFailed err \<Rightarrow> SrError (''Heartbeat failed: '' @ err), w1)))"

text \<open>Asking the model about the last twenty messages of a thread; \<open>f32\<close> bit patterns of 0.3 and 0.5.\<close>

definition ask_about_thread ::
  "('w, 're) approval_env \<Rightarrow> string \<Rightarrow> string \<Rightarrow> u32 \<Rightarrow> string \<Rightarrow> string \<Rightarrow> string \<Rightarrow> thread \<Rightarrow> 'w \<Rightarrow> SubmissionResult \<times> 'w" where
  "ask_about_thread ae prompt question temp empty_text heading what th w =
     (let ms = thread_messages (ap_json ae) th in
      if ms = [] then (ok_with_message empty_text, w)
      else
        let start = (if 20 < length ms then length ms - 20 else 0);
            req = with_temperature temp (with_max_tokens 512
                    (new_request (system_msg prompt # drop start ms @ [user_msg question]))) in
        case reasoning_complete (ce_re (ap_chat ae)) (ce_llm (ap_chat ae)) req w of
          (Inr (t, _), w1) \<Rightarrow> (Response (heading @ NLs @ NLs @ trim_str t), w1)
        | (Inl e, w1) \<Rightarrow> (SrError (what @ '' failed: '' @ show_llm_error (ev_fmto (ce_exec (ap_chat ae))) e), w1))"

definition SUMMARIZE_PROMPT :: string where
  "SUMMARIZE_PROMPT = ''Summarize the conversation so far in 3-5 concise bullet points. '' @
     ''Focus on decisions made, actions taken, and key outcomes. '' @ ''Be brief and factual.''"

definition SUGGEST_PROMPT :: string where
  "SUGGEST_PROMPT = ''Based on the conversation so far, suggest 2-4 concrete next steps the user could take. '' @
     ''Be actionable and specific. Format as a numbered list.''"

definition process_summarize ::
  "('w, 're) approval_env \<Rightarrow> session \<Rightarrow> 'w \<Rightarrow> (Error, SubmissionResult) result \<times> 'w" where
  "process_summarize ae sess w =
     (case map_of (threads sess) (ap_thread_id ae) of
        None \<Rightarrow> (Err (JobErr (JobError.NotFound (ap_thread_id ae))), w)
      | Some th \<Rightarrow>
          (case ask_about_thread ae SUMMARIZE_PROMPT ''Summarize this conversation.'' 0x3E99999A
                  ''Nothing to summarize (empty thread).'' ''Thread Summary:'' ''Summarize'' th w of
             (r, w1) \<Rightarrow> (Ok r, w1)))"

definition process_suggest ::
  "('w, 're) approval_env \<Rightarrow> session \<Rightarrow> 'w \<Rightarrow> (Error, SubmissionResult) result \<times> 'w" where
  "process_suggest ae sess w =
     (case map_of (threads sess) (ap_thread_id ae) of
        None \<Rightarrow> (Err (JobErr (JobError.NotFound (ap_thread_id ae))), w)
      | Some th \<Rightarrow>
          (case ask_about_thread ae SUGGEST_PROMPT ''What should I do next?'' 0x3F000000
                  ''Nothing to suggest from (empty thread).'' ''Suggested Next Steps:'' ''Suggest'' th w of
             (r, w1) \<Rightarrow> (Ok r, w1)))"

subsection \<open>System commands\<close>

record skill_listing =
  sl_name :: string
  sl_version :: string
  sl_trust :: SkillTrust
  sl_description :: string

record catalog_entry =
  ca_name :: string
  ca_version :: string
  ca_description :: string
  ca_owner :: "string option"
  ca_stars :: "nat option"
  ca_downloads :: "nat option"

text \<open>
  The registry of skills is \<open>None\<close> when it is not enabled, an error when its lock is poisoned.
  \<open>sy_search\<close> is the catalog search with the details of the first five results.
\<close>

record 'w system_env =
  sy_in_docker :: "'w \<Rightarrow> bool"
  sy_restart :: "'w \<Rightarrow> (string, json) result \<times> 'w"
  sy_json :: "json \<Rightarrow> string"
  sy_lower :: "string \<Rightarrow> string"
  sy_name_version :: "string \<times> string"
  sy_tools :: "'w \<Rightarrow> string list"
  sy_skills :: "'w \<Rightarrow> (string, skill_listing list) result option"
  sy_search :: "(string \<Rightarrow> 'w \<Rightarrow> catalog_entry list \<times> string option \<times> 'w) option"
  sy_model :: "'w \<Rightarrow> string"
  sy_list_models :: "('w, string list) llm_call"
  sy_set_model :: "string \<Rightarrow> ('w, unit) llm_call"
  sy_persist_model :: "string \<Rightarrow> 'w \<Rightarrow> 'w"
  sy_fmto :: "duration option \<Rightarrow> string"

definition HELP_TEXT :: string where
  "HELP_TEXT = join_str NLs
    [''System:'', ''  /help             Show this help'', ''  /model [name]     Show or switch the active model'',
     ''  /version          Show version info'', ''  /tools            List available tools'',
     ''  /debug            Toggle debug mode'', ''  /ping             Connectivity check'', '''',
     ''Jobs:'', ''  /job <desc>       Create a new job'', ''  /status [id]      Check job status'',
     ''  /cancel <id>      Cancel a job'', ''  /list             List all jobs'', '''',
     ''Session:'', ''  /undo             Undo last turn'', ''  /redo             Redo undone turn'',
     ''  /compact          Compress context window'', ''  /clear            Clear current thread'',
     ''  /interrupt        Stop current operation'', ''  /new              New conversation thread'',
     ''  /thread <id>      Switch to thread'', ''  /resume <id>      Resume from checkpoint'', '''',
     ''Skills:'', ''  /skills             List installed skills'', ''  /skills search <q>  Search ClawHub registry'', '''',
     ''Agent:'', ''  /heartbeat        Run heartbeat check'', ''  /summarize        Summarize current thread'',
     ''  /suggest          Suggest next steps'', ''  /restart          Gracefully restart the process'', '''',
     ''  /quit             Exit'']"

definition pad_right :: "nat \<Rightarrow> string \<Rightarrow> string" where
  "pad_right n s = s @ replicate (n - length (str_chars s)) CHR '' ''"

fun show_trust :: "SkillTrust \<Rightarrow> string" where
  "show_trust Installed = ''installed''"
| "show_trust Trusted = ''trusted''"

definition skill_line :: "skill_listing \<Rightarrow> string" where
  "skill_line s = ''  '' @ pad_right 24 (sl_name s) @ '' v'' @ pad_right 10 (sl_version s) @ '' ['' @ show_trust (sl_trust s) @ '']''"

definition short_description :: "string \<Rightarrow> string" where
  "short_description d = (if 60 < length (str_chars d) then concat (take 57 (str_chars d)) @ ''...'' else d)"

definition handle_skills_list :: "'w system_env \<Rightarrow> 'w \<Rightarrow> SubmissionResult" where
  "handle_skills_list sy w =
     (case sy_skills sy w of
        None \<Rightarrow> SrError ''Skills system not enabled.''
      | Some (Inl e) \<Rightarrow> SrError (''Skill registry lock error: '' @ e)
      | Some (Inr []) \<Rightarrow>
          Response (''No skills installed.'' @ NLs @ NLs @ ''Use /skills search <query> to find skills on ClawHub.'')
      | Some (Inr skills) \<Rightarrow>
          Response (''Installed skills:'' @ NLs @ NLs @
            concat (map (\<lambda>s. skill_line s @ ''  '' @ short_description (sl_description s) @ NLs) skills) @
            NLs @ ''Use /skills search <query> to find more on ClawHub.''))"

definition entry_text :: "catalog_entry \<Rightarrow> string" where
  "entry_text e =
     (let owner_str = (case ca_owner e of Some ow \<Rightarrow> ''  by '' @ ow | None \<Rightarrow> []);
          stats = (case ca_stars e of Some n \<Rightarrow> [show_nat n @ '' stars''] | None \<Rightarrow> []) @
                  (case ca_downloads e of Some n \<Rightarrow> [format_count n ''downloads''] | None \<Rightarrow> []);
          stats_str = (if stats = [] then [] else ''  '' @ join_str ''  '' stats) in
      ''  '' @ pad_right 24 (ca_name e) @ '' v'' @ pad_right 10 (ca_version e) @ owner_str @ stats_str @ NLs @
      (if ca_description e = [] then [] else ''    '' @ ca_description e @ NLs @ NLs))"

definition dquoted :: "string \<Rightarrow> string" where "dquoted s = [CHR 0x22] @ s @ [CHR 0x22]"

definition matching_skills :: "'w system_env \<Rightarrow> string \<Rightarrow> 'w \<Rightarrow> skill_listing list" where
  "matching_skills sy query w =
     (case sy_skills sy w of
        Some (Inr skills) \<Rightarrow>
          filter (\<lambda>s. contains_str (sy_lower sy (sl_name s)) (sy_lower sy query)
                    \<or> contains_str (sy_lower sy (sl_description s)) (sy_lower sy query)) skills
      | _ \<Rightarrow> [])"

definition handle_skills_search :: "'w system_env \<Rightarrow> string \<Rightarrow> 'w \<Rightarrow> SubmissionResult \<times> 'w" where
  "handle_skills_search sy query w =
     (case sy_search sy of
        None \<Rightarrow> (SrError ''Skill catalog not available.'', w)
      | Some search \<Rightarrow>
          (case search query w of (entries, err, w1) \<Rightarrow>
             let found = (if entries = []
                   then (case err of Some e \<Rightarrow> ''  (registry error: '' @ e @ '')'' @ NLs | None \<Rightarrow> ''  No results found.'' @ NLs)
                   else concat (map entry_text entries));
                 mine = matching_skills sy query w1;
                 installed = (if mine = [] then []
                   else ''Installed skills matching '' @ dquoted query @ '':'' @ NLs @ concat (map (\<lambda>s. skill_line s @ NLs) mine)) in
             (Response (''ClawHub results for '' @ dquoted query @ '':'' @ NLs @ NLs @ found @ installed), w1)))"

definition show_models :: "'w system_env \<Rightarrow> 'w \<Rightarrow> SubmissionResult \<times> 'w" where
  "show_models sy w =
     (let current = sy_model sy w; out = ''Active model: '' @ current @ NLs in
      case sy_list_models sy w of
        (Inr [], w1) \<Rightarrow>
          (Response (out @ NLs @ ''Could not fetch model list. Use /model <name> to switch.''), w1)
      | (Inr models, w1) \<Rightarrow>
          (Response (out @ NLs @ ''Available models:'' @ NLs @
             concat (map (\<lambda>m. ''  '' @ m @ (if m = current then '' (active)'' else []) @ NLs) models) @
             NLs @ ''Use /model <name> to switch.''), w1)
      | (Inl e, w1) \<Rightarrow>
          (Response (out @ NLs @ ''Could not fetch models: '' @ show_llm_error (sy_fmto sy) e @
             ''. Use /model <name> to switch.''), w1))"

definition switch_model :: "'w system_env \<Rightarrow> string \<Rightarrow> 'w \<Rightarrow> SubmissionResult \<times> 'w" where
  "switch_model sy requested w =
     (case sy_list_models sy w of (models, w1) \<Rightarrow>
      if (case models of Inr ms \<Rightarrow> ms \<noteq> [] \<and> requested \<notin> set ms | Inl _ \<Rightarrow> False)
      then (SrError (''Unknown model: '' @ requested @ ''. Available models:'' @ NLs @ ''  '' @
              join_str (NLs @ ''  '') (case models of Inr ms \<Rightarrow> ms | Inl _ \<Rightarrow> [])), w1)
      else (case sy_set_model sy requested w1 of
              (Inr _, w2) \<Rightarrow> (Response (''Switched model to: '' @ requested), sy_persist_model sy requested w2)
            | (Inl e, w2) \<Rightarrow> (SrError (''Failed to switch model: '' @ show_llm_error (sy_fmto sy) e), w2)))"

definition restart_command :: "'w system_env \<Rightarrow> string \<Rightarrow> 'w \<Rightarrow> SubmissionResult \<times> 'w" where
  "restart_command sy channel w =
     (if channel \<noteq> ''gateway''
      then (SrError (''Restart is only available through the web interface with explicit user confirmation. '' @
                     ''Use the Restart button in the UI.''), w)
      else if \<not> sy_in_docker sy w
      then (SrError (''Restart is not available in this environment. '' @
              ''The IRONCLAW_IN_DOCKER environment variable must be set to '' @ [CHR 0x27] @ ''true'' @ [CHR 0x27] @
              '' for Docker deployments.''), w)
      else case sy_restart sy w of
             (Inr v, w1) \<Rightarrow> (Response (case v of JString s \<Rightarrow> s | other \<Rightarrow> sy_json sy other), w1)
           | (Inl e, w1) \<Rightarrow> (SrError (''Restart failed: '' @ e), w1))"

definition skills_command :: "'w system_env \<Rightarrow> string list \<Rightarrow> 'w \<Rightarrow> SubmissionResult \<times> 'w" where
  "skills_command sy args w =
     (case args of
        [] \<Rightarrow> (handle_skills_list sy w, w)
      | a # rest \<Rightarrow>
          if a = ''search''
          then let query = join_str '' '' rest in
               if query = [] then (SrError ''Usage: /skills search <query>'', w) else handle_skills_search sy query w
          else (SrError ''Usage: /skills or /skills search <query>'', w))"

definition handle_system_command ::
  "'w system_env \<Rightarrow> string \<Rightarrow> string list \<Rightarrow> string \<Rightarrow> 'w \<Rightarrow> SubmissionResult \<times> 'w" where
  "handle_system_command sy command args channel w =
     (if command = ''help'' then (Response HELP_TEXT, w)
      else if command = ''ping'' then (Response ''pong!'', w)
      else if command = ''restart'' then restart_command sy channel w
      else if command = ''version''
      then (Response (fst (sy_name_version sy) @ '' v'' @ snd (sy_name_version sy)), w)
      else if command = ''tools'' then (Response (''Available tools: '' @ join_str '', '' (sy_tools sy w)), w)
      else if command = ''debug'' then (ok_with_message ''Debug toggle is handled by your client.'', w)
      else if command = ''skills'' then skills_command sy args w
      else if command = ''model'' then (case args of [] \<Rightarrow> show_models sy w | m # _ \<Rightarrow> switch_model sy m w)
      else (SrError (''Unknown command: '' @ command @ ''. Try /help''), w))"

definition handle_command ::
  "'w system_env \<Rightarrow> string \<Rightarrow> string list \<Rightarrow> string \<Rightarrow> 'w \<Rightarrow> string option \<times> 'w" where
  "handle_command sy command args channel w =
     (case handle_system_command sy command args channel w of (r, w1) \<Rightarrow>
        (case r of
           Response s \<Rightarrow> Some s
         | SrOk m \<Rightarrow> m
         | SrError m \<Rightarrow> Some (''Error: '' @ m)
         | _ \<Rightarrow> None, w1))"

subsection \<open>Intents\<close>

definition handle_job_or_command ::
  "('w, 'd::zero) job_cmd_env \<Rightarrow> 'w system_env \<Rightarrow> MessageIntent \<Rightarrow> string \<Rightarrow> string \<Rightarrow> ('w, 'd) sched_state
     \<Rightarrow> (Error, SubmissionResult) result \<times> ('w, 'd) sched_state" where
  "handle_job_or_command je sy intent uid channel st =
     (let respond = (\<lambda>(r :: (Error, string) result). case r of Inl e \<Rightarrow> Err e | Inr s \<Rightarrow> Ok (Response s)) in
      case intent of
        CreateJob ttl descr cat \<Rightarrow> (case handle_create_job je uid ttl descr cat st of (r, st1) \<Rightarrow> (respond r, st1))
      | CheckJobStatus jid \<Rightarrow> (respond (handle_check_status je uid jid st), st)
      | CancelJob jid \<Rightarrow> (case handle_cancel_job je uid jid st of (r, st1) \<Rightarrow> (respond r, st1))
      | ListJobs flt \<Rightarrow> (respond (handle_list_jobs je uid flt st), st)
      | HelpJob jid \<Rightarrow> (case handle_help_job je uid jid st of (r, st1) \<Rightarrow> (respond r, st1))
      | CommandIntent command args \<Rightarrow>
          (case handle_command sy command args channel (ss_world st) of
             (Some s, w1) \<Rightarrow> (Ok (Response s), st\<lparr>ss_world := w1\<rparr>)
           | (None, w1) \<Rightarrow> (Ok (SrOk None), st\<lparr>ss_world := w1\<rparr>))
      | _ \<Rightarrow> (Ok (Response ''Unknown intent''), st))"

subsection \<open>Who may act on a job\<close>

text \<open>
  A user cannot cancel, help or, without a database, see another user's job: the commands answer as if
  the job did not exist and change nothing.
\<close>

theorem foreign_jobs_untouched:
  assumes "jc_parse_uuid je s = Some i" "map_of (contexts (ss_contexts st)) i = Some c" "user_id c \<noteq> uid"
  shows "handle_cancel_job je uid s st = (Err (JobErr (JobError.NotFound i)), st) \<and>
         handle_help_job je uid s st = (Err (JobErr (JobError.NotFound i)), st) \<and>
         (case jc_queries je of
            None \<Rightarrow> handle_check_status je uid (Some s) st = Err (JobErr (JobError.NotFound i))
          | Some _ \<Rightarrow> True)"
  using assms
  by (auto simp: handle_cancel_job_def handle_help_job_def handle_check_status_def parse_job_id_def owned_context_def
      get_context_def split: option.split)

definition demo_jobs :: "(unit, int) job_cmd_env" where
  "demo_jobs = \<lparr>jc_sched = demo_sched, jc_queries = None, jc_parse_uuid = \<lambda>s. if s = ''seven'' then Some 7 else None,
     jc_render = \<lambda>_. [], jc_time = \<lambda>_. [], jc_amount = \<lambda>_. []\<rparr>"

definition demo_jobs_state :: "(unit, int) sched_state" where
  "demo_jobs_state = idle_state ((new_manager 1)\<lparr>contexts := [(7, with_user 7 0 ''ann'' ''t'' ''d'')]\<rparr>) ()"

theorem foreign_jobs_untouched_witness:
  "handle_cancel_job demo_jobs ''bob'' ''seven'' demo_jobs_state = (Err (JobErr (JobError.NotFound 7)), demo_jobs_state)"
proof -
  have a: "jc_parse_uuid demo_jobs ''seven'' = Some 7" by (simp add: demo_jobs_def)
  have b: "map_of (contexts (ss_contexts demo_jobs_state)) 7 = Some (with_user 7 0 ''ann'' ''t'' ''d'')"
    by (simp add: demo_jobs_state_def idle_state_def)
  have c: "user_id (with_user 7 0 ''ann'' ''t'' ''d'' :: int job_context) \<noteq> ''bob''" by simp
  from foreign_jobs_untouched [OF a b c] show ?thesis by blast
qed

text \<open>
  With a database the owner is not checked: the status of a stored job is reported to every user, and
  the list shows every user's jobs.
\<close>

lemma concat_map_infix: "x \<in> set xs \<Longrightarrow> \<exists>a b. concat (map f xs) = a @ f x @ b"
  by (auto dest!: split_list) blast

theorem stored_jobs_shown_to_everyone:
  assumes "jc_parse_uuid je s = Some i" "jc_queries je = Some q" "jq_get_job q i (ss_world st) = Ok (Some c)"
    and rows: "jq_list_agent_jobs q (ss_world st) = Ok rows" "r \<in> set rows"
  shows "handle_check_status je uid (Some s) st = Ok (job_report je c) \<and>
         (\<exists>out. handle_list_jobs je uid None st = Ok out \<and>
            contains_str out (list_line (jc_render je (jr_id r)) (jr_title r) (jr_status r)))"
proof
  show "handle_check_status je uid (Some s) st = Ok (job_report je c)"
    using assms(1-3) by (simp add: handle_check_status_def parse_job_id_def Let_def)
  let ?f = "\<lambda>r. list_line (jc_render je (jr_id r)) (jr_title r) (jr_status r)"
  let ?all = "rows @ rows_or_empty (jq_list_sandbox_jobs q (ss_world st))"
  have ne: "?all \<noteq> []" using rows(2) by auto
  obtain a b where "concat (map ?f ?all) = a @ ?f r @ b"
    using concat_map_infix [of r ?all ?f] rows(2) by auto
  moreover have "handle_list_jobs je uid None st = Ok (''Jobs:'' @ NLs @ concat (map ?f ?all))"
    using assms(2) rows(1) ne by (auto simp: handle_list_jobs_def rows_or_empty_def Let_def)
  ultimately have "handle_list_jobs je uid None st = Ok ((''Jobs:'' @ NLs @ a) @ ?f r @ b)" by simp
  then show "\<exists>out. handle_list_jobs je uid None st = Ok out \<and> contains_str out (?f r)"
    unfolding contains_str_iff by blast
qed

text \<open>
  Cancelling a job that is not running changes nothing in the registry, yet the answer says that the
  job has been cancelled and the database is told so, also when the job was completed or accepted.
\<close>

theorem cancel_of_idle_job_is_reported:
  assumes "jc_parse_uuid je s = Some i" "map_of (contexts (ss_contexts st)) i = Some c" "user_id c = uid"
    and "\<not> is_running i st"
  shows "handle_cancel_job je uid s st =
    (Ok (''Job '' @ s @ '' has been cancelled.''),
     st\<lparr>ss_world := record_status (jc_sched je) i Cancelled (Some ''Cancelled by user'') (ss_world st)\<rparr>)"
  using assms by (simp add: handle_cancel_job_def parse_job_id_def owned_context_def get_context_def stop_def is_running_def)

text \<open>
  Helping a stuck job never restarts it. Recovery moves the job to \<open>InProgress\<close>; scheduling it then
  wants the transition to \<open>InProgress\<close> once more and is refused. A job that is still in the table of
  running jobs gets no new worker either.
\<close>

theorem help_never_restarts:
  assumes "jc_parse_uuid je s = Some i" "map_of (contexts (ss_contexts st)) i = Some c" "user_id c = uid" "state c = Stuck"
  shows "ss_jobs (snd (handle_help_job je uid s st)) = ss_jobs st \<and>
         (is_ok (fst (handle_help_job je uid s st)) \<longleftrightarrow> is_running i st)"
proof -
  let ?now = "se_now (jc_sched je) (ss_world st)"
  obtain c' where rec: "attempt_recovery ?now ?now c = (Ok (), c')" "state c' = InProgress"
    using assms(4) by (simp add: attempt_recovery_def transition_to_def job_defs)
  let ?cm = "(ss_contexts st)\<lparr>contexts := AList.update i c' (contexts (ss_contexts st))\<rparr>"
  have upd: "update_context i (attempt_recovery ?now ?now) (ss_contexts st) = (Ok (Ok ()), ?cm)"
    using assms(2) rec by (simp add: update_context_def)
  have own: "owned_context uid i st = Ok c" using assms(2,3) by (simp add: owned_context_def get_context_def)
  have "start_transition (jc_sched je) w c' = (Err ''Cannot transition from in_progress to in_progress'', c')" for w
    using rec(2) by (simp add: start_transition_def transition_to_def job_defs)
  then have "ss_jobs (snd (schedule (jc_sched je) i (st\<lparr>ss_contexts := ?cm\<rparr>))) = ss_jobs st"
    "is_ok (fst (schedule (jc_sched je) i (st\<lparr>ss_contexts := ?cm\<rparr>))) \<longleftrightarrow> is_running i st"
    by (auto simp: schedule_def schedule_with_context_def update_context_def update_conv' is_running_def is_ok_def Let_def)
  then show ?thesis using assms(1,4) own upd
    by (auto simp: handle_help_job_def parse_job_id_def Let_def is_ok_def split: prod.split sum.split)
qed

subsection \<open>System commands\<close>

text \<open>
  A restart happens only on request of the web interface and inside a container; a model is switched
  only to one the provider lists, when it lists any; all other commands but the search leave the world
  alone.
\<close>

theorem system_commands_guarded:
  "(channel \<noteq> ''gateway'' \<or> \<not> sy_in_docker sy w \<longrightarrow> snd (handle_system_command sy ''restart'' args channel w) = w) \<and>
   (command \<noteq> ''restart'' \<and> command \<noteq> ''skills'' \<and> command \<noteq> ''model'' \<longrightarrow>
      snd (handle_system_command sy command args channel w) = w) \<and>
   (\<forall>ms w1. sy_list_models sy w = (Ok ms, w1) \<and> ms \<noteq> [] \<and> m \<notin> set ms \<longrightarrow>
      snd (handle_system_command sy ''model'' (m # args) channel w) = w1)"
  by (auto simp: handle_system_command_def restart_command_def switch_model_def)

end
