(* ===== verification/Message_Loop.thy ===== *)
theory Message_Loop
  imports Job_Commands
begin

text \<open>
  The message loop of \<open>src/agent/agent_loop.rs\<close> with \<open>process_user_input\<close> and \<open>process_compact\<close> of
  \<open>src/agent/thread_ops.rs\<close>: what happens to an incoming message from the hooks over the resolution of
  its thread, the interception of authentication tokens, the triggers of routines and the dispatch on
  the submission, to the reply that is sent to the channel.

  The state joins the session manager, the scheduler with the world, and the conversation rows of the
  database; \<open>agent_env\<close> joins the environments of the components. The lemmas show that internal messages
  and rejected input have no effect, that a token is never recorded, that a document is stored inside
  its directory, and how a silent reply ends the loop.
\<close>

subsection \<open>Environment and state\<close>

text \<open>
  The fields after the environments of the components are: the identifier parser and printer, the
  decoder of structured approvals, the base64 encoder, the database and the decoder of its rows, the
  clocks and fresh identifiers, the token store, the heartbeat, the routine engine, the message tool's
  context, the middleware for attachments, the workspace, the channel, and what tools and other tasks
  do to the jobs during a turn.
\<close>

record ('w, 'd, 're) agent_env =
  me_base :: "('w, 're) approval_env"
  me_jobs :: "('w, 'd) job_cmd_env"
  me_sys :: "'w system_env"
  me_compactor :: "'w compactor"
  me_monitor :: context_monitor
  me_router :: router
  me_parse_uuid :: "string \<Rightarrow> uuid option"
  me_decode_approval :: "string \<Rightarrow> Submission option"
  me_base64 :: "8 word list \<Rightarrow> string"
  me_db :: "conversation_db option"
  me_decode_rows :: "string \<Rightarrow> json list option"
  me_clock :: "'w \<Rightarrow> nat \<Rightarrow> datetime"
  me_fresh_session :: "'w \<Rightarrow> uuid"
  me_fresh_thread :: "'w \<Rightarrow> uuid"
  me_configure :: "(string \<Rightarrow> string \<Rightarrow> 'w \<Rightarrow> token_outcome \<times> 'w) option"
  me_heartbeat :: "('w \<Rightarrow> HeartbeatResult \<times> 'w) option"
  me_routines :: "(string \<Rightarrow> string \<Rightarrow> string \<Rightarrow> 'w \<Rightarrow> nat \<times> 'w) option"
  me_set_context :: "string \<Rightarrow> string \<Rightarrow> 'w \<Rightarrow> 'w"
  me_middleware :: "(incoming_message \<Rightarrow> 'w \<Rightarrow> incoming_message \<times> 'w) list"
  me_write :: "(string \<Rightarrow> string \<Rightarrow> 'w \<Rightarrow> 'w) option"
  me_date :: "'w \<Rightarrow> string"
  me_respond :: "incoming_message \<Rightarrow> string \<Rightarrow> 'w \<Rightarrow> 'w"
  me_interfere :: "'w \<Rightarrow> ('w, 'd) sched_state \<Rightarrow> ('w, 'd) sched_state"

record ('w, 'd) agent_state =
  ag_sessions :: session_manager
  ag_jobs :: "('w, 'd) sched_state"
  ag_rows :: "uuid \<Rightarrow> db_rows"

abbreviation ag_world :: "('w, 'd) agent_state \<Rightarrow> 'w" where "ag_world st \<equiv> ss_world (ag_jobs st)"

abbreviation set_world :: "'w \<Rightarrow> ('w, 'd) agent_state \<Rightarrow> ('w, 'd) agent_state" where
  "set_world w st \<equiv> st\<lparr>ag_jobs := (ag_jobs st)\<lparr>ss_world := w\<rparr>\<rparr>"

abbreviation me_now :: "('w, 'd, 're) agent_env \<Rightarrow> ('w, 'd) agent_state \<Rightarrow> datetime" where
  "me_now me st \<equiv> ce_now (ap_chat (me_base me)) (ag_world st)"

abbreviation me_exec :: "('w, 'd, 're) agent_env \<Rightarrow> 'w exec_env" where
  "me_exec me \<equiv> ce_exec (ap_chat (me_base me))"

text \<open>The environment of the chat delegate for a message on a thread.\<close>

definition env_for :: "('w, 'd, 're) agent_env \<Rightarrow> incoming_message \<Rightarrow> uuid \<Rightarrow> ('w, 're) approval_env" where
  "env_for me msg t =
     (me_base me)\<lparr>ap_chat := (ap_chat (me_base me))\<lparr>ce_channel := im_channel msg, ce_user_id := im_user_id msg,
        ce_metadata := im_metadata msg, ce_thread_id := t\<rparr>\<rparr>"

text \<open>The session of a message as the state of the chat delegate, and back.\<close>

definition chat_view :: "nat \<Rightarrow> ('w, 'd) agent_state \<Rightarrow> 'w chat_state" where
  "chat_view r st = \<lparr>cs_session = session_store (ag_sessions st) ! r, cs_stash = [], cs_world = ag_world st\<rparr>"

definition chat_back :: "nat \<Rightarrow> 'w chat_state \<Rightarrow> ('w, 'd) agent_state \<Rightarrow> ('w, 'd) agent_state" where
  "chat_back r cs st =
     set_world (cs_world cs) (st\<lparr>ag_sessions := upd_session r (\<lambda>_. cs_session cs) (ag_sessions st)\<rparr>)"

definition thread_err :: "thread_error \<Rightarrow> Error" where
  "thread_err e = (case e of thread_error.NotFound t \<Rightarrow> JobErr (JobError.NotFound t))"

text \<open>The commands of the thread operations only change the session manager.\<close>

definition with_sessions ::
  "(session_manager \<Rightarrow> handler_result \<times> session_manager) \<Rightarrow> ('w, 'd) agent_state
     \<Rightarrow> (Error, SubmissionResult) result \<times> ('w, 'd) agent_state" where
  "with_sessions f st =
     (case f (ag_sessions st) of (res, m) \<Rightarrow>
        (case res of Inl e \<Rightarrow> Err (thread_err e) | Inr s \<Rightarrow> Ok s, st\<lparr>ag_sessions := m\<rparr>))"

subsection \<open>Compaction\<close>

definition compact_thread ::
  "('w, 'd, 're) agent_env \<Rightarrow> CompactionStrategy \<Rightarrow> nat \<Rightarrow> uuid \<Rightarrow> thread \<Rightarrow> ('w, 'd) agent_state
     \<Rightarrow> (LlmError, compaction_result) result \<times> ('w, 'd) agent_state" where
  "compact_thread me strategy r t th st =
     (case compact (me_compactor me) strategy th (ag_world st) of (res, th1, w1) \<Rightarrow>
        (res, set_world w1 (st\<lparr>ag_sessions := set_thread r t th1 (ag_sessions st)\<rparr>)))"

definition process_compact ::
  "('w, 'd, 're) agent_env \<Rightarrow> nat \<Rightarrow> uuid \<Rightarrow> ('w, 'd) agent_state \<Rightarrow> (Error, SubmissionResult) result \<times> ('w, 'd) agent_state" where
  "process_compact me r t st =
     (case get_thread r t (ag_sessions st) of
        None \<Rightarrow> (Err (JobErr (JobError.NotFound t)), st)
      | Some th \<Rightarrow>
          let ms = thread_messages (cc_json (me_compactor me)) th;
              strategy = unwrap_or (suggest_compaction (me_monitor me) ms) (SummarizeOld 5) in
          (case compact_thread me strategy r t th st of
             (Inr res, st1) \<Rightarrow>
               (Ok (ok_with_message (''Compacted: '' @ show_nat (co_turns_removed res) @ '' turns removed, '' @
                  show_nat (co_tokens_before res) @ [CHR '' '', CHR 0xE2, CHR 0x86, CHR 0x92, CHR '' ''] @
                  show_nat (co_tokens_after res) @ '' tokens (was '' @ show_usage_percent (me_monitor me) ms @ ''% full)'' @
                  (if co_summary_written res then '', summary saved to workspace'' else []))), st1)
           | (Inl e, st1) \<Rightarrow>
               (Ok (SrError (''Compaction failed: '' @ show_error (me_base me) (LlmErr e))), st1)))"

text \<open>Before a turn; a failure is logged.\<close>

definition auto_compact ::
  "('w, 'd, 're) agent_env \<Rightarrow> nat \<Rightarrow> uuid \<Rightarrow> ('w, 'd) agent_state \<Rightarrow> (Error, unit) result \<times> ('w, 'd) agent_state" where
  "auto_compact me r t st =
     (case get_thread r t (ag_sessions st) of
        None \<Rightarrow> (Err (JobErr (JobError.NotFound t)), st)
      | Some th \<Rightarrow>
          (case suggest_compaction (me_monitor me) (thread_messages (cc_json (me_compactor me)) th) of
             None \<Rightarrow> (Ok (), st)
           | Some strategy \<Rightarrow> (Ok (), snd (compact_thread me strategy r t th st))))"

subsection \<open>User input\<close>

definition screen_input :: "('w, 'd, 're) agent_env \<Rightarrow> string \<Rightarrow> SubmissionResult option" where
  "screen_input me inp =
     (let ev = me_exec me; v = safety_validate_input (ev_lower ev) (ev_safety ev) inp in
      if \<not> vr_is_valid v
      then Some (SrError (''Input rejected by safety validation: '' @
             join_str ''; '' (map (\<lambda>e. ve_field e @ '': '' @ ve_message e) (vr_errors v))))
      else if list_ex (\<lambda>rule. pr_action rule = Block) (safety_check_policy (ev_regex ev) (ev_safety ev) inp)
      then Some (SrError ''Input rejected by safety policy.'')
      else map_option SrError (scan_inbound_for_secrets (ev_regex ev) (ev_safety ev) inp))"

definition transform_response ::
  "('w, 're) approval_env \<Rightarrow> string \<Rightarrow> 'w \<Rightarrow> string \<times> 'w" where
  "transform_response ae s w =
     (let resp = fst (extract_suggestions (ap_captures ae) (ap_parse_list ae) s);
          env = ap_chat ae;
          ev = ResponseTransformEvent (ce_user_id env) (ap_render ae (ce_thread_id env)) resp in
      case run_hooks (ce_encode env) (ev_decode (ce_exec env)) (ev_fmt (ce_exec env)) (ce_hooks env) ev w of
        (Inl (HookRejected reason), w1) \<Rightarrow> (''[Response filtered: '' @ reason @ '']'', w1)
      | (Inl e, w1) \<Rightarrow> (''[Response blocked by hook policy: '' @ show_hook_error (ev_fmt (ce_exec env)) e @ '']'', w1)
      | (Inr (HookContinue (Some new_response)), w1) \<Rightarrow> (new_response, w1)
      | (Inr _, w1) \<Rightarrow> (resp, w1))"

text \<open>The outcome of the loop, with the response as the user sees it. An interrupted thread ends the turn first.\<close>

definition shown_outcome ::
  "('w, 're) approval_env \<Rightarrow> thread option \<Rightarrow> (Error, AgenticLoopResult) result \<Rightarrow> 'w
     \<Rightarrow> (string, AgenticLoopResult) result \<times> 'w" where
  "shown_outcome ae th outcome w =
     (case outcome of
        Inl e \<Rightarrow> (Err (show_error ae e), w)
      | Inr (AgentNeedApproval p) \<Rightarrow> (Ok (AgentNeedApproval p), w)
      | Inr (AgentResponse s) \<Rightarrow>
          if (case th of None \<Rightarrow> True | Some x \<Rightarrow> thread_state x = Interrupted) then (Ok (AgentResponse s), w)
          else (case transform_response ae s w of (s1, w1) \<Rightarrow> (Ok (AgentResponse s1), w1)))"

text \<open>The loop on the messages of the thread, and the end of the turn.\<close>

definition turn_body ::
  "('w, 'd, 're) agent_env \<Rightarrow> ('w, 're) approval_env \<Rightarrow> nat \<Rightarrow> uuid \<Rightarrow> chat_message list \<Rightarrow> ('w, 'd) agent_state
     \<Rightarrow> (Error, SubmissionResult) result \<times> ('w, 'd) agent_state" where
  "turn_body me ae r t ms st1 =
     (case chat_run (ap_lower ae) (ap_chat ae) ms (ap_render ae t) (chat_view r st1) of (outcome, cs) \<Rightarrow>
      let st2 = chat_back r cs st1; st3 = st2\<lparr>ag_jobs := me_interfere me (cs_world cs) (ag_jobs st2)\<rparr> in
      case shown_outcome ae (get_thread r t (ag_sessions st3)) outcome (ag_world st3) of (shown, w4) \<Rightarrow>
      let st4 = set_world w4 st3; ok = ap_writable ae w4; now4 = me_now me st4 in
      case finish_turn (ap_json ae) (ap_rows ae) (\<lambda>s. s) ok ok now4 now4 r t shown (ag_rows st4 t) (ag_sessions st4) of
        Inl e \<Rightarrow> (Err (thread_err e), st4)
      | Inr (res, rows, m5) \<Rightarrow> (Ok res, st4\<lparr>ag_sessions := m5, ag_rows := (ag_rows st4)(t := rows)\<rparr>))"

definition run_turn ::
  "('w, 'd, 're) agent_env \<Rightarrow> incoming_message \<Rightarrow> nat \<Rightarrow> uuid \<Rightarrow> string \<Rightarrow> ('w, 'd) agent_state
     \<Rightarrow> (Error, SubmissionResult) result \<times> ('w, 'd) agent_state" where
  "run_turn me msg r t inp st =
     (let ae = env_for me msg t; js = ap_json ae; w = ag_world st; now = me_now me st;
          (text, parts) = (case augment_with_attachments (me_base64 me) inp (im_attachments msg) of
             Some a \<Rightarrow> (ar_text a, ar_image_parts a) | None \<Rightarrow> (inp, [])) in
      case checkpoint_turn js (ce_fresh (ap_chat ae) w) r t (ag_sessions st) of
        Inl e \<Rightarrow> (Err (thread_err e), st)
      | Inr m1 \<Rightarrow>
      case begin_turn js now now r t text parts m1 of
        Inl e \<Rightarrow> (Err (thread_err e), st\<lparr>ag_sessions := m1\<rparr>)
      | Inr (ms, m2) \<Rightarrow>
          turn_body me ae r t ms
            (st\<lparr>ag_sessions := m2,
                ag_rows := (ag_rows st)(t := persist_user_message (ap_writable ae w) text (ag_rows st t))\<rparr>))"

definition process_user_input ::
  "('w, 'd::zero, 're) agent_env \<Rightarrow> incoming_message \<Rightarrow> nat \<Rightarrow> uuid \<Rightarrow> string \<Rightarrow> ('w, 'd) agent_state
     \<Rightarrow> (Error, SubmissionResult) result \<times> ('w, 'd) agent_state" where
  "process_user_input me msg r t inp st =
     (case input_gate (\<lambda>s. one_line_preview s 80) r t (ag_sessions st) of
        Inl e \<Rightarrow> (Err (thread_err e), st)
      | Inr (Some res) \<Rightarrow> (Ok res, st)
      | Inr None \<Rightarrow>
      case screen_input me inp of
        Some res \<Rightarrow> (Ok res, st)
      | None \<Rightarrow>
      case route_command (ev_lower (me_exec me)) (me_router me) inp of
        Some intent \<Rightarrow>
          (case handle_job_or_command (me_jobs me) (me_sys me) intent (im_user_id msg) (im_channel msg) (ag_jobs st) of
             (res, jobs1) \<Rightarrow> (res, st\<lparr>ag_jobs := jobs1\<rparr>))
      | None \<Rightarrow>
      case auto_compact me r t st of
        (Inl e, st1) \<Rightarrow> (Err e, st1)
      | (Inr _, st1) \<Rightarrow> run_turn me msg r t inp st1)"

subsection \<open>One message\<close>

text \<open>The hooks before a message: an answer that ends it, or the submission to go on with.\<close>

definition inbound_hooks ::
  "('w, 'd, 're) agent_env \<Rightarrow> incoming_message \<Rightarrow> Submission \<Rightarrow> 'w \<Rightarrow> (string, Submission) result \<times> 'w" where
  "inbound_hooks me msg sub w =
     (case sub of
        UserInput s \<Rightarrow>
          (let env = ap_chat (me_base me); fmt = ev_fmt (ce_exec env) in
           case run_hooks (ce_encode env) (ev_decode (ce_exec env)) fmt (ce_hooks env)
                  (InboundEvent (im_user_id msg) (im_channel msg) s (im_thread_id msg)) w of
             (Inl (HookRejected reason), w1) \<Rightarrow> (Err (''[Message rejected: '' @ reason @ '']''), w1)
           | (Inl e, w1) \<Rightarrow> (Err (''[Message blocked by hook policy: '' @ show_hook_error fmt e @ '']''), w1)
           | (Inr (HookContinue (Some new_content)), w1) \<Rightarrow> (Ok (UserInput new_content), w1)
           | (Inr _, w1) \<Rightarrow> (Ok sub, w1))
      | _ \<Rightarrow> (Ok sub, w))"

definition hydrate ::
  "('w, 'd, 're) agent_env \<Rightarrow> incoming_message \<Rightarrow> ('w, 'd) agent_state \<Rightarrow> string option \<times> ('w, 'd) agent_state" where
  "hydrate me msg st =
     (case conversation_scope msg of
        None \<Rightarrow> (None, st)
      | Some ext \<Rightarrow>
          (case maybe_hydrate_thread (me_parse_uuid me) (ap_render (me_base me)) (me_decode_rows me) (me_db me)
                  (me_fresh_session me (ag_world st)) (me_now me st) (me_clock me (ag_world st))
                  (im_user_id msg) (im_channel msg) ext (ag_sessions st) of
             (rejection, m) \<Rightarrow> (rejection, st\<lparr>ag_sessions := m\<rparr>)))"

definition is_approval :: "Submission \<Rightarrow> bool" where
  "is_approval sub = (case sub of ExecApproval _ _ _ \<Rightarrow> True | ApprovalResponse _ _ \<Rightarrow> True | _ \<Rightarrow> False)"

definition resolve_message ::
  "('w, 'd, 're) agent_env \<Rightarrow> incoming_message \<Rightarrow> Submission \<Rightarrow> ('w, 'd) agent_state \<Rightarrow> (nat \<times> uuid) \<times> ('w, 'd) agent_state" where
  "resolve_message me msg sub st =
     (let w = ag_world st; now = me_now me st; uid = im_user_id msg; chan = im_channel msg;
          resolve = (\<lambda>m. case resolve_thread (me_parse_uuid me) (me_fresh_session me w) (me_fresh_thread me w) now now now
                       uid chan (conversation_scope msg) m of (rt, m1) \<Rightarrow> (rt, st\<lparr>ag_sessions := m1\<rparr>)) in
      case (if is_approval sub then Option.bind (conversation_scope msg) (me_parse_uuid me) else None) of
        None \<Rightarrow> resolve (ag_sessions st)
      | Some target \<Rightarrow>
          (case get_or_create_session (me_fresh_session me w) now uid (ag_sessions st) of (r, m1) \<Rightarrow>
             if map_of (threads (session_store m1 ! r)) target \<noteq> None
             then let m2 = upd_session r (\<lambda>s. s\<lparr>active_thread_id := Some target, last_active_at := now\<rparr>) m1 in
                  ((r, target), st\<lparr>ag_sessions := register_thread (ap_render (me_base me)) uid chan target r m2\<rparr>)
             else resolve m1))"

definition clear_auth :: "nat \<Rightarrow> uuid \<Rightarrow> ('w, 'd) agent_state \<Rightarrow> ('w, 'd) agent_state" where
  "clear_auth r t st = st\<lparr>ag_sessions := upd_session r (on_thread t (\<lambda>th. th\<lparr>pending_auth := None\<rparr>)) (ag_sessions st)\<rparr>"

text \<open>A thread that waits for a token: an answer that ends the message, or the state to go on with.\<close>

definition intercept_auth ::
  "('w, 'd, 're) agent_env \<Rightarrow> incoming_message \<Rightarrow> nat \<Rightarrow> uuid \<Rightarrow> Submission \<Rightarrow> ('w, 'd) agent_state
     \<Rightarrow> string option \<times> ('w, 'd) agent_state" where
  "intercept_auth me msg r t sub st =
     (case Option.bind (get_thread r t (ag_sessions st)) pending_auth of
        None \<Rightarrow> (None, st)
      | Some p \<Rightarrow>
          if is_expired (me_now me st) p
          then (case sub of
                  UserInput _ \<Rightarrow>
                    (Some (''Authentication for **'' @ pa_extension_name p @ ''** expired. Please try again.''), clear_auth r t st)
                | _ \<Rightarrow> (None, clear_auth r t st))
          else (case sub of
                  UserInput token \<Rightarrow>
                    (case process_auth_token (env_for me msg t) (me_configure me) p token (chat_view r st) of
                       (answer, cs) \<Rightarrow> (Some answer, chat_back r cs st))
                | _ \<Rightarrow> (None, clear_auth r t st)))"

definition routine_triggers ::
  "('w, 'd, 're) agent_env \<Rightarrow> incoming_message \<Rightarrow> Submission \<Rightarrow> 'w \<Rightarrow> bool \<times> 'w" where
  "routine_triggers me msg sub w =
     (case (sub, me_routines me) of
        (UserInput s, Some check) \<Rightarrow>
          (case check (im_user_id msg) (im_channel msg) s w of (fired, w1) \<Rightarrow> (0 < fired, w1))
      | _ \<Rightarrow> (False, w))"

text \<open>The dispatch; \<open>None\<close> is the request to shut down.\<close>

definition dispatch_submission ::
  "('w, 'd::zero, 're) agent_env \<Rightarrow> incoming_message \<Rightarrow> nat \<Rightarrow> uuid \<Rightarrow> Submission \<Rightarrow> ('w, 'd) agent_state
     \<Rightarrow> (Error, SubmissionResult) result option \<times> ('w, 'd) agent_state" where
  "dispatch_submission me msg r t sub st =
     (let ae = env_for me msg t; w = ag_world st; now = me_now me st; clk = me_clock me w;
          uid = im_user_id msg; render = ap_render (me_base me);
          answer = (\<lambda>(res, st1). (Some res, st1));
          approve = (\<lambda>req approved always.
            case process_approval ae req approved always (chat_view r st) (ag_rows st t) of (res, cs, rows) \<Rightarrow>
              (Some res, (chat_back r cs st)\<lparr>ag_rows := (ag_rows st)(t := rows)\<rparr>)) in
      case sub of
        UserInput s \<Rightarrow> answer (process_user_input me msg r t s st)
      | SystemCommand command args \<Rightarrow>
          (case handle_system_command (me_sys me) command args (im_channel msg) w of (res, w1) \<Rightarrow>
             (Some (Ok res), set_world w1 st))
      | Undo \<Rightarrow> answer (with_sessions (process_undo (ap_json ae) clk now (ce_fresh (ap_chat ae) w) r t) st)
      | Redo \<Rightarrow> answer (with_sessions (process_redo (ap_json ae) clk now (ce_fresh (ap_chat ae) w) r t) st)
      | Interrupt \<Rightarrow> answer (with_sessions (process_interrupt now now r t) st)
      | Compact \<Rightarrow> answer (process_compact me r t st)
      | Clear \<Rightarrow> answer (with_sessions (process_clear r t) st)
      | NewThread \<Rightarrow>
          answer (with_sessions (process_new_thread render (me_fresh_session me w) (me_fresh_thread me w) now now now uid) st)
      | Heartbeat \<Rightarrow> (case process_heartbeat (me_heartbeat me) w of (res, w1) \<Rightarrow> (Some (Ok res), set_world w1 st))
      | Summarize \<Rightarrow>
          (case process_summarize ae (session_store (ag_sessions st) ! r) w of (res, w1) \<Rightarrow> (Some res, set_world w1 st))
      | Suggest \<Rightarrow>
          (case process_suggest ae (session_store (ag_sessions st) ! r) w of (res, w1) \<Rightarrow> (Some res, set_world w1 st))
      | JobStatus jid \<Rightarrow> (Some (Ok (process_job_status (me_base me) (me_jobs me) uid jid (ag_jobs st))), st)
      | JobCancel jid \<Rightarrow>
          (case process_job_cancel (me_base me) (me_jobs me) uid jid (ag_jobs st) of (res, j1) \<Rightarrow>
             (Some (Ok res), st\<lparr>ag_jobs := j1\<rparr>))
      | Quit \<Rightarrow> (None, st)
      | SwitchThread target \<Rightarrow>
          answer (with_sessions (process_switch_thread render (me_fresh_session me w) now now uid target) st)
      | Resume cid \<Rightarrow> answer (with_sessions (process_resume clk now r t cid) st)
      | ExecApproval req approved always \<Rightarrow> approve (Some req) approved always
      | ApprovalResponse approved always \<Rightarrow> approve None approved always)"

text \<open>The reply to a result; the inner \<open>None\<close> is what the loop takes for the request to shut down.\<close>

definition reply_of :: "SubmissionResult \<Rightarrow> string option" where
  "reply_of res =
     (case res of
        Response s \<Rightarrow> if is_silent_reply s then None else Some s
      | SrOk m \<Rightarrow> m
      | SrError m \<Rightarrow> Some (''Error: '' @ m)
      | SrInterrupted \<Rightarrow> Some ''Interrupted.''
      | NeedApproval _ _ _ _ _ \<Rightarrow> Some [])"

definition handle_message ::
  "('w, 'd::zero, 're) agent_env \<Rightarrow> incoming_message \<Rightarrow> ('w, 'd) agent_state
     \<Rightarrow> (Error, string option) result \<times> ('w, 'd) agent_state" where
  "handle_message me msg st =
     (if is_internal msg then (Ok (Some (im_content msg)), st)
      else
        let st0 = set_world (me_set_context me (im_channel msg) (unwrap_or (routing_target msg) (im_user_id msg)) (ag_world st)) st;
            sub0 = parse_submission (ev_lower (me_exec me)) (me_parse_uuid me) (me_decode_approval me) (im_content msg) in
        case inbound_hooks me msg sub0 (ag_world st0) of
          (Inl answer, w1) \<Rightarrow> (Ok (Some answer), set_world w1 st0)
        | (Inr sub, w1) \<Rightarrow>
        case hydrate me msg (set_world w1 st0) of
          (Some rejection, st2) \<Rightarrow> (Ok (Some (''Error: '' @ rejection)), st2)
        | (None, st2) \<Rightarrow>
        case resolve_message me msg sub st2 of ((r, t), st3) \<Rightarrow>
        case intercept_auth me msg r t sub st3 of
          (Some answer, st4) \<Rightarrow> (Ok (Some answer), st4)
        | (None, st4) \<Rightarrow>
        case routine_triggers me msg sub (ag_world st4) of
          (True, w5) \<Rightarrow> (Ok (Some []), set_world w5 st4)
        | (False, w5) \<Rightarrow>
        case dispatch_submission me msg r t sub (set_world w5 st4) of
          (None, st6) \<Rightarrow> (Ok None, st6)
        | (Some (Inl e), st6) \<Rightarrow> (Err e, st6)
        | (Some (Inr res), st6) \<Rightarrow> (Ok (reply_of res), st6))"

subsection \<open>Documents\<close>

fun drop_dots :: "string \<Rightarrow> string" where
  "drop_dots [] = []"
| "drop_dots (c # cs) = (if c = CHR ''.'' then drop_dots cs else c # cs)"

definition sanitize_char :: "char \<Rightarrow> char" where
  "sanitize_char c = (if c = CHR ''/'' \<or> c = CHR 0x5C \<or> c = CHR 0x00 then CHR ''_'' else c)"

definition safe_filename :: "string option \<Rightarrow> string" where
  "safe_filename raw =
     (let replaced = map sanitize_char (unwrap_or raw ''unnamed_document'');
          name = drop_dots replaced in
      if name = [] then ''unnamed_document'' else name)"

definition document_entry :: "incoming_message \<Rightarrow> incoming_attachment \<Rightarrow> string \<Rightarrow> string \<Rightarrow> string \<times> string" where
  "document_entry msg att date body =
     (let name = safe_filename (at_filename att) in
      (''documents/'' @ date @ ''/'' @ name,
       ''# '' @ name @ NLs @ NLs @ ''> Uploaded by **'' @ im_user_id msg @ ''** via **'' @ im_channel msg @ ''** on '' @ date @ NLs @
       ''> MIME: '' @ at_mime_type att @ '' | Size: '' @ show_nat (case at_size_bytes att of Some n \<Rightarrow> unat n | None \<Rightarrow> 0) @ '' bytes'' @
       NLs @ NLs @ ''---'' @ NLs @ NLs @ body))"

definition storable_text :: "incoming_attachment \<Rightarrow> string option" where
  "storable_text att =
     (if at_kind att \<noteq> AttDocument then None
      else case at_extracted_text att of
             Some s \<Rightarrow> if starts_with s ''['' then None else Some s
           | None \<Rightarrow> None)"

definition store_document ::
  "('w, 'd, 're) agent_env \<Rightarrow> incoming_message \<Rightarrow> (string \<Rightarrow> string \<Rightarrow> 'w \<Rightarrow> 'w) \<Rightarrow> incoming_attachment \<Rightarrow> 'w \<Rightarrow> 'w" where
  "store_document me msg write att w =
     (case storable_text att of
        None \<Rightarrow> w
      | Some s \<Rightarrow> (case document_entry msg att (me_date me w) s of (path, body) \<Rightarrow> write path body w))"

definition store_extracted_documents :: "('w, 'd, 're) agent_env \<Rightarrow> incoming_message \<Rightarrow> 'w \<Rightarrow> 'w" where
  "store_extracted_documents me msg w =
     (case me_write me of
        None \<Rightarrow> w
      | Some write \<Rightarrow> fold (store_document me msg write) (im_attachments msg) w)"

subsection \<open>The loop\<close>

fun apply_middleware ::
  "(incoming_message \<Rightarrow> 'w \<Rightarrow> incoming_message \<times> 'w) list \<Rightarrow> incoming_message \<Rightarrow> 'w \<Rightarrow> incoming_message \<times> 'w" where
  "apply_middleware [] msg w = (msg, w)"
| "apply_middleware (f # fs) msg w = (case f msg w of (msg1, w1) \<Rightarrow> apply_middleware fs msg1 w1)"

definition send_reply :: "('w, 'd, 're) agent_env \<Rightarrow> incoming_message \<Rightarrow> string \<Rightarrow> 'w \<Rightarrow> 'w" where
  "send_reply me msg reply w =
     (let env = ap_chat (me_base me) in
      case run_hooks (ce_encode env) (ev_decode (ce_exec env)) (ev_fmt (ce_exec env)) (ce_hooks env)
             (OutboundEvent (im_user_id msg) (im_channel msg) reply (im_thread_id msg)) w of
        (Inl _, w1) \<Rightarrow> w1
      | (Inr (HookContinue (Some new_content)), w1) \<Rightarrow> me_respond me msg new_content w1
      | (Inr _, w1) \<Rightarrow> me_respond me msg reply w1)"

text \<open>One round of the loop: whether it goes on, and the state.\<close>

definition message_round ::
  "('w, 'd::zero, 're) agent_env \<Rightarrow> incoming_message \<Rightarrow> ('w, 'd) agent_state \<Rightarrow> bool \<times> ('w, 'd) agent_state" where
  "message_round me msg0 st =
     (case apply_middleware (me_middleware me) msg0 (ag_world st) of (msg, w1) \<Rightarrow>
      case handle_message me msg (set_world (store_extracted_documents me msg w1) st) of
        (Inr (Some reply), st2) \<Rightarrow>
          (True, if reply = [] then st2 else set_world (send_reply me msg reply (ag_world st2)) st2)
      | (Inr None, st2) \<Rightarrow> (False, st2)
      | (Inl e, st2) \<Rightarrow> (True, set_world (me_respond me msg (''Error: '' @ show_error (me_base me) e) (ag_world st2)) st2))"

text \<open>The loop over the messages of the channels, and the clean-up of the jobs at its end.\<close>

fun message_loop ::
  "('w, 'd::zero, 're) agent_env \<Rightarrow> incoming_message list \<Rightarrow> ('w, 'd) agent_state \<Rightarrow> incoming_message list \<times> ('w, 'd) agent_state" where
  "message_loop me [] st = ([], st)"
| "message_loop me (msg # msgs) st =
     (case message_round me msg st of
        (True, st1) \<Rightarrow> message_loop me msgs st1
      | (False, st1) \<Rightarrow> (msgs, st1))"

definition run_agent ::
  "('w, 'd::zero, 're) agent_env \<Rightarrow> incoming_message list \<Rightarrow> ('w, 'd) agent_state \<Rightarrow> incoming_message list \<times> ('w, 'd) agent_state" where
  "run_agent me msgs st =
     (case message_loop me msgs st of (rest, st1) \<Rightarrow>
        (rest, st1\<lparr>ag_jobs := stop_all (jc_sched (me_jobs me)) (ag_jobs st1)\<rparr>))"

subsection \<open>Documents stay in their directory\<close>

lemma drop_dots_suffix: "\<exists>n. drop_dots s = drop n s"
proof (induction s)
  case (Cons c s)
  then obtain n where "drop_dots s = drop n s" by blast
  then show ?case by (cases "c = CHR ''.''") (auto intro: exI [of _ "Suc n"] exI [of _ 0])
qed simp

lemma drop_dots_head: "drop_dots s = c # cs \<Longrightarrow> c \<noteq> CHR ''.''"
  by (induction s rule: drop_dots.induct) (auto split: if_splits)

lemma sanitize_char_clean: "sanitize_char c \<notin> {CHR ''/'', CHR 0x5C, CHR 0x00}"
  by (simp add: sanitize_char_def)

lemma safe_filename_props:
  "safe_filename raw \<noteq> [] \<and> hd (safe_filename raw) \<noteq> CHR ''.'' \<and>
   set (safe_filename raw) \<inter> {CHR ''/'', CHR 0x5C, CHR 0x00} = {}"
proof -
  define rep where "rep = map sanitize_char (unwrap_or raw ''unnamed_document'')"
  have eq: "safe_filename raw = (if drop_dots rep = [] then ''unnamed_document'' else drop_dots rep)"
    by (simp add: safe_filename_def rep_def Let_def)
  have "set (drop_dots rep) \<subseteq> set rep" using drop_dots_suffix [of rep] set_drop_subset by metis
  moreover have "set rep \<inter> {CHR ''/'', CHR 0x5C, CHR 0x00} = {}"
    unfolding rep_def set_map using sanitize_char_clean by blast
  ultimately have clean: "set (drop_dots rep) \<inter> {CHR ''/'', CHR 0x5C, CHR 0x00} = {}" by blast
  show ?thesis
  proof (cases "drop_dots rep")
    case Nil
    then show ?thesis by (simp add: eq)
  next
    case (Cons c cs)
    with clean drop_dots_head [OF Cons] show ?thesis unfolding eq by simp
  qed
qed

text \<open>
  A document that a user uploads is written to a file directly inside the directory of the day: the
  last part of the path has no separator and no null, is not empty and does not start with a dot,
  whatever the name of the attachment.
\<close>

theorem documents_contained:
  "\<exists>name. fst (document_entry msg att date body) = ''documents/'' @ date @ ''/'' @ name \<and>
     name \<noteq> [] \<and> hd name \<noteq> CHR ''.'' \<and> set name \<inter> {CHR ''/'', CHR 0x5C, CHR 0x00} = {}"
  using safe_filename_props [of "at_filename att"] by (simp add: document_entry_def Let_def)

subsection \<open>Input that is refused has no effect\<close>

text \<open>
  C12: User input has an effect, on the sessions, the jobs, the rows or the world, only when the thread
  accepts input and the text is valid, breaks no blocking policy rule and contains no secret that the
  leak detector knows. Otherwise the state is exactly as before, and the model has not been asked.
\<close>

theorem effects_only_of_screened_input:
  "snd (process_user_input me msg r t inp st) = st \<or>
   (\<exists>th. get_thread r t (ag_sessions st) = Some th \<and> thread_state th \<in> {Idle, Interrupted}) \<and>
   vr_is_valid (safety_validate_input (ev_lower (me_exec me)) (ev_safety (me_exec me)) inp) \<and>
   list_all (\<lambda>rule. pr_action rule \<noteq> Block) (safety_check_policy (ev_regex (me_exec me)) (ev_safety (me_exec me)) inp) \<and>
   scan_inbound_for_secrets (ev_regex (me_exec me)) (ev_safety (me_exec me)) inp = None"
proof (cases "snd (process_user_input me msg r t inp st) = st")
  case False
  then have gate: "input_gate (\<lambda>s. one_line_preview s 80) r t (ag_sessions st) = Inr None"
    by (auto simp: process_user_input_def split: sum.splits option.splits)
  moreover from False this have "screen_input me inp = None"
    by (auto simp: process_user_input_def split: option.splits)
  ultimately show ?thesis
    by (auto simp: input_gate_def screen_input_def Let_def list_all_iff list_ex_iff
        split: option.splits ThreadState.splits if_splits)
qed simp

subsection \<open>A turn always ends\<close>

lemma finish_turn_ends:
  assumes "finish_turn js enc f ok1 ok2 n1 n2 r t outcome rows m = Inr (res, rows1, m1)" "r < length (session_store m)"
  shows "\<exists>th. get_thread r t m1 = Some th \<and> thread_state th \<noteq> Processing"
  using assms
  by (auto simp: finish_turn_def Let_def complete_turn_def await_approval_def fail_turn_def
      split: option.splits if_splits sum.splits AgenticLoopResult.splits prod.splits)

lemma finish_turn_fails:
  "finish_turn js enc f ok1 ok2 n1 n2 r t outcome rows m = Inl e \<Longrightarrow> get_thread r t m = None"
  by (auto simp: finish_turn_def Let_def split: option.splits if_splits sum.splits AgenticLoopResult.splits prod.splits)

lemma get_undo_manager_store: "get_undo_manager t m = (u, m1) \<Longrightarrow> session_store m1 = session_store m"
  by (auto simp: get_undo_manager_def insert_undo_def split: option.splits)

lemma checkpoint_turn_store:
  "checkpoint_turn js f r t m = Inr m1 \<Longrightarrow> session_store m1 = session_store m"
  by (auto simp: checkpoint_turn_def upd_undo_def get_undo_manager_store split: option.splits prod.splits)

lemma checkpoint_turn_fails: "checkpoint_turn js f r t m = Inl e \<Longrightarrow> get_thread r t m = None"
  by (auto simp: checkpoint_turn_def get_thread_def get_undo_manager_store split: option.splits prod.splits)

lemma begin_turn_store:
  "begin_turn js n1 n2 r t s ps m = Inr (ms, m1) \<Longrightarrow> length (session_store m1) = length (session_store m)"
  by (auto simp: begin_turn_def Let_def split: option.splits)

lemma begin_turn_fails: "begin_turn js n1 n2 r t s ps m = Inl e \<Longrightarrow> get_thread r t m = None"
  by (auto simp: begin_turn_def Let_def split: option.splits)

definition settled :: "nat \<Rightarrow> uuid \<Rightarrow> (Error, SubmissionResult) result \<times> ('w, 'd) agent_state \<Rightarrow> bool" where
  "settled r t x =
     (case x of
        (Inl _, st1) \<Rightarrow> get_thread r t (ag_sessions st1) = None
      | (Inr _, st1) \<Rightarrow> \<exists>th. get_thread r t (ag_sessions st1) = Some th \<and> thread_state th \<noteq> Processing)"

lemma turn_body_settled:
  assumes "r < length (session_store (ag_sessions st))"
  shows "settled r t (turn_body me ae r t ms st)"
proof -
  have "length (session_store (upd_session r f m)) = length (session_store m)" for f m by (simp add: upd_session_def)
  then have "r < length (session_store (ag_sessions (chat_back r cs st)))" for cs
    using assms by (simp add: chat_back_def)
  then show ?thesis
    by (auto simp: settled_def turn_body_def Let_def dest: finish_turn_fails finish_turn_ends split: prod.split sum.split)
qed


subsection \<open>Tokens are not recorded\<close>

lemma turns_on_thread:
  assumes "\<And>th. turns (f th) = turns th"
  shows "map_option turns (map_of (threads (on_thread tid f sess)) t) = map_option turns (map_of (threads sess) t)"
  using assms by (cases "t = tid") (simp_all add: map_of_on_thread on_thread_frame option.map_comp comp_def)

lemma process_auth_token_turns:
  assumes "process_auth_token ae conf p token st = (answer, st1)"
  shows "map_option turns (map_of (threads (cs_session st1)) t) = map_option turns (map_of (threads (cs_session st)) t)"
  using assms
  by (auto simp: process_auth_token_def Let_def turns_on_thread enter_auth_mode_def
      split: option.splits prod.splits token_outcome.splits if_splits)

text \<open>
  While a thread waits for a token, what the user types is not recorded: a message that the
  interception answers changes no turn of any thread of any session and no conversation row, whether
  the token is accepted, refused or too late.
\<close>

theorem tokens_not_recorded:
  "case intercept_auth me msg r t sub st of
     (None, st1) \<Rightarrow> ag_rows st1 = ag_rows st
   | (Some _, st1) \<Rightarrow> ag_rows st1 = ag_rows st \<and>
       map_option turns (get_thread r' t' (ag_sessions st1)) = map_option turns (get_thread r' t' (ag_sessions st))"
proof -
  have upd: "map_option turns (get_thread r' t' (upd_session r f m)) = map_option turns (get_thread r' t' m)"
    if "\<And>t'. map_option turns (map_of (threads (f (session_store m ! r))) t') = map_option turns (map_of (threads (session_store m ! r)) t')"
    for f m
    using that by (cases "r' = r \<and> r < length (session_store m)") (auto simp: get_thread_def upd_session_def nth_list_update list_update_beyond)
  have "map_option turns (get_thread r' t' (ag_sessions (clear_auth r t st))) = map_option turns (get_thread r' t' (ag_sessions st))"
    by (simp add: clear_auth_def upd turns_on_thread)
  moreover have "map_option turns (get_thread r' t' (ag_sessions (chat_back r cs st))) = map_option turns (get_thread r' t' (ag_sessions st))"
    if "process_auth_token ae conf p token (chat_view r st) = (answer, cs)" for ae conf p token answer cs
    using process_auth_token_turns [OF that] by (simp add: chat_back_def chat_view_def upd)
  moreover have "ag_rows (clear_auth r t st) = ag_rows st" "ag_rows (chat_back r cs st) = ag_rows st" for cs
    by (simp_all add: clear_auth_def chat_back_def)
  ultimately show ?thesis
    by (auto simp: intercept_auth_def split: option.split Submission.split prod.split)
qed

text \<open>
  The hooks, however, see the token: before the thread is resolved, and so before the interception, the
  text of a message that is user input is passed to the inbound hooks.
\<close>

lemma hooks_see_tokens:
  "inbound_hooks me msg (UserInput token) w =
     (case run_hooks (ce_encode (ap_chat (me_base me))) (ev_decode (me_exec me)) (ev_fmt (me_exec me)) (ce_hooks (ap_chat (me_base me)))
             (InboundEvent (im_user_id msg) (im_channel msg) token (im_thread_id msg)) w of
        (Inl (HookRejected reason), w1) \<Rightarrow> (Err (''[Message rejected: '' @ reason @ '']''), w1)
      | (Inl e, w1) \<Rightarrow> (Err (''[Message blocked by hook policy: '' @ show_hook_error (ev_fmt (me_exec me)) e @ '']''), w1)
      | (Inr (HookContinue (Some new_content)), w1) \<Rightarrow> (Ok (UserInput new_content), w1)
      | (Inr _, w1) \<Rightarrow> (Ok (UserInput token), w1))"
  by (simp add: inbound_hooks_def Let_def)

subsection \<open>Silent replies\<close>

text \<open>
  A silent reply shuts the agent down. When the result of a message is a response that the model
  marks as silent, the handler returns what the loop takes for the request to quit: the loop ends, and
  the messages that follow are not handled.
\<close>

theorem silent_reply_ends_loop:
  assumes "\<not> is_internal msg" "me_middleware me = []" "is_silent_reply s"
    and st0: "st0 = set_world (me_set_context me (im_channel msg) (unwrap_or (routing_target msg) (im_user_id msg))
               (store_extracted_documents me msg (ag_world st))) st"
    and "inbound_hooks me msg (parse_submission (ev_lower (me_exec me)) (me_parse_uuid me) (me_decode_approval me) (im_content msg))
               (ag_world st0) = (Inr sub, w1)"
    and "hydrate me msg (set_world w1 st0) = (None, st2)"
    and "resolve_message me msg sub st2 = ((r, t), st3)"
    and "intercept_auth me msg r t sub st3 = (None, st4)"
    and "routine_triggers me msg sub (ag_world st4) = (False, w5)"
    and "dispatch_submission me msg r t sub (set_world w5 st4) = (Some (Ok (Response s)), st6)"
  shows "message_loop me (msg # msgs) st = (msgs, st6)"
proof -
  have "handle_message me msg (set_world (store_extracted_documents me msg (ag_world st)) st) = (Ok None, st6)"
    using assms by (simp add: handle_message_def reply_of_def Let_def)
  then show ?thesis using assms(2) by (simp add: message_round_def)
qed

end
