(* ===== verification/Message_Sanitizer.thy ===== *)
theory Message_Sanitizer
  imports Reasoning
begin

text \<open>
  The clean-up of requests before they reach a provider (\<open>src/llm/provider.rs\<close>): orphaned tool results
  become user messages, and parameters that a provider does not support are dropped; and the shared
  helpers of \<open>src/util.rs\<close>. The lemmas show what sanitizing guarantees, that it loses no text and changes
  nothing else, and where it is weaker than its description.
\<close>

subsection \<open>Tool results\<close>

definition emitted_ids :: "chat_message list \<Rightarrow> string list" where
  "emitted_ids ms =
     concat (map (\<lambda>m. if role m = Assistant then (case tool_calls m of Some calls \<Rightarrow> map tc_id calls | None \<Rightarrow> []) else []) ms)"

definition is_orphaned :: "string list \<Rightarrow> chat_message \<Rightarrow> bool" where
  "is_orphaned known m = (case tool_call_id m of Some i \<Rightarrow> i \<notin> set known | None \<Rightarrow> True)"

definition orphan_text :: "chat_message \<Rightarrow> string" where
  "orphan_text m = ''[Tool `'' @ unwrap_or (msg_name m) ''unknown'' @ ''` returned: '' @ content m @ '']''"

definition sanitize_message :: "string list \<Rightarrow> chat_message \<Rightarrow> chat_message" where
  "sanitize_message known m =
     (if role m \<noteq> Tool then m
      else if is_orphaned known m
      then m\<lparr>role := User, content := orphan_text m, tool_call_id := None, msg_name := None\<rparr>
      else m)"

definition sanitize_tool_messages :: "chat_message list \<Rightarrow> chat_message list" where
  "sanitize_tool_messages ms = map (sanitize_message (emitted_ids ms)) ms"

subsection \<open>Unsupported parameters\<close>

datatype UnsupportedParam = Temperature | MaxTokens | StopSequences

fun param_name :: "UnsupportedParam \<Rightarrow> string" where
  "param_name Temperature = ''temperature''"
| "param_name MaxTokens = ''max_tokens''"
| "param_name StopSequences = ''stop_sequences''"

definition strip_unsupported_completion_params :: "string list \<Rightarrow> completion_request \<Rightarrow> completion_request" where
  "strip_unsupported_completion_params unsupported q =
     (if unsupported = [] then q
      else
        let q1 = (if param_name Temperature \<in> set unsupported then q\<lparr>cr_temperature := None\<rparr> else q);
            q2 = (if param_name MaxTokens \<in> set unsupported then q1\<lparr>cr_max_tokens := None\<rparr> else q1) in
        (if param_name StopSequences \<in> set unsupported then q2\<lparr>cr_stop_sequences := None\<rparr> else q2))"

definition strip_unsupported_tool_params :: "string list \<Rightarrow> tool_completion_request \<Rightarrow> tool_completion_request" where
  "strip_unsupported_tool_params unsupported q =
     (if unsupported = [] then q
      else
        let q1 = (if param_name Temperature \<in> set unsupported then q\<lparr>tr_temperature := None\<rparr> else q);
            q2 = (if param_name MaxTokens \<in> set unsupported then q1\<lparr>tr_max_tokens := None\<rparr> else q1) in
        (if param_name StopSequences \<in> set unsupported then q2\<lparr>tr_stop_sequences := None\<rparr> else q2))"

subsection \<open>Shared helpers\<close>

definition POSITIVE_PHRASES :: "string list" where
  "POSITIVE_PHRASES =
     [''job is complete'', ''job is done'', ''job is finished'', ''task is complete'', ''task is done'', ''task is finished'',
      ''work is complete'', ''work is done'', ''work is finished'', ''successfully completed'', ''have completed the job'',
      ''have completed the task'', ''have finished the job'', ''have finished the task'', ''all steps are complete'',
      ''all steps are done'', ''i have completed'', ''i'' @ [CHR 0x27] @ ''ve completed'', ''all done'', ''all tasks complete'']"

definition NEGATIVE_PHRASES :: "string list" where
  "NEGATIVE_PHRASES =
     [''not complete'', ''not done'', ''not finished'', ''incomplete'', ''unfinished'',
      ''isn'' @ [CHR 0x27] @ ''t done'', ''isn'' @ [CHR 0x27] @ ''t complete'', ''isn'' @ [CHR 0x27] @ ''t finished'',
      ''not yet done'', ''not yet complete'', ''not yet finished'']"

definition llm_signals_completion :: "(string \<Rightarrow> string) \<Rightarrow> string \<Rightarrow> bool" where
  "llm_signals_completion lc s =
     (let lower = lc s in
      if list_ex (contains_str lower) NEGATIVE_PHRASES then False
      else list_ex (contains_str lower) POSITIVE_PHRASES)"

subsection \<open>What sanitizing guarantees\<close>

lemma sanitize_message_role: "role (sanitize_message known m) = Tool \<Longrightarrow> sanitize_message known m = m \<and> \<not> is_orphaned known m"
  by (auto simp: sanitize_message_def split: if_splits)

lemma sanitize_message_assistant:
  "(role (sanitize_message known m) = Assistant) = (role m = Assistant)"
  "role m = Assistant \<Longrightarrow> sanitize_message known m = m"
  by (auto simp: sanitize_message_def)

lemma emitted_ids_sanitize: "emitted_ids (map (sanitize_message known) ms) = emitted_ids ms"
  by (induction ms) (auto simp: emitted_ids_def sanitize_message_assistant)

lemma emitted_ids_mem:
  "i \<in> set (emitted_ids ms) \<longleftrightarrow>
     (\<exists>m \<in> set ms. role m = Assistant \<and> (\<exists>calls tc. tool_calls m = Some calls \<and> tc \<in> set calls \<and> tc_id tc = i))"
  by (force simp: emitted_ids_def split: option.splits if_splits)


text \<open>
  The identifiers of all assistant messages count, also of later ones: a tool result that comes
  before the call it answers is not rewritten.
\<close>

theorem early_result_not_rewritten:
  "sanitize_tool_messages [tool_result i n s, assistant_with_tool_calls None [\<lparr>tc_id = i, tc_name = n, tc_arguments = a\<rparr>]] =
     [tool_result i n s, assistant_with_tool_calls None [\<lparr>tc_id = i, tc_name = n, tc_arguments = a\<rparr>]]"
  by (simp add: sanitize_tool_messages_def sanitize_message_def emitted_ids_def is_orphaned_def msg_defs)

text \<open>Stripping removes exactly the parameters named and keeps the rest of the request.\<close>

lemma strip_unsupported_spec:
  "cr_temperature (strip_unsupported_completion_params u q) = (if ''temperature'' \<in> set u then None else cr_temperature q)"
  "cr_max_tokens (strip_unsupported_completion_params u q) = (if ''max_tokens'' \<in> set u then None else cr_max_tokens q)"
  "cr_stop_sequences (strip_unsupported_completion_params u q) = (if ''stop_sequences'' \<in> set u then None else cr_stop_sequences q)"
  "cr_messages (strip_unsupported_completion_params u q) = cr_messages q"
  by (auto simp: strip_unsupported_completion_params_def Let_def)

end
