(* ===== verification/Job_Worker.thy ===== *)
theory Job_Worker
  imports Approval Scheduler Message_Sanitizer Rate_Limiter
begin

text \<open>
  The worker of a job (\<open>src/worker/job.rs\<close>), with the summary of a failed job
  (\<open>src/context/fallback.rs\<close>) and planning (\<open>src/llm/reasoning.rs\<close>): it waits for the start message, runs
  a plan if planning is on, then the agentic loop with the job delegate, and records how the job ended.

  The record \<open>job_world\<close> is everything a job shares with the rest of the program: the registry, the
  worker's message queue, the rate limiter, and what has been written to the database and to the web
  clients. Tools, hooks and the model act on this world, so whatever other tasks do while the
  worker waits for one of them is part of its effect. Writes by detached tasks are listed in the order
  in which they are started.

  Lemmas: a tool runs only past approval, rate limit, hooks, the cancellation check and validation; the
  outcomes of a run; what the queue loses; what is logged.
\<close>

subsection \<open>Data\<close>

datatype SseEvent =
    JobMessage string string string
  | JobToolUse string string json
  | JobToolResult string string string
  | JobStatus string string
  | JobResult string string "string option" "json option"

record ('d, 'x) job_world =
  jw_contexts :: "'d context_manager"
  jw_queue :: "WorkerMessage list"
  jw_limiter :: rate_limiter
  jw_events :: "(uuid \<times> string \<times> json) list"
  jw_sse :: "SseEvent list"
  jw_statuses :: "(uuid \<times> JobState \<times> string option) list"
  jw_actions :: "(uuid \<times> 'd action_record) list"
  jw_failures :: "(string \<times> string) list"
  jw_outside :: 'x

record planned_action =
  pa_tool_name :: string
  pa_parameters :: json
  pa_reasoning :: string
  pa_expected_outcome :: string

text \<open>The two doubles of a plan are their bit patterns; they are only logged.\<close>

record action_plan =
  pl_goal :: string
  pl_actions :: "planned_action list"
  pl_estimated_cost :: "u64 option"
  pl_estimated_time_secs :: "u64 option"
  pl_confidence :: u64

text \<open>
  The dependencies of a worker and the library functions it uses: \<open>wd_json\<close> prints JSON on one line,
  \<open>wd_plan\<close> reads a plan from JSON text, \<open>wd_schedule\<close> is the order in which parallel tasks finish and
  \<open>wd_sleep\<close> what other tasks do while the worker sleeps.
\<close>

record ('d, 'x) worker_deps =
  wd_exec :: "('d, 'x) job_world exec_env"
  wd_llm :: "('d, 'x) job_world llm_provider"
  wd_model :: string
  wd_re :: re_engine
  wd_prompt :: "tool_definition list \<Rightarrow> string"
  wd_tool_definitions :: "('d, 'x) job_world \<Rightarrow> tool_definition list"
  wd_rate_limit_config :: "('d, 'x) job_world tool \<Rightarrow> rate_limit_config option"
  wd_hooks :: "('d, 'x) job_world hook_registry"
  wd_store :: bool
  wd_sse_tx :: bool
  wd_use_planning :: bool
  wd_approval_context :: "ApprovalContext option"
  wd_http_interceptor :: "nat option"
  wd_json :: "json \<Rightarrow> string"
  wd_plan :: "string \<Rightarrow> (string, action_plan) result"
  wd_render :: "uuid \<Rightarrow> string"
  wd_decimal :: "'d \<Rightarrow> string"
  wd_now :: "('d, 'x) job_world \<Rightarrow> datetime"
  wd_clock :: "('d, 'x) job_world \<Rightarrow> nat \<Rightarrow> instant"
  wd_elapsed :: "('d, 'x) job_world \<Rightarrow> ('d, 'x) job_world \<Rightarrow> duration"
  wd_fresh :: "('d, 'x) job_world \<Rightarrow> uuid"
  wd_schedule :: "('d, 'x) job_world \<Rightarrow> nat \<Rightarrow> nat list"
  wd_sleep :: "duration \<Rightarrow> ('d, 'x) job_world \<Rightarrow> ('d, 'x) job_world"

fun worker_error :: "('d, 'x) worker_deps \<Rightarrow> Error \<Rightarrow> string" where
  "worker_error wd (LlmErr e) = ''LLM error: '' @ show_llm_error (ev_fmto (wd_exec wd)) e"
| "worker_error wd (ToolErr e) = ''Tool error: '' @ show_tool_error (ev_fmt (wd_exec wd)) (ev_fmto (wd_exec wd)) e"
| "worker_error wd (JobErr e) = ''Job error: '' @ show_job_error (wd_render wd) (ev_fmt (wd_exec wd)) e"

subsection \<open>Fallback deliverables\<close>

record LastAction =
  la_tool_name :: string
  la_output_preview :: string
  la_success :: bool

record ActionStats =
  as_total :: u32
  as_successful :: u32
  as_failed :: u32

record FallbackDeliverable =
  fb_partial :: bool
  fb_failure_reason :: string
  fb_last_action :: "LastAction option"
  fb_action_stats :: ActionStats
  fb_tokens_used :: u64
  fb_cost :: string
  fb_elapsed_secs :: nat
  fb_repair_attempts :: u32

definition truncate_str :: "string \<Rightarrow> nat \<Rightarrow> string" where
  "truncate_str s max_len = take (floor_char_boundary s max_len) s"

definition preview_of :: "(json \<Rightarrow> string) \<Rightarrow> 'd action_record \<Rightarrow> string" where
  "preview_of show_json a =
     (case output_sanitized a of
        Some (JString s) \<Rightarrow> s
      | Some v \<Rightarrow> show_json v
      | None \<Rightarrow> (case ar_error a of Some e \<Rightarrow> e | None \<Rightarrow> []))"

definition fallback_build ::
  "(json \<Rightarrow> string) \<Rightarrow> ('d \<Rightarrow> string) \<Rightarrow> datetime \<Rightarrow> 'd job_context \<Rightarrow> 'd memory \<Rightarrow> string \<Rightarrow> FallbackDeliverable" where
  "fallback_build show_json show_dec now c m reason =
     (let ok = (of_nat (successful_actions m) :: u32);
          bad = (of_nat (failed_actions m) :: u32);
          total = (of_nat (length (actions m)) :: u32) in
      \<lparr>fb_partial = (0 < ok),
       fb_failure_reason = truncate_str reason 1000,
       fb_last_action =
         map_option (\<lambda>a. \<lparr>la_tool_name = tool_name a, la_output_preview = truncate_str (preview_of show_json a) 200,
                          la_success = success a\<rparr>) (last_action m),
       fb_action_stats = \<lparr>as_total = total, as_successful = ok, as_failed = bad\<rparr>,
       fb_tokens_used = total_tokens_used c,
       fb_cost = show_dec (actual_cost c),
       fb_elapsed_secs = unwrap_or (elapsed now c) 0,
       fb_repair_attempts = repair_attempts c\<rparr>)"

text \<open>The serialized form; whole seconds print as a floating-point number.\<close>

definition json_nat :: "nat \<Rightarrow> json" where "json_nat n = JNumber (show_nat n)"

definition json_of_last_action :: "LastAction \<Rightarrow> json" where
  "json_of_last_action a =
     JObject [(''tool_name'', JString (la_tool_name a)), (''output_preview'', JString (la_output_preview a)),
              (''success'', JBool (la_success a))]"

definition json_of_stats :: "ActionStats \<Rightarrow> json" where
  "json_of_stats s =
     JObject [(''total'', json_nat (unat (as_total s))), (''successful'', json_nat (unat (as_successful s))),
              (''failed'', json_nat (unat (as_failed s)))]"

definition json_of_fallback :: "FallbackDeliverable \<Rightarrow> json" where
  "json_of_fallback fb =
     JObject [(''partial'', JBool (fb_partial fb)),
              (''failure_reason'', JString (fb_failure_reason fb)),
              (''last_action'', case fb_last_action fb of None \<Rightarrow> JNull | Some a \<Rightarrow> json_of_last_action a),
              (''action_stats'', json_of_stats (fb_action_stats fb)),
              (''tokens_used'', json_nat (unat (fb_tokens_used fb))),
              (''cost'', JString (fb_cost fb)),
              (''elapsed_secs'', JNumber (show_nat (fb_elapsed_secs fb) @ ''.0'')),
              (''repair_attempts'', json_nat (unat (fb_repair_attempts fb)))]"

definition store_fallback_in_metadata :: "FallbackDeliverable option \<Rightarrow> 'd job_context \<Rightarrow> 'd job_context" where
  "store_fallback_in_metadata fb c =
     (case fb of
        None \<Rightarrow> c
      | Some f \<Rightarrow>
          let kvs = (case metadata c of JObject kvs \<Rightarrow> kvs | _ \<Rightarrow> []) in
          c\<lparr>metadata := JObject (AList.update ''fallback_deliverable'' (json_of_fallback f) kvs)\<rparr>)"

subsection \<open>Events and status\<close>

definition str_or :: "json \<Rightarrow> string \<Rightarrow> string \<Rightarrow> string" where
  "str_or data k d = unwrap_or (jget_str data k) d"

definition sse_event :: "string \<Rightarrow> string \<Rightarrow> json \<Rightarrow> SseEvent option" where
  "sse_event jid et data =
     (if et = ''message'' then Some (JobMessage jid (str_or data ''role'' ''assistant'') (str_or data ''content'' []))
      else if et = ''tool_use''
      then Some (JobToolUse jid (str_or data ''tool_name'' ''unknown'') (unwrap_or (jget data ''input'') JNull))
      else if et = ''tool_result''
      then Some (JobToolResult jid (str_or data ''tool_name'' ''unknown'') (str_or data ''output'' []))
      else if et = ''status'' then Some (JobStatus jid (str_or data ''message'' []))
      else if et = ''result''
      then Some (JobResult jid (str_or data ''status'' ''completed'') (jget_str data ''session_id'')
                   (jget data ''fallback_deliverable''))
      else None)"

definition log_event ::
  "('d, 'x) worker_deps \<Rightarrow> uuid \<Rightarrow> string \<Rightarrow> json \<Rightarrow> ('d, 'x) job_world \<Rightarrow> ('d, 'x) job_world" where
  "log_event wd jid et data st =
     (let st1 = (if wd_store wd then st\<lparr>jw_events := jw_events st @ [(jid, et, data)]\<rparr> else st) in
      if wd_sse_tx wd
      then (case sse_event (wd_render wd jid) et data of
              Some ev \<Rightarrow> st1\<lparr>jw_sse := jw_sse st1 @ [ev]\<rparr>
            | None \<Rightarrow> st1)
      else st1)"

definition persist_status ::
  "('d, 'x) worker_deps \<Rightarrow> uuid \<Rightarrow> JobState \<Rightarrow> string option \<Rightarrow> ('d, 'x) job_world \<Rightarrow> ('d, 'x) job_world" where
  "persist_status wd jid s reason st =
     (if wd_store wd then st\<lparr>jw_statuses := jw_statuses st @ [(jid, s, reason)]\<rparr> else st)"

definition message_data :: "string \<Rightarrow> string \<Rightarrow> json" where
  "message_data r s = JObject [(''role'', JString r), (''content'', JString s)]"

definition status_data :: "string \<Rightarrow> json" where
  "status_data s = JObject [(''message'', JString s)]"

definition result_data :: "string \<Rightarrow> bool \<Rightarrow> string \<Rightarrow> json" where
  "result_data s ok msg = JObject [(''status'', JString s), (''success'', JBool ok), (''message'', JString msg)]"

subsection \<open>Ending a job\<close>

text \<open>An update of the job's context whose closure may refuse it.\<close>

definition change_job ::
  "uuid \<Rightarrow> ('d job_context \<Rightarrow> (string, unit) result \<times> 'd job_context) \<Rightarrow> ('d, 'x) job_world
     \<Rightarrow> (Error, unit) result \<times> ('d, 'x) job_world" where
  "change_job jid f st =
     (case update_context jid f (jw_contexts st) of
        (Inl e, cm) \<Rightarrow> (Err (JobErr e), st\<lparr>jw_contexts := cm\<rparr>)
      | (Inr (Inl s), cm) \<Rightarrow> (Err (JobErr (ContextError jid s)), st\<lparr>jw_contexts := cm\<rparr>)
      | (Inr (Inr _), cm) \<Rightarrow> (Ok (), st\<lparr>jw_contexts := cm\<rparr>))"

definition mark_completed ::
  "('d, 'x) worker_deps \<Rightarrow> uuid \<Rightarrow> ('d, 'x) job_world \<Rightarrow> (Error, unit) result \<times> ('d, 'x) job_world" where
  "mark_completed wd jid st =
     (let now = wd_now wd st; msg = ''Job completed successfully'' in
      case change_job jid (transition_to now now Completed (Some msg)) st of
        (Inl e, st1) \<Rightarrow> (Err e, st1)
      | (Inr _, st1) \<Rightarrow>
          (Ok (), persist_status wd jid Completed (Some msg)
                    (log_event wd jid ''result'' (result_data ''completed'' True msg) st1)))"

definition build_fallback ::
  "('d, 'x) worker_deps \<Rightarrow> uuid \<Rightarrow> string \<Rightarrow> ('d, 'x) job_world \<Rightarrow> FallbackDeliverable option" where
  "build_fallback wd jid reason st =
     (case get_memory jid (jw_contexts st) of
        Inl _ \<Rightarrow> None
      | Inr m \<Rightarrow>
          (case get_context jid (jw_contexts st) of
             Inl _ \<Rightarrow> None
           | Inr c \<Rightarrow> Some (fallback_build (wd_json wd) (wd_decimal wd) (wd_now wd st) c m reason)))"

text \<open>The closure of a failing mark: the transition, and only if it is legal the fallback.\<close>

definition with_fallback ::
  "FallbackDeliverable option \<Rightarrow> ('d job_context \<Rightarrow> (string, unit) result \<times> 'd job_context)
     \<Rightarrow> 'd job_context \<Rightarrow> (string, unit) result \<times> 'd job_context" where
  "with_fallback fb move c =
     (case move c of (Inl e, c1) \<Rightarrow> (Err e, c1) | (Inr _, c1) \<Rightarrow> (Ok (), store_fallback_in_metadata fb c1))"

definition mark_failed ::
  "('d, 'x) worker_deps \<Rightarrow> uuid \<Rightarrow> string \<Rightarrow> ('d, 'x) job_world \<Rightarrow> (Error, unit) result \<times> ('d, 'x) job_world" where
  "mark_failed wd jid reason st =
     (let now = wd_now wd st; fb = build_fallback wd jid reason st in
      case change_job jid (with_fallback fb (transition_to now now Failed (Some reason))) st of
        (Inl e, st1) \<Rightarrow> (Err e, st1)
      | (Inr _, st1) \<Rightarrow>
          (Ok (), persist_status wd jid Failed (Some reason)
                    (log_event wd jid ''result'' (result_data ''failed'' False (''Execution failed: '' @ reason)) st1)))"

definition mark_job_stuck ::
  "('d, 'x) worker_deps \<Rightarrow> uuid \<Rightarrow> string \<Rightarrow> ('d, 'x) job_world \<Rightarrow> (Error, unit) result \<times> ('d, 'x) job_world" where
  "mark_job_stuck wd jid reason st =
     (let now = wd_now wd st; fb = build_fallback wd jid reason st in
      case change_job jid (with_fallback fb (mark_stuck now now reason)) st of
        (Inl e, st1) \<Rightarrow> (Err e, st1)
      | (Inr _, st1) \<Rightarrow>
          (Ok (), persist_status wd jid Stuck (Some reason)
                    (log_event wd jid ''result'' (result_data ''stuck'' False (''Job stuck: '' @ reason)) st1)))"

subsection \<open>Running one tool\<close>

text \<open>
  The checks before the hooks: the tool exists, the job exists, the call is not blocked for
  autonomous runs and within the tool's rate. What passes is the tool, the normalized parameters and
  the job's context as it was read here.
\<close>

definition tool_gate ::
  "('d, 'x) worker_deps \<Rightarrow> uuid \<Rightarrow> string \<Rightarrow> json \<Rightarrow> ('d, 'x) job_world
     \<Rightarrow> (Error, ('d, 'x) job_world tool \<times> json \<times> 'd job_context) result \<times> ('d, 'x) job_world" where
  "tool_gate wd jid tname params st =
     (case ev_lookup (wd_exec wd) st tname of
        None \<Rightarrow> (Err (ToolErr (NotFoundTool tname)), st)
      | Some t \<Rightarrow>
      let normalized = normalized_params (wd_exec wd) t params in
      case get_context jid (jw_contexts st) of
        Inl e \<Rightarrow> (Err (JobErr e), st)
      | Inr c0 \<Rightarrow>
      let c = (if http_interceptor c0 = None then c0\<lparr>http_interceptor := wd_http_interceptor wd\<rparr> else c0) in
      if is_blocked_or_default (wd_approval_context wd) tname (requires_approval t normalized)
      then (Err (ToolErr (autonomous_unavailable_error tname (user_id c))), st)
      else case wd_rate_limit_config wd t of
        None \<Rightarrow> (Ok (t, normalized, c), st)
      | Some cfg \<Rightarrow>
          (case check_and_record (wd_clock wd st) (user_id c, tname) cfg (jw_limiter st) of
             (RateAllowed _ _, lim) \<Rightarrow> (Ok (t, normalized, c), st\<lparr>jw_limiter := lim\<rparr>)
           | (RateLimited_after d _, lim) \<Rightarrow> (Err (ToolErr (RateLimitedTool tname (Some d))), st\<lparr>jw_limiter := lim\<rparr>)))"

definition tool_hooks ::
  "('d, 'x) worker_deps \<Rightarrow> uuid \<Rightarrow> string \<Rightarrow> ('d, 'x) job_world tool \<Rightarrow> json \<Rightarrow> 'd job_context \<Rightarrow> ('d, 'x) job_world
     \<Rightarrow> (Error, json) result \<times> ('d, 'x) job_world" where
  "tool_hooks wd jid tname t normalized c st =
     (let ev = ToolCallEvent tname (redact_params normalized (sensitive_params t)) (user_id c) (''job:'' @ wd_render wd jid) in
      case run_hooks (wd_json wd) (ev_decode (wd_exec wd)) (ev_fmt (wd_exec wd)) (wd_hooks wd) ev st of
        (Inl (HookRejected reason), st1) \<Rightarrow>
          (Err (ToolErr (ExecutionFailed tname (''Blocked by hook: '' @ reason))), st1)
      | (Inl err, st1) \<Rightarrow>
          (Err (ToolErr (ExecutionFailed tname
             (''Blocked by hook failure mode: '' @ show_hook_error (ev_fmt (wd_exec wd)) err))), st1)
      | (Inr (HookContinue (Some new_params)), st1) \<Rightarrow>
          (case ev_decode (wd_exec wd) new_params of
             Some parsed \<Rightarrow> (Ok (normalized_params (wd_exec wd) t parsed), st1)
           | None \<Rightarrow> (Ok normalized, st1))
      | (Inr _, st1) \<Rightarrow> (Ok normalized, st1))"

text \<open>The outcome of a run as an action record; the parameters are recorded redacted.\<close>

definition finish_action ::
  "('d, 'x) worker_deps \<Rightarrow> string \<Rightarrow> (ToolRunError, json) result option \<Rightarrow> duration \<Rightarrow> 'd action_record \<Rightarrow> 'd action_record" where
  "finish_action wd tname res dur a =
     (let env = wd_exec wd in
      case res of
        Some (Inr r) \<Rightarrow>
          succeed (\<lambda>v. case ev_pretty env v of Inr s \<Rightarrow> Some s | Inl _ \<Rightarrow> None)
            (case ev_pretty env r of
               Inr s \<Rightarrow> Some (so_content (sanitize_tool_output (ev_regex env) (ev_safety env) tname s))
             | Inl _ \<Rightarrow> None) r dur a
      | Some (Inl e) \<Rightarrow> fail_action (show_tool_run_error (ev_fmt env) (ev_fmto env) e) dur a
      | None \<Rightarrow> fail_action ''Execution timeout'' dur a)"

definition remember_action ::
  "('d, 'x) worker_deps \<Rightarrow> uuid \<Rightarrow> string \<Rightarrow> json \<Rightarrow> (ToolRunError, json) result option \<Rightarrow> duration
     \<Rightarrow> ('d, 'x) job_world \<Rightarrow> ('d, 'x) job_world" where
  "remember_action wd jid tname safe res dur st =
     (case update_memory jid
             (\<lambda>m. case create_action (wd_fresh wd st) (wd_now wd st) tname safe m of
                    (a, m1) \<Rightarrow> let rec = finish_action wd tname res dur a in (rec, record_action rec m1))
             (jw_contexts st) of
        (Inl _, cm) \<Rightarrow> st\<lparr>jw_contexts := cm\<rparr>
      | (Inr rec, cm) \<Rightarrow>
          if wd_store wd then st\<lparr>jw_contexts := cm, jw_actions := jw_actions st @ [(jid, rec)]\<rparr>
          else st\<lparr>jw_contexts := cm\<rparr>)"

definition run_tool ::
  "('d, 'x) worker_deps \<Rightarrow> uuid \<Rightarrow> string \<Rightarrow> ('d, 'x) job_world tool \<Rightarrow> json \<Rightarrow> ('d, 'x) job_world
     \<Rightarrow> (Error, string) result \<times> ('d, 'x) job_world" where
  "run_tool wd jid tname t effective st =
     (let env = wd_exec wd in
      case t_execute t effective st of (res, st1) \<Rightarrow>
        let st2 = remember_action wd jid tname (redact_params effective (sensitive_params t)) res (wd_elapsed wd st st1) st1 in
        case res of
          None \<Rightarrow> (Err (ToolErr (ToolTimeout tname (execution_timeout t))), st2)
        | Some (Inl e) \<Rightarrow>
            (Err (ToolErr (ExecutionFailed tname (show_tool_run_error (ev_fmt env) (ev_fmto env) e))), st2)
        | Some (Inr r) \<Rightarrow>
            (case ev_pretty env r of
               Inl e \<Rightarrow> (Err (ToolErr (ExecutionFailed tname (''Failed to serialize result: '' @ e))), st2)
             | Inr s \<Rightarrow> (Ok s, st2)))"

definition execute_tool_inner ::
  "('d, 'x) worker_deps \<Rightarrow> uuid \<Rightarrow> string \<Rightarrow> json \<Rightarrow> ('d, 'x) job_world \<Rightarrow> (Error, string) result \<times> ('d, 'x) job_world" where
  "execute_tool_inner wd jid tname params st =
     (case tool_gate wd jid tname params st of
        (Inl e, st1) \<Rightarrow> (Err e, st1)
      | (Inr (t, normalized, c), st1) \<Rightarrow>
      case tool_hooks wd jid tname t normalized c st1 of
        (Inl e, st2) \<Rightarrow> (Err e, st2)
      | (Inr effective, st2) \<Rightarrow>
      if state c = Cancelled then (Err (ToolErr (ExecutionFailed tname ''Job is cancelled'')), st2)
      else let v = validate_params (wd_exec wd) effective in
      if \<not> vr_is_valid v then (Err (ToolErr (invalid_params_error tname v)), st2)
      else run_tool wd jid tname t effective st2)"

subsection \<open>Several tools, and their results\<close>

text \<open>The tasks in the order in which they finish; a task that never does leaves its slot empty.\<close>

fun run_parallel ::
  "('d, 'x) worker_deps \<Rightarrow> uuid \<Rightarrow> tool_selection list \<Rightarrow> nat list \<Rightarrow> (Error, string) result option list \<Rightarrow> ('d, 'x) job_world
     \<Rightarrow> (Error, string) result option list \<times> ('d, 'x) job_world" where
  "run_parallel wd jid sels [] slots st = (slots, st)"
| "run_parallel wd jid sels (i # order) slots st =
     (if length sels \<le> i then run_parallel wd jid sels order slots st
      else case execute_tool_inner wd jid (ts_tool_name (sels ! i)) (ts_parameters (sels ! i)) st of
             (r, st1) \<Rightarrow> run_parallel wd jid sels order (slots[i := Some r]) st1)"

definition slot_result :: "tool_selection \<Rightarrow> (Error, string) result option \<Rightarrow> (Error, string) result" where
  "slot_result sel slot =
     unwrap_or slot (Err (ToolErr (ExecutionFailed (ts_tool_name sel) ''Task failed during execution'')))"

definition execute_tools_parallel ::
  "('d, 'x) worker_deps \<Rightarrow> uuid \<Rightarrow> tool_selection list \<Rightarrow> ('d, 'x) job_world
     \<Rightarrow> (Error, string) result list \<times> ('d, 'x) job_world" where
  "execute_tools_parallel wd jid sels st =
     (case sels of
        [] \<Rightarrow> ([], st)
      | [sel] \<Rightarrow> (case execute_tool_inner wd jid (ts_tool_name sel) (ts_parameters sel) st of (r, st1) \<Rightarrow> ([r], st1))
      | _ \<Rightarrow>
          (case run_parallel wd jid sels (remdups (wd_schedule wd st (length sels))) (replicate (length sels) None) st of
             (slots, st1) \<Rightarrow> (map2 slot_result sels slots, st1)))"

definition result_output :: "('d, 'x) worker_deps \<Rightarrow> string \<Rightarrow> (Error, string) result \<Rightarrow> string" where
  "result_output wd tname res =
     truncate_for_preview
       (case res of
          Inr raw \<Rightarrow> so_content (sanitize_tool_output (ev_regex (wd_exec wd)) (ev_safety (wd_exec wd)) tname raw)
        | Inl e \<Rightarrow> ''Error: '' @ worker_error wd e) 500"

definition tool_use_data :: "('d, 'x) worker_deps \<Rightarrow> tool_selection \<Rightarrow> json" where
  "tool_use_data wd sel =
     JObject [(''tool_name'', JString (ts_tool_name sel)),
              (''input'', JString (truncate_for_preview (wd_json wd (ts_parameters sel)) 500))]"

definition tool_result_data :: "('d, 'x) worker_deps \<Rightarrow> tool_selection \<Rightarrow> (Error, string) result \<Rightarrow> json" where
  "tool_result_data wd sel res =
     JObject [(''tool_name'', JString (ts_tool_name sel)), (''success'', JBool (is_ok res)),
              (''output'', JString (result_output wd (ts_tool_name sel) res))]"

definition record_tool_failure ::
  "('d, 'x) worker_deps \<Rightarrow> string \<Rightarrow> (Error, string) result \<Rightarrow> ('d, 'x) job_world \<Rightarrow> ('d, 'x) job_world" where
  "record_tool_failure wd tname res st =
     (case res of
        Inl e \<Rightarrow> if wd_store wd then st\<lparr>jw_failures := jw_failures st @ [(tname, worker_error wd e)]\<rparr> else st
      | Inr _ \<Rightarrow> st)"

definition process_tool_result_job ::
  "('d, 'x) worker_deps \<Rightarrow> uuid \<Rightarrow> tool_selection \<Rightarrow> (Error, string) result \<Rightarrow> reasoning_context \<Rightarrow> ('d, 'x) job_world
     \<Rightarrow> (Error, unit) result \<times> reasoning_context \<times> ('d, 'x) job_world" where
  "process_tool_result_job wd jid sel res ctx st =
     (let st1 = log_event wd jid ''tool_use'' (tool_use_data wd sel) st;
          msg = snd (process_tool_result (wd_exec wd) (worker_error wd) (ts_tool_name sel) (ts_tool_call_id sel) res);
          st2 = record_tool_failure wd (ts_tool_name sel) res st1;
          st3 = log_event wd jid ''tool_result'' (tool_result_data wd sel res) st2 in
      (case res of Inl (ToolErr (AutonomousUnavailable n r)) \<Rightarrow> Err (ToolErr (AutonomousUnavailable n r)) | _ \<Rightarrow> Ok (),
       push_msgs [msg] ctx, st3))"

text \<open>The results one after the other, up to the first that ends the job.\<close>

fun process_results ::
  "('d, 'x) worker_deps \<Rightarrow> uuid \<Rightarrow> (tool_selection \<times> (Error, string) result) list \<Rightarrow> reasoning_context \<Rightarrow> ('d, 'x) job_world
     \<Rightarrow> (Error, unit) result \<times> reasoning_context \<times> ('d, 'x) job_world" where
  "process_results wd jid [] ctx st = (Ok (), ctx, st)"
| "process_results wd jid ((sel, res) # rest) ctx st =
     (case process_tool_result_job wd jid sel res ctx st of
        (Inl e, ctx1, st1) \<Rightarrow> (Err e, ctx1, st1)
      | (Inr _, ctx1, st1) \<Rightarrow> process_results wd jid rest ctx1 st1)"

subsection \<open>Plans\<close>

definition NL :: string where "NL = [CHR 0x0A]"

definition DQ :: string where "DQ = [CHR 0x22]"

definition planning_format :: string where
  "planning_format =
     ''Respond with a JSON plan in this format:'' @ NL @
     ''{'' @ NL @
     ''    '' @ DQ @ ''goal'' @ DQ @ '': '' @ DQ @ ''Clear statement of the goal'' @ DQ @ '','' @ NL @
     ''    '' @ DQ @ ''actions'' @ DQ @ '': ['' @ NL @
     ''        {'' @ NL @
     ''            '' @ DQ @ ''tool_name'' @ DQ @ '': '' @ DQ @ ''tool_to_use'' @ DQ @ '','' @ NL @
     ''            '' @ DQ @ ''parameters'' @ DQ @ '': {},'' @ NL @
     ''            '' @ DQ @ ''reasoning'' @ DQ @ '': '' @ DQ @ ''Why this action'' @ DQ @ '','' @ NL @
     ''            '' @ DQ @ ''expected_outcome'' @ DQ @ '': '' @ DQ @ ''What should happen'' @ DQ @ NL @
     ''        }'' @ NL @
     ''    ],'' @ NL @
     ''    '' @ DQ @ ''estimated_cost'' @ DQ @ '': 0.0,'' @ NL @
     ''    '' @ DQ @ ''estimated_time_secs'' @ DQ @ '': 0,'' @ NL @
     ''    '' @ DQ @ ''confidence'' @ DQ @ '': 0.0-1.0'' @ NL @
     ''}''"

definition build_planning_prompt :: "reasoning_context \<Rightarrow> string" where
  "build_planning_prompt ctx =
     (let tools_desc =
        (if rc_available_tools ctx = [] then ''No tools available.''
         else join_str NL (map (\<lambda>t. ''- '' @ td_name t @ '': '' @ td_description t) (rc_available_tools ctx))) in
      ''You are a planning assistant for an autonomous agent. Your job is to create detailed, actionable plans.'' @ NL @ NL @
      ''Available tools:'' @ NL @ tools_desc @ NL @ NL @
      ''When creating a plan:'' @ NL @
      ''1. Break down the goal into specific, achievable steps'' @ NL @
      ''2. Select the most appropriate tool for each step'' @ NL @
      ''3. Consider dependencies between steps'' @ NL @
      ''4. Estimate costs and time realistically'' @ NL @
      ''5. Identify potential failure points'' @ NL @ NL @ planning_format)"

definition parse_plan :: "('d, 'x) worker_deps \<Rightarrow> string \<Rightarrow> (LlmError, action_plan) result" where
  "parse_plan wd s =
     (case wd_plan wd (unwrap_or (extract_json s) s) of
        Inl e \<Rightarrow> Err (InvalidResponse (wd_model wd) (''Failed to parse plan: '' @ e))
      | Inr p \<Rightarrow> Ok p)"

text \<open>The bit pattern of the \<open>f32\<close> 0.3.\<close>

abbreviation F32_0_3 :: u32 where "F32_0_3 \<equiv> 0x3E99999A"

definition plan :: "('d, 'x) worker_deps \<Rightarrow> reasoning_context \<Rightarrow> (('d, 'x) job_world, action_plan) llm_call" where
  "plan wd ctx w =
     (let ms = request_messages (build_planning_prompt ctx) (rc_messages ctx) @
               (case rc_job_description ctx of
                  Some job \<Rightarrow> [user_msg (''Please create a plan to complete this job:'' @ NL @ NL @ job)]
                | None \<Rightarrow> []) in
      case llm_complete (wd_llm wd) (with_temperature F32_0_3 (with_max_tokens 2048 (new_request ms))) w of
        (Inl e, w1) \<Rightarrow> (Err e, w1)
      | (Inr resp, w1) \<Rightarrow> (parse_plan wd (clean_text (wd_re wd) (cresp_content resp)), w1))"

definition numbered_steps :: "planned_action list \<Rightarrow> string" where
  "numbered_steps as' =
     join_str NL (map (\<lambda>(i, a). show_nat (i + 1) @ ''. '' @ pa_tool_name a @ '' - '' @ pa_reasoning a) (List.enumerate 0 as'))"

text \<open>The pause between two actions and between two iterations, 100 milliseconds.\<close>

definition PAUSE :: duration where "PAUSE = secs 1 div 10"

text \<open>The messages read before a planned action; the rest of the queue stays in the channel.\<close>

fun plan_signals ::
  "('d, 'x) worker_deps \<Rightarrow> uuid \<Rightarrow> WorkerMessage list \<Rightarrow> reasoning_context \<Rightarrow> ('d, 'x) job_world
     \<Rightarrow> bool \<times> reasoning_context \<times> ('d, 'x) job_world" where
  "plan_signals wd jid [] ctx st = (False, ctx, st\<lparr>jw_queue := []\<rparr>)"
| "plan_signals wd jid (StopJob # q) ctx st = (True, ctx, st\<lparr>jw_queue := q\<rparr>)"
| "plan_signals wd jid (PingJob # q) ctx st = plan_signals wd jid q ctx st"
| "plan_signals wd jid (StartJob # q) ctx st = plan_signals wd jid q ctx st"
| "plan_signals wd jid (UserMessage s # q) ctx st =
     (True, push_msgs [user_msg s] ctx,
      log_event wd jid ''status'' (status_data ''Plan interrupted by user message, re-evaluating...'')
        (log_event wd jid ''message'' (message_data ''user'' s) (st\<lparr>jw_queue := q\<rparr>)))"

definition plan_selection :: "('d, 'x) worker_deps \<Rightarrow> uuid \<Rightarrow> nat \<Rightarrow> planned_action \<Rightarrow> tool_selection" where
  "plan_selection wd jid i a =
     \<lparr>ts_tool_name = pa_tool_name a, ts_parameters = pa_parameters a, ts_reasoning = pa_reasoning a,
      ts_alternatives = [], ts_tool_call_id = ''plan_'' @ wd_render wd jid @ ''_'' @ show_nat i\<rparr>"

definition selection_call :: "tool_selection \<Rightarrow> tool_call" where
  "selection_call s = \<lparr>tc_id = ts_tool_call_id s, tc_name = ts_tool_name s, tc_arguments = ts_parameters s\<rparr>"

text \<open>The planned actions in order: whether all of them were run.\<close>

fun plan_steps ::
  "('d, 'x) worker_deps \<Rightarrow> uuid \<Rightarrow> nat \<Rightarrow> planned_action list \<Rightarrow> reasoning_context \<Rightarrow> ('d, 'x) job_world
     \<Rightarrow> (Error, bool) result \<times> reasoning_context \<times> ('d, 'x) job_world" where
  "plan_steps wd jid i [] ctx st = (Ok True, ctx, st)"
| "plan_steps wd jid i (a # rest) ctx st =
     (case plan_signals wd jid (jw_queue st) ctx st of
        (True, ctx1, st1) \<Rightarrow> (Ok False, ctx1, st1)
      | (False, ctx1, st1) \<Rightarrow>
          let sel = plan_selection wd jid i a;
              ctx2 = push_msgs [assistant_with_tool_calls None [selection_call sel]] ctx1 in
          case execute_tool_inner wd jid (pa_tool_name a) (pa_parameters a) st1 of (r, st2) \<Rightarrow>
          case process_tool_result_job wd jid sel r ctx2 st2 of
            (Inl e, ctx3, st3) \<Rightarrow> (Err e, ctx3, st3)
          | (Inr _, ctx3, st3) \<Rightarrow> plan_steps wd jid (i + 1) rest ctx3 (wd_sleep wd PAUSE st3))"

definition PLAN_DONE_QUESTION :: string where
  "PLAN_DONE_QUESTION =
     ''All planned actions have been executed. Is the job complete? If not, what else needs to be done?''"

definition execute_plan ::
  "('d, 'x) worker_deps \<Rightarrow> uuid \<Rightarrow> action_plan \<Rightarrow> reasoning_context \<Rightarrow> ('d, 'x) job_world
     \<Rightarrow> (Error, unit) result \<times> reasoning_context \<times> ('d, 'x) job_world" where
  "execute_plan wd jid p ctx st =
     (case plan_steps wd jid 0 (pl_actions p) ctx st of
        (Inl e, ctx1, st1) \<Rightarrow> (Err e, ctx1, st1)
      | (Inr False, ctx1, st1) \<Rightarrow> (Ok (), ctx1, st1)
      | (Inr True, ctx1, st1) \<Rightarrow>
          let ctx2 = push_msgs [user_msg PLAN_DONE_QUESTION] ctx1 in
          case respond (wd_re wd) (ev_decode (wd_exec wd)) (wd_json wd) (wd_prompt wd) (wd_llm wd) ctx2 st1 of
            (Inl e, st2) \<Rightarrow> (Err (LlmErr e), ctx2, st2)
          | (Inr s, st2) \<Rightarrow>
              let ctx3 = push_msgs [assistant_msg s] ctx2 in
              if llm_signals_completion (ev_lower (wd_exec wd)) s
              then (case mark_completed wd jid st2 of (r, st3) \<Rightarrow> (r, ctx3, st3))
              else (Ok (), ctx3,
                    log_event wd jid ''status'' (status_data ''Plan completed but job needs more work, continuing...'') st2))"

subsection \<open>The job delegate\<close>

text \<open>Its state: the consecutive rate-limit errors, and the world.\<close>

type_synonym ('d, 'x) delegate_state = "nat \<times> ('d, 'x) job_world"

definition MAX_CONSECUTIVE_RATE_LIMITS :: nat where "MAX_CONSECUTIVE_RATE_LIMITS = 10"

definition empty_output :: respond_output where
  "empty_output = \<lparr>ro_result = RText [],
     ro_usage = \<lparr>tu_input_tokens = 0, tu_output_tokens = 0, tu_cache_read = 0, tu_cache_creation = 0\<rparr>\<rparr>"

definition handle_rate_limit ::
  "('d, 'x) worker_deps \<Rightarrow> uuid \<Rightarrow> duration option \<Rightarrow> ('d, 'x) delegate_state
     \<Rightarrow> (Error, respond_output) result \<times> ('d, 'x) delegate_state" where
  "handle_rate_limit wd jid retry_after s =
     (case s of (n, st) \<Rightarrow>
        let count = n + 1; wait = unwrap_or retry_after (secs 5) in
        if MAX_CONSECUTIVE_RATE_LIMITS \<le> count
        then (case mark_failed wd jid ''Persistent rate limiting: exceeded retry limit'' st of
                (Inl e, st1) \<Rightarrow> (Err e, (count, st1))
              | (Inr _, st1) \<Rightarrow> (Err (LlmErr (RateLimited ''rate-limit-exhausted'' None)), (count, st1)))
        else
          let st1 = log_event wd jid ''status''
                (status_data (''Rate limited, retrying in '' @ show_nat (wait div secs 1) @ ''s... ('' @ show_nat count @
                   ''/'' @ show_nat MAX_CONSECUTIVE_RATE_LIMITS @ '')'')) st in
          (Ok empty_output, (count, wd_sleep wd wait st1)))"

text \<open>Reading the whole queue: whether a stop was among the messages, and the first user message.\<close>

fun drain_queue ::
  "('d, 'x) worker_deps \<Rightarrow> uuid \<Rightarrow> WorkerMessage list \<Rightarrow> bool \<Rightarrow> string option \<Rightarrow> ('d, 'x) job_world
     \<Rightarrow> bool \<times> string option \<times> ('d, 'x) job_world" where
  "drain_queue wd jid [] stp um st = (stp, um, st)"
| "drain_queue wd jid (StopJob # q) stp um st = drain_queue wd jid q True um st"
| "drain_queue wd jid (PingJob # q) stp um st = drain_queue wd jid q stp um st"
| "drain_queue wd jid (StartJob # q) stp um st = drain_queue wd jid q stp um st"
| "drain_queue wd jid (UserMessage s # q) stp um st =
     drain_queue wd jid q stp (if um = None then Some s else um)
       (log_event wd jid ''message'' (message_data ''user'' s) st)"

definition ends_loop :: "JobState \<Rightarrow> bool" where
  "ends_loop s \<longleftrightarrow> s \<in> {Cancelled, Failed, Completed, Submitted, Accepted}"

definition job_check_signals ::
  "('d, 'x) worker_deps \<Rightarrow> uuid \<Rightarrow> ('d, 'x) delegate_state \<Rightarrow> LoopSignal \<times> ('d, 'x) delegate_state" where
  "job_check_signals wd jid s =
     (case s of (n, st) \<Rightarrow>
        case drain_queue wd jid (jw_queue st) False None (st\<lparr>jw_queue := []\<rparr>) of (stp, um, st1) \<Rightarrow>
          if stp then (SignalStop, (n, st1))
          else case um of
            Some m \<Rightarrow> (InjectMessage m, (n, st1))
          | None \<Rightarrow>
              (case get_context jid (jw_contexts st1) of
                 Inr c \<Rightarrow> (if ends_loop (state c) then SignalStop else SignalContinue, (n, st1))
               | Inl _ \<Rightarrow> (SignalContinue, (n, st1))))"

definition job_before_llm_call ::
  "('d, 'x) worker_deps \<Rightarrow> reasoning_context \<Rightarrow> nat \<Rightarrow> ('d, 'x) delegate_state
     \<Rightarrow> LoopOutcome option \<times> reasoning_context \<times> ('d, 'x) delegate_state" where
  "job_before_llm_call wd ctx it s = (None, with_tools (wd_tool_definitions wd (snd s)) ctx, s)"

definition selections_to_tool_calls :: "tool_selection list \<Rightarrow> tool_call list" where
  "selections_to_tool_calls = map selection_call"

definition first_reasoning :: "tool_selection list \<Rightarrow> string option" where
  "first_reasoning sels = map_option ts_reasoning (List.find (\<lambda>s. ts_reasoning s \<noteq> []) sels)"

text \<open>The tokens of an answer counted against the job's budget; over the budget, the job is marked as failed.\<close>

definition count_tokens ::
  "('d, 'x) worker_deps \<Rightarrow> uuid \<Rightarrow> respond_output \<Rightarrow> ('d, 'x) job_world \<Rightarrow> (Error, unit) result \<times> ('d, 'x) job_world" where
  "count_tokens wd jid out st =
     (let total = (ucast (usage_total (ro_usage out)) :: u64) in
      if total = 0 then (Ok (), st)
      else case update_context jid (add_tokens total) (jw_contexts st) of
        (Inl e, cm) \<Rightarrow> (Err (JobErr e), st\<lparr>jw_contexts := cm\<rparr>)
      | (Inr (Inl b), cm) \<Rightarrow>
          mark_failed wd jid
            (''Token budget exceeded: used '' @ show_nat (unat (tbe_used b)) @ '' of '' @ show_nat (unat (tbe_limit b)) @ '' allowed tokens'')
            (st\<lparr>jw_contexts := cm\<rparr>)
      | (Inr (Inr _), cm) \<Rightarrow> (Ok (), st\<lparr>jw_contexts := cm\<rparr>))"

definition job_respond ::
  "('d, 'x) worker_deps \<Rightarrow> uuid \<Rightarrow> reasoning_context \<Rightarrow> ('d, 'x) delegate_state
     \<Rightarrow> (Error, respond_output) result \<times> ('d, 'x) delegate_state" where
  "job_respond wd jid ctx s =
     (case s of (n, st) \<Rightarrow>
        case respond_with_tools (wd_re wd) (ev_decode (wd_exec wd)) (wd_prompt wd) (wd_llm wd) ctx st of
          (Inr out, st1) \<Rightarrow>
            (case count_tokens wd jid out st1 of
               (Inl e, st2) \<Rightarrow> (Err e, (0, st2))
             | (Inr _, st2) \<Rightarrow> (Ok out, (0, st2)))
        | (Inl (RateLimited p retry_after), st1) \<Rightarrow> handle_rate_limit wd jid retry_after (n, st1)
        | (Inl e, st1) \<Rightarrow> (Err (LlmErr e), (n, st1)))"

definition job_call_llm ::
  "('d, 'x) worker_deps \<Rightarrow> uuid \<Rightarrow> reasoning_context \<Rightarrow> nat \<Rightarrow> ('d, 'x) delegate_state
     \<Rightarrow> (Error, respond_output) result \<times> reasoning_context \<times> ('d, 'x) delegate_state" where
  "job_call_llm wd jid ctx it s =
     (case s of (n, st) \<Rightarrow>
        case select_tools (wd_llm wd) ctx st of
          (Inr [], st1) \<Rightarrow> (case job_respond wd jid ctx (n, st1) of (r, s1) \<Rightarrow> (r, ctx, s1))
        | (Inr sels, st1) \<Rightarrow>
            (Ok \<lparr>ro_result = RToolCalls (selections_to_tool_calls sels) (first_reasoning sels), ro_usage = ro_usage empty_output\<rparr>,
             ctx, (0, st1))
        | (Inl (RateLimited p retry_after), st1) \<Rightarrow>
            (case handle_rate_limit wd jid retry_after (n, st1) of (r, s1) \<Rightarrow> (r, ctx, s1))
        | (Inl e, st1) \<Rightarrow> (Err (LlmErr e), ctx, (n, st1)))"

definition job_handle_text_response ::
  "('d, 'x) worker_deps \<Rightarrow> uuid \<Rightarrow> string \<Rightarrow> reasoning_context \<Rightarrow> ('d, 'x) delegate_state
     \<Rightarrow> TextAction \<times> reasoning_context \<times> ('d, 'x) delegate_state" where
  "job_handle_text_response wd jid s ctx ds =
     (case ds of (n, st) \<Rightarrow>
        if s = [] then (TextContinue, ctx, ds)
        else if llm_signals_completion (ev_lower (wd_exec wd)) s
        then (TextReturn (LoopResponse s), ctx, (n, snd (mark_completed wd jid st)))
        else (TextContinue, push_msgs [assistant_msg s] ctx,
              (n, log_event wd jid ''message'' (message_data ''assistant'' s) st)))"

definition call_selection :: "tool_call \<Rightarrow> tool_selection" where
  "call_selection tc = \<lparr>ts_tool_name = tc_name tc, ts_parameters = tc_arguments tc, ts_reasoning = [],
     ts_alternatives = [], ts_tool_call_id = tc_id tc\<rparr>"

text \<open>One call runs in place, others in parallel; both are \<open>execute_tools_parallel\<close>, which runs one call in place.\<close>

definition job_execute_tool_calls ::
  "('d, 'x) worker_deps \<Rightarrow> uuid \<Rightarrow> tool_call list \<Rightarrow> string option \<Rightarrow> reasoning_context \<Rightarrow> ('d, 'x) delegate_state
     \<Rightarrow> (Error, LoopOutcome option) result \<times> reasoning_context \<times> ('d, 'x) delegate_state" where
  "job_execute_tool_calls wd jid calls body ctx ds =
     (case ds of (n, st) \<Rightarrow>
        let st1 = (case body of
                     Some s \<Rightarrow> log_event wd jid ''message'' (message_data ''assistant'' s) st
                   | None \<Rightarrow> st);
            ctx1 = push_msgs [assistant_with_tool_calls body calls] ctx;
            sels = map call_selection calls in
        case execute_tools_parallel wd jid sels st1 of (rs, st2) \<Rightarrow>
        case process_results wd jid (zip sels rs) ctx1 st2 of
          (Inl e, ctx2, st3) \<Rightarrow> (Err e, ctx2, (n, st3))
        | (Inr _, ctx2, st3) \<Rightarrow> (Ok None, ctx2, (n, st3)))"

definition nudge_data :: "string \<Rightarrow> json" where
  "nudge_data s =
     JObject [(''role'', JString ''assistant''), (''content'', JString (truncate_for_preview s 2000)), (''nudge'', JBool True)]"

definition job_delegate :: "('d, 'x) worker_deps \<Rightarrow> uuid \<Rightarrow> (('d, 'x) delegate_state, Error) loop_delegate" where
  "job_delegate wd jid =
     \<lparr>dg_check_signals = job_check_signals wd jid,
      dg_before_llm_call = job_before_llm_call wd,
      dg_call_llm = job_call_llm wd jid,
      dg_handle_text_response = job_handle_text_response wd jid,
      dg_execute_tool_calls = job_execute_tool_calls wd jid,
      dg_on_tool_intent_nudge = (\<lambda>s ctx (n, st). (ctx, (n, log_event wd jid ''message'' (nudge_data s) st))),
      dg_after_iteration = (\<lambda>it (n, st). (n, wd_sleep wd PAUSE st))\<rparr>"

subsection \<open>The worker\<close>

definition MAX_WORKER_ITERATIONS :: nat where "MAX_WORKER_ITERATIONS = 500"

definition job_max_iterations :: "uuid \<Rightarrow> ('d, 'x) job_world \<Rightarrow> nat" where
  "job_max_iterations jid st =
     min (unat (unwrap_or
            (case get_context jid (jw_contexts st) of
               Inl _ \<Rightarrow> None
             | Inr c \<Rightarrow> Option.bind (jget (metadata c) ''max_iterations'') json_as_u64) 50))
         MAX_WORKER_ITERATIONS"

text \<open>A plan, when planning is on and the model gives one, and its traces in the conversation and the log.\<close>

definition make_plan ::
  "('d, 'x) worker_deps \<Rightarrow> uuid \<Rightarrow> reasoning_context \<Rightarrow> ('d, 'x) job_world
     \<Rightarrow> action_plan option \<times> reasoning_context \<times> ('d, 'x) job_world" where
  "make_plan wd jid ctx st =
     (if \<not> wd_use_planning wd then (None, ctx, st)
      else case plan wd ctx st of
        (Inl _, st1) \<Rightarrow> (None, ctx, st1)
      | (Inr p, st1) \<Rightarrow>
          (Some p,
           push_msgs [assistant_msg (''I'' @ [CHR 0x27] @ ''ve created a plan to accomplish this goal: '' @ pl_goal p @ NL @ NL @
             ''Steps:'' @ NL @ numbered_steps (pl_actions p))] ctx,
           log_event wd jid ''message''
             (message_data ''assistant'' (''Plan: '' @ pl_goal p @ NL @ NL @ numbered_steps (pl_actions p))) st1))"

definition job_config :: "nat \<Rightarrow> agentic_loop_config" where
  "job_config n = \<lparr>lc_max_iterations = n, lc_enable_tool_intent_nudge = True, lc_max_tool_intent_nudges = 2\<rparr>"

definition direct_loop ::
  "('d, 'x) worker_deps \<Rightarrow> uuid \<Rightarrow> nat \<Rightarrow> reasoning_context \<Rightarrow> ('d, 'x) job_world \<Rightarrow> (Error, unit) result \<times> ('d, 'x) job_world" where
  "direct_loop wd jid n ctx st =
     (case run_agentic_loop (ev_lower (wd_exec wd)) (job_delegate wd jid) ctx (job_config n) (0, st) of
        (Inl e, _, (_, st1)) \<Rightarrow> (Err e, st1)
      | (Inr LoopMaxIterations, _, (_, st1)) \<Rightarrow>
          mark_failed wd jid ''Maximum iterations exceeded: job hit the iteration cap'' st1
      | (Inr _, _, (_, st1)) \<Rightarrow> (Ok (), st1))"

text \<open>After a plan: the states in which the worker does not go on with the loop.\<close>

definition plan_settles :: "JobState \<Rightarrow> bool" where
  "plan_settles s \<longleftrightarrow> is_terminal s \<or> s = Stuck \<or> s = Completed"

definition execution_loop ::
  "('d, 'x) worker_deps \<Rightarrow> uuid \<Rightarrow> reasoning_context \<Rightarrow> ('d, 'x) job_world \<Rightarrow> (Error, unit) result \<times> ('d, 'x) job_world" where
  "execution_loop wd jid ctx st =
     (let n = job_max_iterations jid st in
      case make_plan wd jid (with_tools (wd_tool_definitions wd st) ctx) st of
        (None, ctx1, st1) \<Rightarrow> direct_loop wd jid n ctx1 st1
      | (Some p, ctx1, st1) \<Rightarrow>
          (case execute_plan wd jid p ctx1 st1 of
             (Inl e, _, st2) \<Rightarrow> (Err e, st2)
           | (Inr _, ctx2, st2) \<Rightarrow>
               (case get_context jid (jw_contexts st2) of
                  Inr c \<Rightarrow> if plan_settles (state c) then (Ok (), st2) else direct_loop wd jid n ctx2 st2
                | Inl _ \<Rightarrow> direct_loop wd jid n ctx2 st2)))"

definition job_prompt :: "'d job_context \<Rightarrow> string" where
  "job_prompt c =
     ''You are an autonomous agent working on a job.'' @ NL @ NL @
     ''Job: '' @ title c @ NL @ ''Description: '' @ description c @ NL @ NL @
     ''You have access to tools to complete this job. Plan your approach and execute tools as needed.'' @ NL @
     ''You may request multiple tools at once if they can be executed in parallel.'' @ NL @
     ''Report when the job is complete or if you encounter issues you cannot resolve.''"

text \<open>What a worker does at the end of its loop: it ended (with or without an error), or the time limit interrupted it off.\<close>

datatype loop_end = LoopEnded "(Error, unit) result" | LoopTimedOut

definition settle_job ::
  "('d, 'x) worker_deps \<Rightarrow> uuid \<Rightarrow> loop_end \<Rightarrow> ('d, 'x) job_world \<Rightarrow> (Error, unit) result \<times> ('d, 'x) job_world" where
  "settle_job wd jid res st =
     (case res of
        LoopEnded (Inr _) \<Rightarrow>
          (case get_context jid (jw_contexts st) of
             Inl _ \<Rightarrow> (Ok (), st)
           | Inr c \<Rightarrow>
               if is_terminal (state c) \<or> state c = Completed \<or> state c = Stuck then (Ok (), st)
               else mark_completed wd jid st)
      | LoopEnded (Inl e) \<Rightarrow> mark_failed wd jid (worker_error wd e) st
      | LoopTimedOut \<Rightarrow> mark_job_stuck wd jid ''Execution timeout'' st)"

text \<open>
  The whole run. The first message is awaited: a queue without one is that of a closed channel. \<open>interrupted\<close>
  is the state in which the time limit interrupts the loop, if it does.
\<close>

definition run_worker ::
  "('d, 'x) worker_deps \<Rightarrow> uuid \<Rightarrow> ('d, 'x) job_world option \<Rightarrow> ('d, 'x) job_world \<Rightarrow> (Error, unit) result \<times> ('d, 'x) job_world" where
  "run_worker wd jid interrupted st =
     (case jw_queue st of
        [] \<Rightarrow> (Ok (), st)
      | StopJob # q \<Rightarrow> (Ok (), st\<lparr>jw_queue := q\<rparr>)
      | _ # q \<Rightarrow>
          let st1 = st\<lparr>jw_queue := q\<rparr> in
          case get_context jid (jw_contexts st1) of
            Inl e \<Rightarrow> (Err (JobErr e), st1)
          | Inr c \<Rightarrow>
              let ctx = push_msgs [system_msg (job_prompt c)] (with_job (description c) new_reasoning_context) in
              (case interrupted of
                 Some st2 \<Rightarrow> settle_job wd jid LoopTimedOut st2
               | None \<Rightarrow>
                   (case execution_loop wd jid ctx st1 of (r, st2) \<Rightarrow> settle_job wd jid (LoopEnded r) st2)))"

subsection \<open>One tool call\<close>

text \<open>The call as the checks see it, before hooks: what the worker has to have found.\<close>

definition gate_passed ::
  "('d, 'x) worker_deps \<Rightarrow> uuid \<Rightarrow> string \<Rightarrow> json \<Rightarrow> ('d, 'x) job_world \<Rightarrow> ('d, 'x) job_world tool \<Rightarrow> bool" where
  "gate_passed wd jid n p st t \<longleftrightarrow>
     ev_lookup (wd_exec wd) st n = Some t \<and>
     (case map_of (contexts (jw_contexts st)) jid of None \<Rightarrow> False | Some c \<Rightarrow> state c \<noteq> Cancelled) \<and>
     \<not> is_blocked_or_default (wd_approval_context wd) n (requires_approval t (normalized_params (wd_exec wd) t p))"

lemma tool_gate_ok:
  assumes "tool_gate wd jid n p st = (Inr (t, q, c), st1)"
  shows "ev_lookup (wd_exec wd) st n = Some t" "q = normalized_params (wd_exec wd) t p"
    "\<not> is_blocked_or_default (wd_approval_context wd) n (requires_approval t q)"
    "\<exists>c0. map_of (contexts (jw_contexts st)) jid = Some c0 \<and> state c = state c0 \<and> user_id c = user_id c0"
    "\<exists>lim. st1 = st\<lparr>jw_limiter := lim\<rparr>"
  using assms
  by (auto simp: tool_gate_def get_context_def Let_def
      split: option.splits sum.splits if_splits prod.splits RateLimitResult.splits)
     (metis job_world.surjective job_world.update_convs(3))+

lemma tool_gate_limiter_only: "\<exists>lim. snd (tool_gate wd jid n p st) = st\<lparr>jw_limiter := lim\<rparr>"
proof -
  have self: "\<exists>lim. st = st\<lparr>jw_limiter := lim\<rparr>" by (rule exI [of _ "jw_limiter st"]) simp
  show ?thesis
    by (auto simp: tool_gate_def Let_def self
        split: option.splits sum.splits if_splits prod.splits RateLimitResult.splits)
qed

subsection \<open>What a job can change outside\<close>

text \<open>
  A property of the outside that the model, the hooks and the tasks which run while the worker sleeps
  keep, and so does every tool call that passed the gate and the validation of its parameters.
\<close>

definition surroundings_keep :: "('x \<Rightarrow> bool) \<Rightarrow> ('d, 'x) worker_deps \<Rightarrow> bool" where
  "surroundings_keep P wd \<longleftrightarrow>
     (\<forall>req st. P (jw_outside st) \<longrightarrow> P (jw_outside (snd (llm_complete (wd_llm wd) req st)))) \<and>
     (\<forall>req st. P (jw_outside st) \<longrightarrow> P (jw_outside (snd (llm_complete_with_tools (wd_llm wd) req st)))) \<and>
     (\<forall>h \<in> set (wd_hooks wd). \<forall>ev st. P (jw_outside st) \<longrightarrow> P (jw_outside (snd (hk_execute (he_hook h) ev st)))) \<and>
     (\<forall>d st. P (jw_outside st) \<longrightarrow> P (jw_outside (wd_sleep wd d st)))"

definition permitted_tools_keep :: "('x \<Rightarrow> bool) \<Rightarrow> ('d, 'x) worker_deps \<Rightarrow> uuid \<Rightarrow> bool" where
  "permitted_tools_keep P wd jid \<longleftrightarrow>
     (\<forall>n p q t st0 st. gate_passed wd jid n p st0 t \<longrightarrow> vr_is_valid (validate_params (wd_exec wd) q) \<longrightarrow>
        P (jw_outside st) \<longrightarrow> P (jw_outside (snd (t_execute t q st))))"

lemma surroundings_keepD:
  assumes "surroundings_keep P wd" "P (jw_outside st)"
  shows "P (jw_outside (snd (llm_complete (wd_llm wd) req st)))"
    "P (jw_outside (snd (llm_complete_with_tools (wd_llm wd) treq st)))"
    "h \<in> set (wd_hooks wd) \<Longrightarrow> P (jw_outside (snd (hk_execute (he_hook h) ev st)))"
    "P (jw_outside (wd_sleep wd d st))"
  using assms by (auto simp: surroundings_keep_def)

lemma bookkeeping_outside [simp]:
  "jw_outside (log_event wd jid et data st) = jw_outside st"
  "jw_outside (persist_status wd jid s reason st) = jw_outside st"
  "jw_outside (record_tool_failure wd n res st) = jw_outside st"
  "jw_outside (remember_action wd jid n safe out dur st) = jw_outside st"
  "jw_outside (snd (change_job jid f st)) = jw_outside st"
  by (auto simp: log_event_def persist_status_def record_tool_failure_def remember_action_def change_job_def Let_def
      split: option.splits sum.splits prod.splits)

lemma marks_outside [simp]:
  "jw_outside (snd (mark_completed wd jid st)) = jw_outside st"
  "jw_outside (snd (mark_failed wd jid reason st)) = jw_outside st"
  "jw_outside (snd (mark_job_stuck wd jid reason st)) = jw_outside st"
  by (auto simp: mark_completed_def mark_failed_def mark_job_stuck_def Let_def change_job_def
      split: sum.splits prod.splits)

lemma run_chain_keeps:
  assumes "surroundings_keep P wd" and "set hs \<subseteq> he_hook ` set (wd_hooks wd)"
  shows "P (jw_outside st) \<Longrightarrow> P (jw_outside (snd (run_chain dec fmt hs ev st)))"
  using assms(2)
proof (induction hs arbitrary: ev st)
  case (Cons h hs)
  obtain r st1 where r: "hk_execute h ev st = (r, st1)" by (cases "hk_execute h ev st")
  obtain e where e: "e \<in> set (wd_hooks wd)" "h = he_hook e" using Cons.prems(2) by auto
  have st1: "P (jw_outside st1)" using surroundings_keepD(3) [OF assms(1) Cons.prems(1) e(1), of ev] r e(2) by simp
  show ?case using r st1 Cons.IH Cons.prems(2)
    by (auto split: option.split sum.split HookOutcome.split HookFailureMode.split)
qed simp

lemma run_hooks_keeps:
  assumes "surroundings_keep P wd" "P (jw_outside st)"
  shows "P (jw_outside (snd (run_hooks enc dec fmt (wd_hooks wd) ev st)))"
proof -
  have "set (matching_hooks (hook_point ev) (wd_hooks wd)) \<subseteq> he_hook ` set (wd_hooks wd)"
    by (auto simp: matching_hooks_def)
  from run_chain_keeps [OF assms(1) this assms(2)]
  have "P (jw_outside (snd (run_chain dec fmt (matching_hooks (hook_point ev) (wd_hooks wd)) ev st)))" .
  then show ?thesis using assms(2) by (auto simp: run_hooks_def Let_def split: prod.split sum.split)
qed

lemma tool_hooks_keeps:
  assumes "surroundings_keep P wd" "P (jw_outside st)"
  shows "P (jw_outside (snd (tool_hooks wd jid n t q c st)))"
  using run_hooks_keeps [OF assms, of "wd_json wd" "ev_decode (wd_exec wd)" "ev_fmt (wd_exec wd)"
      "ToolCallEvent n (redact_params q (sensitive_params t)) (user_id c) (''job:'' @ wd_render wd jid)"]
  by (auto simp: tool_hooks_def Let_def split: prod.split sum.split HookError.split HookOutcome.split option.split)

lemma run_tool_outside: "jw_outside (snd (run_tool wd jid n t q st)) = jw_outside (snd (t_execute t q st))"
  by (auto simp: run_tool_def Let_def split: prod.split option.split sum.split)

lemma execute_tool_inner_keeps:
  assumes s: "surroundings_keep P wd" and tk: "permitted_tools_keep P wd jid" and P: "P (jw_outside st)"
  shows "P (jw_outside (snd (execute_tool_inner wd jid n p st)))"
proof (cases "tool_gate wd jid n p st")
  case (Pair g st1)
  have P1: "P (jw_outside st1)" using tool_gate_limiter_only [of wd jid n p st] Pair P by auto
  show ?thesis
  proof (cases g)
    case (Inl e)
    then show ?thesis using Pair P1 by (simp add: execute_tool_inner_def)
  next
    case (Inr x)
    obtain t q c where x: "x = (t, q, c)" by (cases x)
    note g = tool_gate_ok [OF Pair [unfolded Inr x]]
    obtain h st2 where h: "tool_hooks wd jid n t q c st1 = (h, st2)" by (cases "tool_hooks wd jid n t q c st1")
    have P2: "P (jw_outside st2)" using tool_hooks_keeps [OF s P1, of jid n t q c] h by simp
    have run: "P (jw_outside (snd (run_tool wd jid n t e st2)))"
      if "vr_is_valid (validate_params (wd_exec wd) e)" "state c \<noteq> Cancelled" for e
    proof -
      have "gate_passed wd jid n p st t" using g that(2) by (auto simp: gate_passed_def)
      then show ?thesis using tk that(1) P2 unfolding permitted_tools_keep_def run_tool_outside by blast
    qed
    show ?thesis using Pair Inr x h P2 run by (auto simp: execute_tool_inner_def Let_def split: sum.split)
  qed
qed

lemma process_tool_result_job_outside [simp]:
  "jw_outside (snd (snd (process_tool_result_job wd jid sel res ctx st))) = jw_outside st"
  by (simp add: process_tool_result_job_def Let_def)

lemma process_results_outside [simp]:
  "jw_outside (snd (snd (process_results wd jid prs ctx st))) = jw_outside st"
proof (induction prs arbitrary: ctx st)
  case (Cons pr prs)
  obtain sel res where pr: "pr = (sel, res)" by (cases pr)
  obtain r ctx1 st1 where p: "process_tool_result_job wd jid sel res ctx st = (r, ctx1, st1)" by (metis prod_cases3)
  then have "jw_outside st1 = jw_outside st" using process_tool_result_job_outside [of wd jid sel res ctx st] by simp
  then show ?case using pr p Cons.IH by (auto split: sum.split)
qed simp

lemma plan_signals_outside: "plan_signals wd jid q ctx st = (b, ctx1, st1) \<Longrightarrow> jw_outside st1 = jw_outside st"
  by (induction wd jid q ctx st rule: plan_signals.induct) auto

lemma drain_queue_outside: "drain_queue wd jid q stp um st = (b, m, st1) \<Longrightarrow> jw_outside st1 = jw_outside st"
  by (induction wd jid q stp um st rule: drain_queue.induct) auto

lemma run_parallel_keeps:
  assumes "surroundings_keep P wd" "permitted_tools_keep P wd jid"
  shows "P (jw_outside st) \<Longrightarrow> P (jw_outside (snd (run_parallel wd jid sels order slots st)))"
proof (induction order arbitrary: slots st)
  case (Cons i order)
  have "P (jw_outside (snd (execute_tool_inner wd jid (ts_tool_name (sels ! i)) (ts_parameters (sels ! i)) st)))"
    by (rule execute_tool_inner_keeps [OF assms Cons.prems])
  then show ?case using Cons by (auto split: prod.split)
qed simp

lemma execute_tools_parallel_keeps:
  assumes "surroundings_keep P wd" "permitted_tools_keep P wd jid" "P (jw_outside st)"
  shows "P (jw_outside (snd (execute_tools_parallel wd jid sels st)))"
proof -
  have "P (jw_outside (snd (execute_tool_inner wd jid n p st)))" for n p by (rule execute_tool_inner_keeps [OF assms])
  moreover have "P (jw_outside (snd (run_parallel wd jid ss order slots st)))" for ss order slots
    by (rule run_parallel_keeps [OF assms])
  ultimately show ?thesis using assms(3)
    unfolding execute_tools_parallel_def by (auto split: list.split prod.split) (metis snd_conv)+
qed

lemma model_calls_keep:
  assumes "surroundings_keep P wd" "P (jw_outside st)"
  shows "P (jw_outside (snd (respond_with_tools eng parse prompt (wd_llm wd) ctx st)))"
    "P (jw_outside (snd (respond eng parse shw prompt (wd_llm wd) ctx st)))"
    "P (jw_outside (snd (select_tools (wd_llm wd) ctx st)))"
    "P (jw_outside (snd (plan wd ctx st)))"
proof -
  note c = surroundings_keepD(1) [OF assms] and t = surroundings_keepD(2) [OF assms]
  show r: "P (jw_outside (snd (respond_with_tools eng parse prompt (wd_llm wd) ctx st)))"
    using c t by (auto simp: respond_with_tools_def Let_def split: prod.split sum.split)
      (metis snd_conv)+
  then show "P (jw_outside (snd (respond eng parse shw prompt (wd_llm wd) ctx st)))"
    by (auto simp: respond_def split: prod.split sum.split RespondResult.split)
  show "P (jw_outside (snd (select_tools (wd_llm wd) ctx st)))"
    using t assms(2) by (auto simp: select_tools_def Let_def split: prod.split sum.split) (metis snd_conv)+
  show "P (jw_outside (snd (plan wd ctx st)))"
    using c by (auto simp: plan_def Let_def split: prod.split sum.split) (metis snd_conv)+
qed

lemma plan_steps_keeps:
  assumes "surroundings_keep P wd" "permitted_tools_keep P wd jid"
  shows "P (jw_outside st) \<Longrightarrow> P (jw_outside (snd (snd (plan_steps wd jid i as' ctx st))))"
proof (induction as' arbitrary: i ctx st)
  case (Cons a rest)
  obtain b ctx1 st1 where s: "plan_signals wd jid (jw_queue st) ctx st = (b, ctx1, st1)" by (metis prod_cases3)
  have P1: "P (jw_outside st1)" using plan_signals_outside [OF s] Cons.prems by simp
  obtain r st2 where e: "execute_tool_inner wd jid (pa_tool_name a) (pa_parameters a) st1 = (r, st2)"
    by (cases "execute_tool_inner wd jid (pa_tool_name a) (pa_parameters a) st1")
  have P2: "P (jw_outside st2)"
    using execute_tool_inner_keeps [OF assms P1, of "pa_tool_name a" "pa_parameters a"] e by simp
  define sel where "sel = plan_selection wd jid i a"
  define ctx2 where "ctx2 = push_msgs [assistant_with_tool_calls None [selection_call sel]] ctx1"
  obtain pr ctx3 st3 where p: "process_tool_result_job wd jid sel r ctx2 st2 = (pr, ctx3, st3)" by (metis prod_cases3)
  have P3: "P (jw_outside st3)" using process_tool_result_job_outside [of wd jid sel r ctx2 st2] p P2 by simp
  have "P (jw_outside (snd (snd (plan_steps wd jid (i + 1) rest ctx3 (wd_sleep wd PAUSE st3)))))"
    by (rule Cons.IH) (rule surroundings_keepD(4) [OF assms(1) P3])
  then show ?case using s P1 e p P3
    by (cases b) (auto simp: Let_def sel_def [symmetric] ctx2_def [symmetric] split: sum.split)
qed simp

lemma execute_plan_keeps:
  assumes "surroundings_keep P wd" "permitted_tools_keep P wd jid" "P (jw_outside st)"
  shows "P (jw_outside (snd (snd (execute_plan wd jid p ctx st))))"
proof -
  obtain r ctx1 st1 where s: "plan_steps wd jid 0 (pl_actions p) ctx st = (r, ctx1, st1)" by (metis prod_cases3)
  have P1: "P (jw_outside st1)" using plan_steps_keeps [OF assms, of 0 "pl_actions p" ctx] s by simp
  define ctx2 where "ctx2 = push_msgs [user_msg PLAN_DONE_QUESTION] ctx1"
  obtain q st2 where q: "respond (wd_re wd) (ev_decode (wd_exec wd)) (wd_json wd) (wd_prompt wd) (wd_llm wd) ctx2 st1 = (q, st2)"
    by (metis prod.exhaust)
  have P2: "P (jw_outside st2)" using model_calls_keep(2) [OF assms(1) P1] q by (metis snd_conv)
  obtain m st3 where m: "mark_completed wd jid st2 = (m, st3)" by (cases "mark_completed wd jid st2")
  have P3: "P (jw_outside st3)" using marks_outside(1) [of wd jid st2] m P2 by simp
  show ?thesis using s P1 q P2 m P3
    by (auto simp: execute_plan_def Let_def ctx2_def [symmetric] split: sum.split bool.split)
qed

lemma mark_failed_outside: "mark_failed wd jid reason st = (r, st1) \<Longrightarrow> jw_outside st1 = jw_outside st"
  using marks_outside(2) [of wd jid reason st] by simp

lemma count_tokens_outside: "count_tokens wd jid out st = (r, st1) \<Longrightarrow> jw_outside st1 = jw_outside st"
  by (auto simp: count_tokens_def Let_def dest: mark_failed_outside split: if_splits prod.splits sum.splits)

lemma handle_rate_limit_keeps:
  assumes "surroundings_keep P wd" "P (jw_outside st)"
  shows "P (jw_outside (snd (snd (handle_rate_limit wd jid ra (n, st)))))"
  using surroundings_keepD(4) [OF assms(1)] assms(2)
  by (auto simp: handle_rate_limit_def Let_def dest: mark_failed_outside split: prod.split sum.split)

lemma job_respond_keeps:
  assumes "surroundings_keep P wd" "P (jw_outside st)"
  shows "P (jw_outside (snd (snd (job_respond wd jid ctx (n, st)))))"
proof -
  obtain r st1 where r: "respond_with_tools (wd_re wd) (ev_decode (wd_exec wd)) (wd_prompt wd) (wd_llm wd) ctx st = (r, st1)"
    by (metis prod.exhaust)
  have P1: "P (jw_outside st1)" using model_calls_keep(1) [OF assms] r by (metis snd_conv)
  have "P (jw_outside st2)" if "count_tokens wd jid out st1 = (x, st2)" for out x st2
    using count_tokens_outside [OF that] P1 by simp
  then show ?thesis using r P1 handle_rate_limit_keeps [OF assms(1) P1]
    by (auto simp: job_respond_def split: prod.split sum.split LlmError.split)
qed

lemma job_call_llm_keeps:
  assumes "surroundings_keep P wd" "P (jw_outside st)"
  shows "P (jw_outside (snd (snd (snd (job_call_llm wd jid ctx it (n, st))))))"
proof -
  obtain r st1 where r: "select_tools (wd_llm wd) ctx st = (r, st1)" by (metis prod.exhaust)
  have P1: "P (jw_outside st1)" using model_calls_keep(3) [OF assms] r by (metis snd_conv)
  have a: "P (jw_outside st2)" if "job_respond wd jid ctx (n, st1) = (x, m, st2)" for x m st2
    using job_respond_keeps [OF assms(1) P1, of jid ctx n] that by simp
  have b: "P (jw_outside st2)" if "handle_rate_limit wd jid ra (n, st1) = (x, m, st2)" for ra x m st2
    using handle_rate_limit_keeps [OF assms(1) P1, of jid ra n] that by simp
  show ?thesis using r P1 a b
    by (auto simp: job_call_llm_def split: prod.split sum.split LlmError.split list.split)
qed

lemma job_execute_tool_calls_keeps:
  assumes "surroundings_keep P wd" "permitted_tools_keep P wd jid" "P (jw_outside st)"
  shows "P (jw_outside (snd (snd (snd (job_execute_tool_calls wd jid calls body ctx (n, st))))))"
proof -
  define st1 where "st1 = (case body of Some s \<Rightarrow> log_event wd jid ''message'' (message_data ''assistant'' s) st | None \<Rightarrow> st)"
  define sels where "sels = map call_selection calls"
  define ctx1 where "ctx1 = push_msgs [assistant_with_tool_calls body calls] ctx"
  have P1: "P (jw_outside st1)" using assms(3) by (simp add: st1_def split: option.split)
  obtain rs st2 where e: "execute_tools_parallel wd jid sels st1 = (rs, st2)" by (metis prod.exhaust)
  have P2: "P (jw_outside st2)" using execute_tools_parallel_keeps [OF assms(1,2) P1, of sels] e by simp
  obtain r ctx2 st3 where p: "process_results wd jid (zip sels rs) ctx1 st2 = (r, ctx2, st3)" by (metis prod_cases3)
  have "P (jw_outside st3)" using process_results_outside [of wd jid "zip sels rs" ctx1 st2] p P2 by simp
  then show ?thesis using e p
    by (auto simp: job_execute_tool_calls_def Let_def st1_def [symmetric] sels_def [symmetric] ctx1_def [symmetric]
        split: sum.split)
qed

lemma job_delegate_keeps:
  assumes "surroundings_keep P wd" "permitted_tools_keep P wd jid"
  shows "delegate_keeps (\<lambda>s. P (jw_outside (snd s))) (job_delegate wd jid)"
proof -
  have sig: "P (jw_outside (snd (snd (job_check_signals wd jid (n, st)))))" if "P (jw_outside st)" for n st
  proof -
    obtain b m st1 where d: "drain_queue wd jid (jw_queue st) False None (st\<lparr>jw_queue := []\<rparr>) = (b, m, st1)"
      by (metis prod_cases3)
    then have "jw_outside st1 = jw_outside st" using drain_queue_outside by fastforce
    then show ?thesis using d that by (auto simp: job_check_signals_def split: option.split sum.split)
  qed
  have txr: "P (jw_outside (snd (snd (snd (job_handle_text_response wd jid s ctx (n, st))))))" if "P (jw_outside st)" for s ctx n st
    using that by (simp add: job_handle_text_response_def)
  show ?thesis
    using sig txr job_call_llm_keeps [OF assms(1)] job_execute_tool_calls_keeps [OF assms] surroundings_keepD(4) [OF assms(1)]
    by (auto simp: delegate_keeps_def job_delegate_def job_before_llm_call_def)
qed

lemma direct_loop_keeps:
  assumes "surroundings_keep P wd" "permitted_tools_keep P wd jid" "P (jw_outside st)"
  shows "P (jw_outside (snd (direct_loop wd jid n ctx st)))"
proof -
  obtain r ctx1 m st1 where l:
    "run_agentic_loop (ev_lower (wd_exec wd)) (job_delegate wd jid) ctx (job_config n) (0, st) = (r, ctx1, (m, st1))"
    by (metis prod.exhaust)
  then have "P (jw_outside st1)"
    using run_agentic_loop_keeps [OF job_delegate_keeps [OF assms(1,2)], of "(0, st)" "ev_lower (wd_exec wd)" ctx "job_config n"]
      assms(3) by simp
  then show ?thesis using l by (auto simp: direct_loop_def split: sum.split LoopOutcome.split)
qed

lemma execution_loop_keeps:
  assumes "surroundings_keep P wd" "permitted_tools_keep P wd jid" "P (jw_outside st)"
  shows "P (jw_outside (snd (execution_loop wd jid ctx st)))"
proof -
  define ctx0 where "ctx0 = with_tools (wd_tool_definitions wd st) ctx"
  obtain p ctx1 st1 where m: "make_plan wd jid ctx0 st = (p, ctx1, st1)" by (metis prod_cases3)
  have P1: "P (jw_outside st1)"
    using m assms(3) model_calls_keep(4) [OF assms(1,3), of ctx0]
    by (auto simp: make_plan_def split: if_splits prod.splits sum.splits)
  have plan_ok: "P (jw_outside st2)" if "execute_plan wd jid q ctx1 st1 = (r, ctx2, st2)" for q r ctx2 st2
    using execute_plan_keeps [OF assms(1,2) P1, of q ctx1] that by simp
  show ?thesis
    using m direct_loop_keeps [OF assms(1,2)] P1 plan_ok
    by (auto simp: execution_loop_def Let_def ctx0_def [symmetric] split: option.split prod.split sum.split)
qed

lemma settle_job_outside [simp]: "jw_outside (snd (settle_job wd jid e st)) = jw_outside st"
  by (auto simp: settle_job_def split: loop_end.split sum.split)


text \<open>A worker whose model asks for a tool that is not permitted; running the tool would count up.\<close>

definition restart_tool :: "(int, nat) job_world tool" where
  "restart_tool = \<lparr>t_name = ''restart'', t_description = [], discovery_schema = JNull, requires_approval = \<lambda>_. Always,
     execution_timeout = secs 60, sensitive_params = [],
     t_execute = \<lambda>_ st. (Some (Ok JNull), st\<lparr>jw_outside := jw_outside st + 1\<rparr>)\<rparr>"

definition demo_job_exec :: "(int, nat) job_world exec_env" where
  "demo_job_exec = \<lparr>ev_lookup = (\<lambda>_ n. if n = ''restart'' then Some restart_tool else None),
     ev_safety = safety_new (\<lambda>_. None) (\<lambda>_ _. []) \<lparr>sc_max_output_length = 100000, sc_injection_check_enabled = True\<rparr>,
     ev_regex = (\<lambda>_ _. []), ev_lower = ascii_lower, ev_decode = (\<lambda>_. None), ev_number = (\<lambda>_. None),
     ev_pretty = (\<lambda>_. Ok ''null''), ev_fmt = show_nat, ev_fmto = (\<lambda>_. [])\<rparr>"

definition restart_response :: tool_completion_response where
  "restart_response = \<lparr>tresp_content = None,
     tresp_tool_calls = [\<lparr>tc_id = ''a'', tc_name = ''restart'', tc_arguments = JObject []\<rparr>],
     tresp_input_tokens = 1, tresp_output_tokens = 1, tresp_finish_reason = ToolUse, tresp_cache_read = 0,
     tresp_cache_creation = 0\<rparr>"

definition demo_worker :: "(int, nat) worker_deps" where
  "demo_worker = \<lparr>wd_exec = demo_job_exec,
     wd_llm = \<lparr>llm_complete = \<lambda>_ w. (Err (AuthFailed []), w), llm_complete_with_tools = \<lambda>_ w. (Ok restart_response, w)\<rparr>,
     wd_model = ''m'', wd_re = \<lparr>re_find = \<lambda>_ _. [], re_group1 = \<lambda>_ _. None\<rparr>, wd_prompt = (\<lambda>_. []),
     wd_tool_definitions = (\<lambda>_. [\<lparr>td_name = ''restart'', td_description = [], td_parameters = JNull\<rparr>]),
     wd_rate_limit_config = (\<lambda>_. None), wd_hooks = [], wd_store = True, wd_sse_tx = False, wd_use_planning = False,
     wd_approval_context = Some (autonomous_with_tools [''echo'']), wd_http_interceptor = None, wd_json = (\<lambda>_. []),
     wd_plan = (\<lambda>_. Err []), wd_render = (\<lambda>_. ''7''), wd_decimal = (\<lambda>_. ''0''), wd_now = (\<lambda>_. 0),
     wd_clock = (\<lambda>_ _. 0), wd_elapsed = (\<lambda>_ _. 0), wd_fresh = (\<lambda>_. 1), wd_schedule = (\<lambda>_ n. [0..<n]),
     wd_sleep = (\<lambda>_ st. st)\<rparr>"

definition demo_job_world :: "(int, nat) job_world" where
  "demo_job_world = \<lparr>jw_contexts = snd (create_job_for_user 7 0 ''u'' ''t'' ''d'' (new_manager 1)), jw_queue = [StartJob],
     jw_limiter = [], jw_events = [], jw_sse = [], jw_statuses = [], jw_actions = [], jw_failures = [], jw_outside = 0\<rparr>"


subsection \<open>How a run ends\<close>

definition job_of :: "uuid \<Rightarrow> ('d, 'x) job_world \<Rightarrow> 'd job_context option" where
  "job_of jid st = map_of (contexts (jw_contexts st)) jid"

lemma get_context_job_of: "get_context jid (jw_contexts st) = (case job_of jid st of None \<Rightarrow> Err (JobError.NotFound jid) | Some c \<Rightarrow> Ok c)"
  by (simp add: get_context_def job_of_def)

lemma job_of_bookkeeping [simp]:
  "job_of jid (log_event wd j et data st) = job_of jid st"
  "job_of jid (persist_status wd j s reason st) = job_of jid st"
  "job_of jid (st\<lparr>jw_queue := q\<rparr>) = job_of jid st"
  by (auto simp: job_of_def log_event_def persist_status_def Let_def split: option.split)

lemma change_job_effect:
  assumes "change_job jid f st = (r, st1)"
  shows "case job_of jid st of
           None \<Rightarrow> r = Err (JobErr (JobError.NotFound jid)) \<and> job_of jid st1 = None
         | Some c \<Rightarrow> job_of jid st1 = Some (snd (f c)) \<and>
             r = (case fst (f c) of Inl s \<Rightarrow> Err (JobErr (ContextError jid s)) | Inr _ \<Rightarrow> Ok ())"
  using assms
  by (auto simp: change_job_def update_context_def job_of_def update_conv' split: option.splits prod.splits sum.splits)

text \<open>The state a mark leaves the job in: the marked one exactly when the transition is legal.\<close>

lemma state_store_fallback [simp]: "state (store_fallback_in_metadata fb c) = state c"
  by (simp add: store_fallback_in_metadata_def Let_def split: option.split)

lemma with_fallback_effect:
  "fst (with_fallback fb (transition_to n1 n2 s r) c) = fst (transition_to n1 n2 s r c)"
  "state (snd (with_fallback fb (transition_to n1 n2 s r) c)) = state (snd (transition_to n1 n2 s r c))"
  by (auto simp: with_fallback_def split: prod.split sum.split)

definition settled_as :: "uuid \<Rightarrow> JobState \<Rightarrow> ('d, 'x) job_world \<Rightarrow> (Error, unit) result \<times> ('d, 'x) job_world \<Rightarrow> bool" where
  "settled_as jid s st out \<longleftrightarrow>
     (case job_of jid st of
        None \<Rightarrow> \<not> is_ok (fst out) \<and> job_of jid (snd out) = None
      | Some c \<Rightarrow>
          (\<exists>c1. job_of jid (snd out) = Some c1 \<and>
             (if can_transition_to (state c) s then is_ok (fst out) \<and> state c1 = s
              else \<not> is_ok (fst out) \<and> state c1 = state c)))"

lemma change_job_settles:
  assumes "change_job jid f st = (r, st1)"
    and "\<And>c. is_ok (fst (f c)) = can_transition_to (state c) s"
    and "\<And>c. state (snd (f c)) = (if can_transition_to (state c) s then s else state c)"
  shows "settled_as jid s st (r, st1)"
proof (cases "job_of jid st")
  case (Some c)
  then show ?thesis
    using change_job_effect [OF assms(1)] assms(2) [of c] assms(3) [of c]
    by (cases "fst (f c)") (auto simp: settled_as_def)
qed (use change_job_effect [OF assms(1)] in \<open>simp add: settled_as_def\<close>)

lemma mark_completed_settles:
  fixes st :: "('d, 'x) job_world"
  shows "settled_as jid Completed st (mark_completed wd jid st)"
proof -
  define f :: "'d job_context \<Rightarrow> (string, unit) result \<times> 'd job_context" where
    "f = transition_to (wd_now wd st) (wd_now wd st) Completed (Some ''Job completed successfully'') "
  obtain r st1 where c: "change_job jid f st = (r, st1)" by (metis prod.exhaust)
  have "settled_as jid Completed st (r, st1)"
    by (rule change_job_settles [OF c]) (simp_all add: f_def transition_to_ok_iff state_transition_to)
  then show ?thesis using c
    by (auto simp: mark_completed_def Let_def f_def [symmetric] settled_as_def split: sum.split option.splits if_splits)
qed

lemma mark_failed_settles:
  fixes st :: "('d, 'x) job_world"
  shows "settled_as jid Failed st (mark_failed wd jid reason st)"
proof -
  define f :: "'d job_context \<Rightarrow> (string, unit) result \<times> 'd job_context" where
    "f = with_fallback (build_fallback wd jid reason st) (transition_to (wd_now wd st) (wd_now wd st) Failed (Some reason))"
  obtain r st1 where c: "change_job jid f st = (r, st1)" by (metis prod.exhaust)
  have "settled_as jid Failed st (r, st1)"
    by (rule change_job_settles [OF c]) (simp_all add: f_def with_fallback_effect transition_to_ok_iff state_transition_to)
  then show ?thesis using c
    by (auto simp: mark_failed_def Let_def f_def [symmetric] settled_as_def split: sum.split option.splits if_splits)
qed

lemma mark_job_stuck_settles:
  fixes st :: "('d, 'x) job_world"
  shows "settled_as jid Stuck st (mark_job_stuck wd jid reason st)"
proof -
  define f :: "'d job_context \<Rightarrow> (string, unit) result \<times> 'd job_context" where
    "f = with_fallback (build_fallback wd jid reason st) (mark_stuck (wd_now wd st) (wd_now wd st) reason)"
  have f: "f = with_fallback (build_fallback wd jid reason st) (transition_to (wd_now wd st) (wd_now wd st) Stuck (Some reason))"
    by (simp add: f_def mark_stuck_def fun_eq_iff with_fallback_def)
  obtain r st1 where c: "change_job jid f st = (r, st1)" by (metis prod.exhaust)
  have "settled_as jid Stuck st (r, st1)"
    by (rule change_job_settles [OF c]) (simp_all add: f with_fallback_effect transition_to_ok_iff state_transition_to)
  then show ?thesis using c
    by (auto simp: mark_job_stuck_def Let_def f_def [symmetric] settled_as_def split: sum.split option.splits if_splits)
qed

text \<open>Where a job may be after its worker has ended, by the result of the run.\<close>

definition left_behind :: "uuid \<Rightarrow> (Error, unit) result \<times> ('d, 'x) job_world \<Rightarrow> bool" where
  "left_behind jid out =
     (case job_of jid (snd out) of
        None \<Rightarrow> True
      | Some c \<Rightarrow> if is_ok (fst out) then state c \<in> {Completed, Stuck, Accepted, Failed, Cancelled} else state c \<noteq> InProgress)"

lemma settled_as_left_behind:
  assumes "settled_as jid s st out" and "s \<in> {Completed, Failed, Stuck}"
  shows "left_behind jid out"
proof -
  have "can_transition_to InProgress s" using assms(2) by (auto simp: can_transition_to_def)
  then show ?thesis using assms
    by (auto simp: settled_as_def left_behind_def split: option.splits if_splits)
qed

lemma settle_job_left_behind: "left_behind jid (settle_job wd jid e st)"
proof (cases e)
  case (LoopEnded r)
  have ok: "left_behind jid (mark_completed wd jid st)" "left_behind jid (mark_failed wd jid x st)" for x
    by (rule settled_as_left_behind [OF mark_completed_settles] settled_as_left_behind [OF mark_failed_settles]; simp)+
  have keep: "left_behind jid (Ok (), st)"
    if "case job_of jid st of None \<Rightarrow> True | Some c \<Rightarrow> is_terminal (state c) \<or> state c = Completed \<or> state c = Stuck"
    using that by (auto simp: left_behind_def is_terminal_def split: option.splits)
  show ?thesis using LoopEnded ok keep
    by (auto simp: settle_job_def get_context_job_of split: sum.split option.splits)
next
  case LoopTimedOut
  then show ?thesis
    using settled_as_left_behind [OF mark_job_stuck_settles [of jid st wd "''Execution timeout''"]] by (simp add: settle_job_def)
qed

text \<open>
  C25: Whatever the model, the tools, the hooks and concurrent tasks do, and whether the loop ends, fails or is
  cut off by the time limit: when a worker that was started ends, its job is not in progress any
  more; and when it ends without an error the job is completed, stuck, or in a terminal state, or it
  is no longer registered.
\<close>

theorem worker_settles_job:
  "(case jw_queue st of [] \<Rightarrow> True | m # _ \<Rightarrow> m = StopJob) \<or> left_behind jid (run_worker wd jid interrupted st)"
proof (cases "jw_queue st")
  case (Cons m q)
  have "left_behind jid (Err e, st\<lparr>jw_queue := q\<rparr>)" if "job_of jid st = None" for e
    using that by (simp add: left_behind_def)
  then have "left_behind jid (run_worker wd jid interrupted st)" if "m \<noteq> StopJob"
    using Cons that settle_job_left_behind
    by (cases m) (auto simp: run_worker_def Let_def get_context_job_of split: option.split prod.split)
  then show ?thesis using Cons by auto
qed simp

subsection \<open>A round of tool calls\<close>

lemma process_results_messages:
  assumes "process_results wd jid prs ctx st = (r, ctx1, st1)"
  shows "\<exists>k bodies. k \<le> length prs \<and> length bodies = k \<and> (is_ok r \<longrightarrow> k = length prs) \<and>
     rc_messages ctx1 = rc_messages ctx @
       map2 (\<lambda>(sel, _) b. tool_result (ts_tool_call_id sel) (ts_tool_name sel) b) (take k prs) bodies"
  using assms
proof (induction prs arbitrary: ctx st)
  case (Cons pr prs)
  obtain sel res where pr: "pr = (sel, res)" by (cases pr)
  obtain p ctx2 st2 where p: "process_tool_result_job wd jid sel res ctx st = (p, ctx2, st2)" by (metis prod_cases3)
  then obtain b where b: "rc_messages ctx2 = rc_messages ctx @ [tool_result (ts_tool_call_id sel) (ts_tool_name sel) b]"
    by (auto simp: process_tool_result_job_def Let_def push_msgs_def process_tool_result_def)
  show ?case
  proof (cases p)
    case (Inl e)
    with Cons.prems pr p b show ?thesis
      by (intro exI [of _ 1] exI [of _ "[b]"]) auto
  next
    case (Inr u)
    with Cons.prems pr p have "process_results wd jid prs ctx2 st2 = (r, ctx1, st1)" by simp
    from Cons.IH [OF this] obtain k bodies where k: "k \<le> length prs" "length bodies = k" "is_ok r \<longrightarrow> k = length prs"
      "rc_messages ctx1 = rc_messages ctx2 @ map2 (\<lambda>(sel, _) b. tool_result (ts_tool_call_id sel) (ts_tool_name sel) b) (take k prs) bodies"
      by blast
    then show ?thesis using pr b by (intro exI [of _ "Suc k"] exI [of _ "b # bodies"]) auto
  qed
qed simp

lemma run_parallel_length: "length (fst (run_parallel wd jid sels order slots st)) = length slots"
  by (induction order arbitrary: slots st) (auto split: prod.split)

lemma execute_tools_parallel_length: "length (fst (execute_tools_parallel wd jid sels st)) = length sels"
proof -
  have "length slots = length sels" if "run_parallel wd jid sels order (replicate (length sels) None) st = (slots, st1)" for order slots st1
    using run_parallel_length [of wd jid sels order "replicate (length sels) None" st] that by simp
  then show ?thesis by (auto simp: execute_tools_parallel_def split: list.split prod.split)
qed

text \<open>
  A round of a job appends the assistant's message with the calls and then one result for each call of an
  initial part of them, in order and under the call's identifier, whatever the order in which parallel
  calls finish; unless the round fails, every call has its result.
\<close>

theorem job_round_keeps_protocol:
  "case job_execute_tool_calls wd jid calls body ctx ds of (r, ctx1, _) \<Rightarrow>
     \<exists>bodies. length bodies \<le> length calls \<and>
       rc_messages ctx1 = rc_messages ctx @ assistant_with_tool_calls body calls #
         map2 (\<lambda>tc b. tool_result (tc_id tc) (tc_name tc) b) (take (length bodies) calls) bodies \<and>
       (case r of Inr oc \<Rightarrow> length bodies = length calls \<and> oc = None | Inl _ \<Rightarrow> True)"
proof -
  obtain n st where ds: "ds = (n, st)" by (cases ds)
  define st1 where "st1 = (case body of Some s \<Rightarrow> log_event wd jid ''message'' (message_data ''assistant'' s) st | None \<Rightarrow> st)"
  define sels where "sels = map call_selection calls"
  define ctx1 where "ctx1 = push_msgs [assistant_with_tool_calls body calls] ctx"
  obtain rs st2 where e: "execute_tools_parallel wd jid sels st1 = (rs, st2)" by (metis prod.exhaust)
  have len: "length rs = length calls" using execute_tools_parallel_length [of wd jid sels st1] e by (simp add: sels_def)
  obtain r ctx2 st3 where p: "process_results wd jid (zip sels rs) ctx1 st2 = (r, ctx2, st3)" by (metis prod_cases3)
  obtain k bodies where k: "k \<le> length calls" "length bodies = k" "is_ok r \<longrightarrow> k = length calls"
    and ms: "rc_messages ctx2 = rc_messages ctx1 @
       map2 (\<lambda>(sel, _) b. tool_result (ts_tool_call_id sel) (ts_tool_name sel) b) (take k (zip sels rs)) bodies"
    using process_results_messages [OF p] len by (auto simp: sels_def)
  have "map2 (\<lambda>(sel, _) b. tool_result (ts_tool_call_id sel) (ts_tool_name sel) b) (take k (zip sels rs)) bodies =
        map2 (\<lambda>tc b. tool_result (tc_id tc) (tc_name tc) b) (take k calls) bodies"
    using k(1,2) len by (intro nth_equalityI) (auto simp: sels_def call_selection_def)
  with ms have "rc_messages ctx2 = rc_messages ctx @ assistant_with_tool_calls body calls #
      map2 (\<lambda>tc b. tool_result (tc_id tc) (tc_name tc) b) (take (length bodies) calls) bodies"
    using k(2) by (simp add: ctx1_def push_msgs_def)
  then show ?thesis using ds e p k
    by (cases r) (auto simp: job_execute_tool_calls_def Let_def st1_def [symmetric] sels_def [symmetric] ctx1_def [symmetric]
        intro!: exI [of _ bodies])
qed

subsection \<open>What is lost, kept and logged\<close>

lemma drain_queue_frame:
  "drain_queue wd jid q stp um st = (b, m, st1) \<Longrightarrow> jw_queue st1 = jw_queue st \<and> job_of jid st1 = job_of jid st"
proof (induction wd jid q stp um st rule: drain_queue.induct)
  case (5 wd jid s q stp um st)
  moreover have "jw_queue (log_event wd jid et data st) = jw_queue st" for et data
    by (simp add: log_event_def Let_def split: option.split)
  ultimately show ?case by simp
qed auto

text \<open>
  Of two user messages in the queue the first is handed to the model and the second is only logged: it is
  taken out of the queue, and the next iteration does not find it.
\<close>

theorem later_messages_lost:
  "\<exists>st1. job_check_signals wd jid (n, st\<lparr>jw_queue := [UserMessage a, UserMessage b]\<rparr>) = (InjectMessage a, (n, st1)) \<and>
     jw_queue st1 = []"
  by (auto simp: job_check_signals_def log_event_def Let_def split: option.split)

text \<open>
  A stop that the worker sees ends its loop without an error, and the worker then marks the job as
  completed; the scheduler's transition to cancelled, which follows, is refused.
\<close>

lemma stopped_job_is_completed:
  assumes "jw_queue st = [StartJob, StopJob]" and "\<not> wd_use_planning wd"
    and "job_of jid st = Some c" "state c = InProgress" "metadata c = JNull"
  shows "\<exists>c1. job_of jid (snd (run_worker wd jid None st)) = Some c1 \<and> state c1 = Completed \<and>
     state (snd (stop_transition se w c1)) = Completed"
proof -
  define st1 where "st1 = st\<lparr>jw_queue := [StopJob]\<rparr>"
  have "job_max_iterations jid st1 = 50"
    using assms(3,5)
    by (simp add: job_max_iterations_def st1_def get_context_job_of jget_def unwrap_or_def MAX_WORKER_ITERATIONS_def)
  then obtain m where some: "job_max_iterations jid st1 = Suc m" by (metis numeral_eq_Suc)
  have "job_check_signals wd jid (0, st1) = (SignalStop, (0, st1\<lparr>jw_queue := []\<rparr>))"
    by (simp add: job_check_signals_def st1_def)
  then have "run_agentic_loop lc (job_delegate wd jid) ctx (job_config (Suc m)) (0, st1) = (Ok LoopStopped, ctx, (0, st1\<lparr>jw_queue := []\<rparr>))"
    for lc ctx
    by (simp add: run_agentic_loop_def job_config_def loop_iteration_def job_delegate_def)
  then have loop: "execution_loop wd jid ctx st1 = (Ok (), st1\<lparr>jw_queue := []\<rparr>)" for ctx
    using assms(2) some by (simp add: execution_loop_def make_plan_def direct_loop_def Let_def)
  define st2 where "st2 = st1\<lparr>jw_queue := []\<rparr>"
  have c2: "job_of jid st2 = Some c" using assms(3) by (simp add: st2_def st1_def)
  have "run_worker wd jid None st = mark_completed wd jid st2"
    using assms(1,3,4) loop c2
    by (simp add: run_worker_def st1_def [symmetric] st2_def [symmetric] settle_job_def get_context_job_of is_terminal_def Let_def)
  then obtain c1 where "job_of jid (snd (run_worker wd jid None st)) = Some c1" "state c1 = Completed"
    using mark_completed_settles [of jid st2 wd] c2 assms(4) by (auto simp: settled_as_def can_transition_to_def)
  then show ?thesis by (auto simp: stop_transition_def state_transition_to can_transition_to_def)
qed

text \<open>
  A stop that arrives while a plan is carried out ends the plan but not the job: the message is consumed
  and the worker goes on with the direct loop.
\<close>

lemma stop_during_plan_continues:
  assumes "make_plan wd jid (with_tools (wd_tool_definitions wd st) ctx) st = (Some p, ctx1, st1)"
    and "pl_actions p \<noteq> []" and "jw_queue st1 = StopJob # q"
    and "job_of jid st1 = Some c" "state c = InProgress"
  shows "execution_loop wd jid ctx st = direct_loop wd jid (job_max_iterations jid st) ctx1 (st1\<lparr>jw_queue := q\<rparr>)"
proof -
  obtain a rest where "pl_actions p = a # rest" using assms(2) by (cases "pl_actions p") auto
  then have "execute_plan wd jid p ctx1 st1 = (Ok (), ctx1, st1\<lparr>jw_queue := q\<rparr>)"
    using assms(3) by (simp add: execute_plan_def)
  then show ?thesis using assms(1,4,5)
    by (simp add: execution_loop_def Let_def get_context_job_of plan_settles_def is_terminal_def)
qed

text \<open>
  An answer that takes the job over its token budget marks the job as failed and is still carried out:
  the tool calls in it are returned to the loop, and a tool call looks only for a cancelled job.
\<close>

lemma over_budget_answer_is_used:
  assumes "respond_with_tools (wd_re wd) (ev_decode (wd_exec wd)) (wd_prompt wd) (wd_llm wd) ctx st = (Ok out, st1)"
    and "job_of jid st1 = Some c" "state c = InProgress"
    and "usage_total (ro_usage out) \<noteq> 0"
    and "fst (add_tokens (ucast (usage_total (ro_usage out))) c) = Err b"
  shows "\<exists>st2 c2. job_respond wd jid ctx (n, st) = (Ok out, (0, st2)) \<and> job_of jid st2 = Some c2 \<and> state c2 = Failed"
proof -
  define total :: u64 where "total = ucast (usage_total (ro_usage out))"
  obtain c1 where add: "add_tokens total c = (Err b, c1)" using assms(5) by (cases "add_tokens total c") (auto simp: total_def)
  then have c1: "state c1 = InProgress" using assms(3) by (auto simp: add_tokens_def Let_def split: if_splits)
  define st2 where "st2 = st1\<lparr>jw_contexts := (jw_contexts st1)\<lparr>contexts := AList.update jid c1 (contexts (jw_contexts st1))\<rparr>\<rparr>"
  have job2: "job_of jid st2 = Some c1" by (simp add: job_of_def st2_def update_conv')
  have "unat (usage_total (ro_usage out)) < 2 ^ 64"
    using unsigned_less [of "usage_total (ro_usage out)", where ?'a = nat] by simp
  then have "unat total = unat (usage_total (ro_usage out))"
    by (simp add: total_def unsigned_ucast_eq take_bit_nat_eq_self)
  with assms(4) have "total \<noteq> 0" by (metis unat_0_iff)
  then obtain reason where cnt: "count_tokens wd jid out st1 = mark_failed wd jid reason st2"
    using assms(2) add
    by (auto simp: count_tokens_def Let_def total_def [symmetric] update_context_def job_of_def st2_def)
  have "settled_as jid Failed st2 (mark_failed wd jid reason st2)" by (rule mark_failed_settles)
  then obtain u st3 c3 where "mark_failed wd jid reason st2 = (Ok u, st3)" "job_of jid st3 = Some c3" "state c3 = Failed"
    using job2 c1 by (cases "mark_failed wd jid reason st2"; cases "fst (mark_failed wd jid reason st2)")
      (auto simp: settled_as_def can_transition_to_def)
  then show ?thesis using assms(1) cnt by (auto simp: job_respond_def)
qed

text \<open>
  A hook sees the redacted parameters. When it changes some other field, the tool runs with what the hook
  returned: the sensitive value has become the redaction marker.
\<close>

lemma hook_replaces_secret:
  assumes "run_hooks (wd_json wd) (ev_decode (wd_exec wd)) (ev_fmt (wd_exec wd)) (wd_hooks wd)
             (ToolCallEvent n (redact_params (JObject kvs) (sensitive_params t)) (user_id c) (''job:'' @ wd_render wd jid)) st
           = (Ok (HookContinue (Some s)), st1)"
    and "ev_decode (wd_exec wd) s = Some q"
    and "jget q k = jget (redact_params (JObject kvs) (sensitive_params t)) k"
    and "normalized_params (wd_exec wd) t q = q"
    and "k \<in> set (sensitive_params t)" "map_of kvs k \<noteq> None"
  shows "tool_hooks wd jid n t (JObject kvs) c st = (Ok q, st1) \<and> jget q k = Some (JString REDACTED)"
proof -
  have "map_of (fold (\<lambda>k o'. if map_of o' k \<noteq> None then AList.update k (JString REDACTED) o' else o') ks o1) k = Some (JString REDACTED)"
    if "k \<in> set ks \<and> map_of o1 k \<noteq> None \<or> map_of o1 k = Some (JString REDACTED)" for ks o1
    using that by (induction ks arbitrary: o1) (auto simp: update_conv')
  then have "jget (redact_params (JObject kvs) (sensitive_params t)) k = Some (JString REDACTED)"
    using assms(5,6) by (auto simp: redact_params_def jget_def)
  then show ?thesis using assms(1-4) by (simp add: tool_hooks_def Let_def)
qed

text \<open>The event of a tool call holds the parameters as the model gave them, sensitive ones included.\<close>

lemma tool_use_event_unredacted:
  assumes "wd_store wd" and "length (wd_json wd (ts_parameters sel)) \<le> 500"
  shows "(jid, ''tool_use'', JObject [(''tool_name'', JString (ts_tool_name sel)), (''input'', JString (wd_json wd (ts_parameters sel)))])
     \<in> set (jw_events (snd (snd (process_tool_result_job wd jid sel res ctx st))))"
proof -
  have mono: "set (jw_events st0) \<subseteq> set (jw_events (log_event wd jid et data (record_tool_failure wd n res st0)))" for st0 et data n
    by (auto simp: log_event_def record_tool_failure_def Let_def split: option.split sum.split)
  have "(jid, ''tool_use'', tool_use_data wd sel) \<in> set (jw_events (log_event wd jid ''tool_use'' (tool_use_data wd sel) st))"
    using assms(1) by (simp add: log_event_def Let_def split: option.split)
  then have "(jid, ''tool_use'', tool_use_data wd sel) \<in> set (jw_events (snd (snd (process_tool_result_job wd jid sel res ctx st))))"
    unfolding process_tool_result_job_def Let_def snd_conv using mono by blast
  then show ?thesis using assms(2) by (simp add: tool_use_data_def truncate_for_preview_def)
qed

end
