(* ===== verification/Pairing.thy ===== *)
theory Pairing
  imports Text_Ops Coercion "HOL-Library.List_Lexorder"
begin

text \<open>
  \<open>src/pairing/store.rs\<close>: unknown senders get a code, the owner approves it, and the sender is put on
  the channel's list of allowed senders. A channel has three files; a file is what the code reads from
  it (\<open>None\<close> when it is missing, and text that does not parse reads as empty), and failures of the file
  system are left out. Every operation holds the lock of the file it changes, so it is atomic on that file. Seconds
  are numbers, whose subtraction saturates as in the code; Unicode case mapping, RFC 3339 dates and random
  bytes are parameters.

  Lemmas: at most three pending requests per channel, who gets on the list and how, how many codes can
  be tried in five minutes, where the files lie, and that an approval erases the list it extends.
\<close>

subsection \<open>Data\<close>

definition PAIRING_CODE_LENGTH :: nat where "PAIRING_CODE_LENGTH = 8"
definition PAIRING_ALPHABET :: string where "PAIRING_ALPHABET = ''ABCDEFGHJKLMNPQRSTUVWXYZ23456789''"
definition PAIRING_PENDING_TTL_SECS :: nat where "PAIRING_PENDING_TTL_SECS = 15 * 60"
definition PAIRING_PENDING_MAX :: nat where "PAIRING_PENDING_MAX = 3"
definition PAIRING_APPROVE_RATE_LIMIT :: nat where "PAIRING_APPROVE_RATE_LIMIT = 10"
definition PAIRING_APPROVE_RATE_WINDOW_SECS :: nat where "PAIRING_APPROVE_RATE_WINDOW_SECS = 5 * 60"

datatype PairingStoreError = InvalidChannel string | ApproveRateLimited

record upsert_result =
  ur_code :: string
  ur_created :: bool

record pairing_request =
  pr_id :: string
  pr_code :: string
  pr_created_at :: string
  pr_last_seen_at :: string
  pr_meta :: "json option"

record pairing_store =
  ps_pending :: "(string, pairing_request list) hmap"
  ps_allow_from :: "(string, string list) hmap"
  ps_attempts :: "(string, nat list) hmap"

record pairing_env =
  pe_lower :: "string \<Rightarrow> string"
  pe_upper :: "string \<Rightarrow> string"
  pe_rfc3339 :: "string \<Rightarrow> int option"
  pe_iso :: "nat \<Rightarrow> string option"

subsection \<open>Channels and times\<close>

definition unsafe_char :: "char \<Rightarrow> bool" where
  "unsafe_char c \<longleftrightarrow> c \<in> {CHR 0x5C, CHR ''/'', CHR '':'', CHR ''*'', CHR ''?'', CHR 0x22, CHR ''<'', CHR ''>'', CHR ''|''}"

definition mask_unsafe :: "string \<Rightarrow> string" where
  "mask_unsafe = map (\<lambda>c. if unsafe_char c then CHR ''_'' else c)"

definition safe_channel_key :: "pairing_env \<Rightarrow> string \<Rightarrow> (PairingStoreError, string) result" where
  "safe_channel_key pe channel =
     (let raw = pe_lower pe (trim_str channel) in
      if raw = [] then Err (InvalidChannel ''empty'')
      else let safe = replace_str ''..'' ''_'' (mask_unsafe raw) in
           if safe = [] \<or> safe = ''_'' then Err (InvalidChannel channel) else Ok safe)"

text \<open>The three files of a channel lie side by side in the base directory, under these names.\<close>

definition pairing_file :: "string \<Rightarrow> string" where "pairing_file key = key @ ''-pairing.json''"
definition allow_from_file :: "string \<Rightarrow> string" where "allow_from_file key = key @ ''-allowFrom.json''"
definition approve_attempts_file :: "string \<Rightarrow> string" where "approve_attempts_file key = key @ ''-approve-attempts.json''"

definition now_iso :: "pairing_env \<Rightarrow> nat \<Rightarrow> string" where
  "now_iso pe now = unwrap_or (pe_iso pe now) (show_nat now)"

text \<open>\<open>str::parse::<u64>\<close>.\<close>

definition parse_u64 :: "string \<Rightarrow> nat option" where
  "parse_u64 s =
     (let ds = (case strip_prefix s ''+'' of Some r \<Rightarrow> r | None \<Rightarrow> s) in
      if ds \<noteq> [] \<and> list_all is_ascii_digit ds \<and> digits_value ds < 2 ^ 64 then Some (nat (digits_value ds)) else None)"

text \<open>A timestamp before 1970 is cast to a large number.\<close>

definition parse_timestamp :: "pairing_env \<Rightarrow> string \<Rightarrow> nat option" where
  "parse_timestamp pe s =
     (case pe_rfc3339 pe s of Some t \<Rightarrow> Some (nat (t mod 2 ^ 64)) | None \<Rightarrow> parse_u64 s)"

definition request_expired :: "pairing_env \<Rightarrow> pairing_request \<Rightarrow> nat \<Rightarrow> bool" where
  "request_expired pe r now \<longleftrightarrow> PAIRING_PENDING_TTL_SECS < now - unwrap_or (parse_timestamp pe (pr_created_at r)) 0"

subsection \<open>Codes\<close>

text \<open>\<open>rnd\<close> gives the random indices, each below the length of the alphabet; a code uses the next eight.\<close>

definition random_code :: "(nat \<Rightarrow> nat) \<Rightarrow> string" where
  "random_code rnd = map (\<lambda>i. PAIRING_ALPHABET ! (rnd i mod length PAIRING_ALPHABET)) [0..<PAIRING_CODE_LENGTH]"

text \<open>\<open>format!("{:04}")\<close>.\<close>

definition pad4 :: "nat \<Rightarrow> string" where
  "pad4 n = replicate (4 - length (show_nat n)) (CHR ''0'') @ show_nat n"

fun first_free_code :: "nat \<Rightarrow> nat \<Rightarrow> (nat \<Rightarrow> nat \<Rightarrow> nat) \<Rightarrow> string list \<Rightarrow> string option" where
  "first_free_code 0 i rnd used = None"
| "first_free_code (Suc n) i rnd used =
     (let c = random_code (rnd i) in if c \<in> set used then first_free_code n (i + 1) rnd used else Some c)"

definition generate_unique_code :: "(nat \<Rightarrow> nat \<Rightarrow> nat) \<Rightarrow> string list \<Rightarrow> string" where
  "generate_unique_code rnd used =
     (case first_free_code 500 0 rnd used of
        Some c \<Rightarrow> c
      | None \<Rightarrow> random_code (rnd 500) @ pad4 (rnd 501 0 mod 10000))"

subsection \<open>Operations\<close>

definition live_requests :: "pairing_env \<Rightarrow> nat \<Rightarrow> pairing_request list \<Rightarrow> pairing_request list" where
  "live_requests pe now = filter (\<lambda>r. \<not> request_expired pe r now)"

definition pending_of :: "string \<Rightarrow> pairing_store \<Rightarrow> pairing_request list" where
  "pending_of key ps = unwrap_or (map_of (ps_pending ps) key) []"

definition set_pending :: "string \<Rightarrow> pairing_request list \<Rightarrow> pairing_store \<Rightarrow> pairing_store" where
  "set_pending key rs ps = ps\<lparr>ps_pending := AList.update key rs (ps_pending ps)\<rparr>"

text \<open>Byte-wise comparison of strings, as \<open>str::cmp\<close> has it.\<close>

definition str_key :: "string \<Rightarrow> nat list" where "str_key = map code"

definition list_pending ::
  "pairing_env \<Rightarrow> nat \<Rightarrow> string \<Rightarrow> pairing_store \<Rightarrow> (PairingStoreError, pairing_request list) result \<times> pairing_store" where
  "list_pending pe now channel ps =
     (case safe_channel_key pe channel of
        Inl e \<Rightarrow> (Err e, ps)
      | Inr key \<Rightarrow>
          (case map_of (ps_pending ps) key of
             None \<Rightarrow> (Ok [], ps)
           | Some rs \<Rightarrow>
               let live = live_requests pe now rs in
               (Ok (sort_key (\<lambda>r. str_key (pr_created_at r)) live),
                if length live \<noteq> length rs then set_pending key live ps else ps)))"

definition refresh_request :: "string \<Rightarrow> string \<Rightarrow> json option \<Rightarrow> pairing_request \<Rightarrow> pairing_request" where
  "refresh_request stampd c meta r =
     (let r1 = r\<lparr>pr_last_seen_at := stampd, pr_code := c\<rparr> in
      case meta of Some m \<Rightarrow> r1\<lparr>pr_meta := Some m\<rparr> | None \<Rightarrow> r1)"

text \<open>\<open>Iterator::position\<close> and \<open>Vec::remove\<close>.\<close>

fun index_where :: "('a \<Rightarrow> bool) \<Rightarrow> 'a list \<Rightarrow> nat option" where
  "index_where P [] = None"
| "index_where P (x # xs) = (if P x then Some 0 else map_option Suc (index_where P xs))"

definition remove_at :: "nat \<Rightarrow> 'a list \<Rightarrow> 'a list" where
  "remove_at i xs = take i xs @ drop (Suc i) xs"

definition upsert_request ::
  "pairing_env \<Rightarrow> (nat \<Rightarrow> nat \<Rightarrow> nat) \<Rightarrow> nat \<Rightarrow> string \<Rightarrow> string \<Rightarrow> json option \<Rightarrow> pairing_store
     \<Rightarrow> (PairingStoreError, upsert_result) result \<times> pairing_store" where
  "upsert_request pe rnd now channel ident meta ps =
     (case safe_channel_key pe channel of
        Inl e \<Rightarrow> (Err e, ps)
      | Inr key \<Rightarrow>
          let stampd = now_iso pe now; i = trim_str ident;
              created = (if map_of (ps_pending ps) key = None then set_pending key [] ps else ps) in
          if i = [] then (Err (InvalidChannel ''empty id''), created)
          else
            let live = live_requests pe now (pending_of key ps);
                used = map (\<lambda>r. pe_upper pe (pr_code r)) live in
            case index_where (\<lambda>r. pr_id r = i) live of
              Some k \<Rightarrow>
                let old = live ! k;
                    c = (if pr_code old = [] then generate_unique_code rnd used else pr_code old) in
                (Ok \<lparr>ur_code = c, ur_created = False\<rparr>, set_pending key (live[k := refresh_request stampd c meta old]) created)
            | None \<Rightarrow>
                if PAIRING_PENDING_MAX \<le> length live then (Ok \<lparr>ur_code = [], ur_created = False\<rparr>, created)
                else let c = generate_unique_code rnd used in
                     (Ok \<lparr>ur_code = c, ur_created = True\<rparr>,
                      set_pending key (live @ [\<lparr>pr_id = i, pr_code = c, pr_created_at = stampd, pr_last_seen_at = stampd, pr_meta = meta\<rparr>]) created))"

definition recent_failures :: "nat \<Rightarrow> nat list \<Rightarrow> nat list" where
  "recent_failures now = filter (\<lambda>t. now - PAIRING_APPROVE_RATE_WINDOW_SECS \<le> t)"

definition is_approve_rate_limited :: "nat \<Rightarrow> string \<Rightarrow> pairing_store \<Rightarrow> bool" where
  "is_approve_rate_limited now key ps \<longleftrightarrow>
     (case map_of (ps_attempts ps) key of
        None \<Rightarrow> False
      | Some failed \<Rightarrow> PAIRING_APPROVE_RATE_LIMIT \<le> length (recent_failures now failed))"

definition record_failed_approve :: "nat \<Rightarrow> string \<Rightarrow> pairing_store \<Rightarrow> pairing_store" where
  "record_failed_approve now key ps =
     ps\<lparr>ps_attempts := AList.update key
          (recent_failures now (unwrap_or (map_of (ps_attempts ps) key) [] @ [now])) (ps_attempts ps)\<rparr>"

text \<open>
  The list of allowed senders is opened with \<open>truncate(true)\<close> before it is read, so what is read is the
  empty text.
\<close>

definition add_allow_from :: "pairing_env \<Rightarrow> string \<Rightarrow> string \<Rightarrow> pairing_store \<Rightarrow> pairing_store" where
  "add_allow_from pe key ident ps =
     (let entry = trim_str ident in
      if entry = [] then ps
      else
        let truncated = ps\<lparr>ps_allow_from := AList.update key [] (ps_allow_from ps)\<rparr>;
            stored = unwrap_or (map_of (ps_allow_from truncated) key) [] in
        if \<exists>e \<in> set stored. pe_lower pe e = pe_lower pe entry then truncated
        else truncated\<lparr>ps_allow_from := AList.update key (stored @ [entry]) (ps_allow_from truncated)\<rparr>)"

definition approve ::
  "pairing_env \<Rightarrow> nat \<Rightarrow> string \<Rightarrow> string \<Rightarrow> pairing_store
     \<Rightarrow> (PairingStoreError, pairing_request option) result \<times> pairing_store" where
  "approve pe now channel code_text ps =
     (let c = pe_upper pe (trim_str code_text) in
      if c = [] then (Ok None, ps)
      else case safe_channel_key pe channel of
        Inl e \<Rightarrow> (Err e, ps)
      | Inr key \<Rightarrow>
          if is_approve_rate_limited now key ps then (Err ApproveRateLimited, ps)
          else case map_of (ps_pending ps) key of
            None \<Rightarrow> (Err (InvalidChannel ''no pairing file''), ps)
          | Some rs \<Rightarrow>
              let live = live_requests pe now rs in
              (case index_where (\<lambda>r. pe_upper pe (pr_code r) = c) live of
                 None \<Rightarrow> (Ok None, record_failed_approve now key ps)
               | Some k \<Rightarrow>
                   (Ok (Some (live ! k)), add_allow_from pe key (pr_id (live ! k)) (set_pending key (remove_at k live) ps))))"

definition read_allow_from :: "pairing_env \<Rightarrow> string \<Rightarrow> pairing_store \<Rightarrow> (PairingStoreError, string list) result" where
  "read_allow_from pe channel ps =
     (case safe_channel_key pe channel of
        Inl e \<Rightarrow> Err e
      | Inr key \<Rightarrow> Ok (unwrap_or (map_of (ps_allow_from ps) key) []))"

definition is_sender_allowed ::
  "pairing_env \<Rightarrow> string \<Rightarrow> string \<Rightarrow> string option \<Rightarrow> pairing_store \<Rightarrow> (PairingStoreError, bool) result" where
  "is_sender_allowed pe channel ident username ps =
     (case read_allow_from pe channel ps of
        Inl e \<Rightarrow> Err e
      | Inr allow \<Rightarrow>
          if \<exists>e \<in> set allow. trim_str e = trim_str ident then Ok True
          else case username of
            None \<Rightarrow> Ok False
          | Some name \<Rightarrow>
              let u = pe_lower pe (trim_str name); u_norm = (case strip_prefix u ''@'' of Some r \<Rightarrow> r | None \<Rightarrow> u) in
              Ok (\<exists>e \<in> set allow. pe_lower pe (trim_str e) = u \<or> pe_lower pe (trim_str e) = ''@'' @ u_norm))"
subsection \<open>Where the files lie\<close>

lemma replace_dots: "\<not> contains_str (replace_str ''..'' ''_'' s) ''..''"
proof (induction "''..''" "''_''" s rule: replace_str.induct)
  case (2 c cs)
  show ?case
  proof (cases "starts_with (c # cs) ''..''")
    case True
    with 2 show ?thesis by (auto simp: starts_with_def)
  next
    case False
    have "\<not> starts_with (c # replace_str ''..'' ''_'' cs) ''..''"
    proof (cases cs)
      case (Cons d ds)
      with False show ?thesis by (auto simp: starts_with_def)
    qed (use False in \<open>auto simp: starts_with_def\<close>)
    then show ?thesis using False 2 by simp
  qed
qed simp

text \<open>A path separator, and the names that lead out of a directory.\<close>

definition plain_file_name :: "string \<Rightarrow> bool" where
  "plain_file_name n \<longleftrightarrow> n \<noteq> [] \<and> list_all (\<lambda>c. \<not> unsafe_char c) n \<and> n \<noteq> ''.'' \<and> n \<noteq> ''..''"

lemma safe_key_chars:
  assumes "safe_channel_key pe channel = Ok key"
  shows "list_all (\<lambda>c. \<not> unsafe_char c) key" "\<not> contains_str key ''..''" "key \<noteq> []"
proof -
  have key: "key = replace_str ''..'' ''_'' (mask_unsafe (pe_lower pe (trim_str channel)))" "key \<noteq> []"
    using assms by (auto simp: safe_channel_key_def Let_def split: if_splits)
  have "set key \<subseteq> {CHR ''_''} \<union> set (mask_unsafe (pe_lower pe (trim_str channel)))"
    using set_replace_str [of "''..''" "''_''"] key(1) by fastforce
  moreover have "\<forall>c \<in> {CHR ''_''} \<union> set (mask_unsafe (pe_lower pe (trim_str channel))). \<not> unsafe_char c"
    by (auto simp: mask_unsafe_def unsafe_char_def)
  ultimately show "list_all (\<lambda>c. \<not> unsafe_char c) key" by (auto simp: list_all_iff)
  show "\<not> contains_str key ''..''" "key \<noteq> []" using key replace_dots by simp_all
qed

text \<open>
  Whatever the channel's name, its files are plain names in the base directory: the name is refused, or
  none of the three file names has a separator or another special character, and none leads out of
  the directory.
\<close>

theorem pairing_files_contained:
  "case safe_channel_key pe channel of
     Inl e \<Rightarrow> e \<in> {InvalidChannel ''empty'', InvalidChannel channel}
   | Inr key \<Rightarrow> plain_file_name (pairing_file key) \<and> plain_file_name (allow_from_file key) \<and>
       plain_file_name (approve_attempts_file key) \<and> \<not> contains_str key ''..''"
proof (cases "safe_channel_key pe channel")
  case (Inl e)
  then show ?thesis by (auto simp: safe_channel_key_def Let_def split: if_splits)
next
  case (Inr key)
  have fin: "list_all (\<lambda>c. \<not> unsafe_char c) ''-pairing.json''" "list_all (\<lambda>c. \<not> unsafe_char c) ''-allowFrom.json''"
    "list_all (\<lambda>c. \<not> unsafe_char c) ''-approve-attempts.json''"
    by (simp_all add: unsafe_char_def)
  have long: "n @ sfx \<noteq> m" if "length m < length sfx" for n sfx m :: string
    using that by (metis length_append not_add_less2)
  show ?thesis using safe_key_chars [OF Inr] Inr fin
    by (simp add: long plain_file_name_def pairing_file_def allow_from_file_def approve_attempts_file_def)
qed

subsection \<open>Pending requests\<close>

lemma pending_of_set [simp]:
  "pending_of key (set_pending key rs ps) = rs"
  "key' \<noteq> key \<Longrightarrow> pending_of key' (set_pending key rs ps) = pending_of key' ps"
  by (simp_all add: pending_of_def set_pending_def update_conv' unwrap_or_def)

lemma pending_of_other [simp]:
  "pending_of key (record_failed_approve now k ps) = pending_of key ps"
  "pending_of key (add_allow_from pe k i ps) = pending_of key ps"
  by (simp_all add: pending_of_def record_failed_approve_def add_allow_from_def Let_def)

definition pending_ok :: "pairing_request list \<Rightarrow> bool" where
  "pending_ok rs \<longleftrightarrow> length rs \<le> PAIRING_PENDING_MAX \<and> distinct (map pr_id rs)"

definition pairing_inv :: "pairing_store \<Rightarrow> bool" where
  "pairing_inv ps \<longleftrightarrow> (\<forall>key. pending_ok (pending_of key ps))"

lemma pairing_inv_set: "pairing_inv ps \<Longrightarrow> pending_ok rs \<Longrightarrow> pairing_inv (set_pending key rs ps)"
  unfolding pairing_inv_def by (metis pending_of_set)

lemma pending_ok_filter: "pending_ok rs \<Longrightarrow> pending_ok (filter P rs)"
  using order.trans [OF length_filter_le [of P rs]] by (auto simp: pending_ok_def distinct_map_filter)

lemma pending_ok_remove: "pending_ok rs \<Longrightarrow> pending_ok (remove_at k rs)"
proof -
  have "map pr_id (remove_at k rs) = take k (map pr_id rs) @ drop (Suc k) (map pr_id rs)"
    by (simp add: remove_at_def take_map drop_map)
  moreover have "distinct xs \<Longrightarrow> distinct (take k xs @ drop (Suc k) xs)" for xs :: "string list"
    by (auto simp: set_take_disj_set_drop_if_distinct)
  ultimately show "pending_ok rs \<Longrightarrow> ?thesis" by (auto simp: pending_ok_def remove_at_def)
qed

lemma index_where_some: "index_where P xs = Some k \<Longrightarrow> k < length xs \<and> P (xs ! k)"
  by (induction xs arbitrary: k) (auto split: if_splits)

lemma index_where_none: "index_where P xs = None \<longleftrightarrow> (\<forall>x \<in> set xs. \<not> P x)"
  by (induction xs) auto

lemma pr_id_refresh [simp]: "pr_id (refresh_request stampd c meta r) = pr_id r"
  by (simp add: refresh_request_def Let_def split: option.split)

lemma map_id_update: "k < length rs \<Longrightarrow> pr_id r = pr_id (rs ! k) \<Longrightarrow> map pr_id (rs[k := r]) = map pr_id rs"
  by (simp add: map_update list_update_same_conv)

lemma list_pending_inv: "pairing_inv ps \<Longrightarrow> pairing_inv (snd (list_pending pe now channel ps))"
proof -
  have "pending_ok (live_requests pe now rs)" if "pairing_inv ps" "map_of (ps_pending ps) key = Some rs" for key rs
  proof -
    have "rs = pending_of key ps" using that(2) by (simp add: pending_of_def unwrap_or_def)
    then show ?thesis using that(1) pending_ok_filter by (auto simp: live_requests_def pairing_inv_def)
  qed
  then show "pairing_inv ps \<Longrightarrow> ?thesis"
    by (auto simp: list_pending_def Let_def intro: pairing_inv_set split: sum.split option.split)
qed

lemma upsert_request_inv:
  assumes "pairing_inv ps"
  shows "pairing_inv (snd (upsert_request pe rnd now channel ident meta ps))"
proof (cases "safe_channel_key pe channel")
  case (Inr key)
  define created where "created = (if map_of (ps_pending ps) key = None then set_pending key [] ps else ps)"
  define live where "live = live_requests pe now (pending_of key ps)"
  have ok: "pending_ok live" using assms pending_ok_filter by (auto simp: live_def live_requests_def pairing_inv_def)
  have cr: "pairing_inv created" using assms by (auto simp: created_def pending_ok_def intro: pairing_inv_set)
  have upd: "pending_ok (live[k := refresh_request s c m (live ! k)])"
    if "index_where (\<lambda>r. pr_id r = i) live = Some k" for i k s c m
    using ok index_where_some [OF that] by (simp add: pending_ok_def map_id_update)
  have new: "pending_ok (live @ [r])" if "index_where (\<lambda>r. pr_id r = pr_id r') live = None" "pr_id r = pr_id r'"
    "\<not> PAIRING_PENDING_MAX \<le> length live" for r r'
    using ok that by (auto simp: pending_ok_def index_where_none)
  have new': "pending_ok (live @ [\<lparr>pr_id = i, pr_code = c, pr_created_at = a, pr_last_seen_at = b, pr_meta = m\<rparr>])"
    if "index_where (\<lambda>r. pr_id r = i) live = None" "\<not> PAIRING_PENDING_MAX \<le> length live" for i c a b m
    using that by (intro new [where r' = "\<lparr>pr_id = i, pr_code = c, pr_created_at = a, pr_last_seen_at = b, pr_meta = m\<rparr>"]) simp_all
  show ?thesis using Inr cr upd new'
    by (simp add: upsert_request_def Let_def created_def [symmetric] live_def [symmetric] pairing_inv_set split: option.split)
qed (simp add: upsert_request_def assms)

lemma approve_inv:
  assumes "pairing_inv ps"
  shows "pairing_inv (snd (approve pe now channel c ps))"
proof -
  have keep: "pairing_inv (record_failed_approve n k ps)" for n k
    using assms by (simp add: pairing_inv_def)
  have allow: "pairing_inv q \<Longrightarrow> pairing_inv (add_allow_from pe k i q)" for q k i
    by (simp add: pairing_inv_def)
  have "pending_ok (live_requests pe now rs)" if "map_of (ps_pending ps) key = Some rs" for key rs
  proof -
    have "rs = pending_of key ps" using that by (simp add: pending_of_def unwrap_or_def)
    then show ?thesis using assms pending_ok_filter by (auto simp: live_requests_def pairing_inv_def)
  qed
  then have "pairing_inv (set_pending key (remove_at k (live_requests pe now rs)) ps)"
    if "map_of (ps_pending ps) key = Some rs" for key rs k
    using that by (intro pairing_inv_set [OF assms] pending_ok_remove)
  then show ?thesis using assms keep allow by (auto simp: approve_def Let_def split: sum.split option.split)
qed

inductive pairing_step :: "pairing_env \<Rightarrow> pairing_store \<Rightarrow> pairing_store \<Rightarrow> bool" for pe where
  step_list: "pairing_step pe ps (snd (list_pending pe now channel ps))"
| step_upsert: "pairing_step pe ps (snd (upsert_request pe rnd now channel ident meta ps))"
| step_approve: "pairing_step pe ps (snd (approve pe now channel c ps))"

definition empty_pairing :: pairing_store where
  "empty_pairing = \<lparr>ps_pending = [], ps_allow_from = [], ps_attempts = []\<rparr>"

text \<open>
  However requests, listings and approvals follow each other, a channel never has more than three pending
  requests, and no two of one sender.
\<close>

theorem pairing_pending_bounded:
  assumes "(pairing_step pe)\<^sup>*\<^sup>* empty_pairing ps"
  shows "length (pending_of key ps) \<le> 3 \<and> distinct (map pr_id (pending_of key ps))"
proof -
  have "pairing_inv ps" using assms
  proof (induction rule: rtranclp_induct)
    case base
    then show ?case by (simp add: pairing_inv_def empty_pairing_def pending_of_def unwrap_or_def pending_ok_def)
  next
    case (step a b)
    then show ?case by (auto elim!: pairing_step.cases intro: list_pending_inv upsert_request_inv approve_inv)
  qed
  then show ?thesis by (simp add: pairing_inv_def pending_ok_def PAIRING_PENDING_MAX_def)
qed

definition demo_pairing :: pairing_env where
  "demo_pairing = \<lparr>pe_lower = ascii_lower, pe_upper = ascii_upper, pe_rfc3339 = \<lambda>_. None, pe_iso = \<lambda>_. None\<rparr>"

theorem pairing_pending_bounded_witness:
  "length (pending_of ''tg'' (snd (upsert_request demo_pairing (\<lambda>_ _. 0) 1000 ''tg'' ''alice'' None empty_pairing))) \<le> 3 \<and>
   distinct (map pr_id (pending_of ''tg'' (snd (upsert_request demo_pairing (\<lambda>_ _. 0) 1000 ''tg'' ''alice'' None empty_pairing))))"
proof (rule pairing_pending_bounded)
  show "(pairing_step demo_pairing)\<^sup>*\<^sup>* empty_pairing
      (snd (upsert_request demo_pairing (\<lambda>_ _. 0) 1000 ''tg'' ''alice'' None empty_pairing))"
    by (intro r_into_rtranclp step_upsert)
qed

subsection \<open>Approvals\<close>

text \<open>
  Approving a code changes who may write only when the code is that of a live request of the same channel and
  the channel has not seen too many failures; the request is then used up. In every other case the
  pending requests and the allowed senders of all channels stay as they are.
\<close>

theorem approval_needs_live_code:
  "case approve pe now channel c ps of (r, ps1) \<Rightarrow>
     (ps_pending ps1 = ps_pending ps \<and> ps_allow_from ps1 = ps_allow_from ps \<and> (case r of Inr (Some _) \<Rightarrow> False | _ \<Rightarrow> True)) \<or>
     (\<exists>key rs k req. r = Ok (Some req) \<and> safe_channel_key pe channel = Ok key \<and> map_of (ps_pending ps) key = Some rs \<and>
        req \<in> set rs \<and> \<not> request_expired pe req now \<and> pe_upper pe (pr_code req) = pe_upper pe (trim_str c) \<and>
        \<not> is_approve_rate_limited now key ps \<and>
        pending_of key ps1 = remove_at k (live_requests pe now rs) \<and> live_requests pe now rs ! k = req \<and>
        (\<forall>other. other = key \<or> map_of (ps_allow_from ps1) other = map_of (ps_allow_from ps) other))"
proof -
  have frame: "ps_pending (record_failed_approve n k ps) = ps_pending ps" "ps_allow_from (record_failed_approve n k ps) = ps_allow_from ps" for n k
    by (simp_all add: record_failed_approve_def)
  have live: "live_requests pe now rs ! k \<in> set rs \<and> \<not> request_expired pe (live_requests pe now rs ! k) now \<and>
      pe_upper pe (pr_code (live_requests pe now rs ! k)) = u"
    if "index_where (\<lambda>r. pe_upper pe (pr_code r) = u) (live_requests pe now rs) = Some k" for rs k u
  proof -
    from index_where_some [OF that] have "live_requests pe now rs ! k \<in> set (live_requests pe now rs)"
      "pe_upper pe (pr_code (live_requests pe now rs ! k)) = u" by simp_all
    then show ?thesis by (auto simp: live_requests_def)
  qed
  have other: "map_of (ps_allow_from (add_allow_from pe key i (set_pending key rs ps))) o' = map_of (ps_allow_from ps) o'"
    if "o' \<noteq> key" for key i rs o'
    using that by (simp add: add_allow_from_def Let_def update_conv' set_pending_def)
  show ?thesis
    apply (auto simp: approve_def Let_def frame dest!: live split: sum.split option.split)
    subgoal for key rs k by (rule exI [of _ k]) (use other in blast)
    done
qed

text \<open>
  The file of allowed senders is truncated when it is opened, before it is read: an approval leaves the
  approved sender alone on the list, and everyone approved before is forgotten.
\<close>

theorem approval_forgets_others:
  "case approve pe now channel c ps of
     (Inr (Some req), ps1) \<Rightarrow>
        (\<exists>key. safe_channel_key pe channel = Ok key \<and>
           map_of (ps_allow_from ps1) key =
             (if trim_str (pr_id req) = [] then map_of (ps_allow_from ps) key else Some [trim_str (pr_id req)]))
   | _ \<Rightarrow> True"
  by (auto simp: approve_def Let_def add_allow_from_def update_conv' unwrap_or_def set_pending_def
      split: sum.split option.split)

subsection \<open>Guessing codes\<close>

text \<open>
  The history of one channel: the times of the failed approvals so far and the store they left. Between
  two of them anything may happen that does not write the channel's file of failures; the clock does
  not run backwards.
\<close>

inductive guessing :: "pairing_env \<Rightarrow> string \<Rightarrow> string \<Rightarrow> nat list \<Rightarrow> pairing_store \<Rightarrow> bool" for pe channel key where
  guess_start: "safe_channel_key pe channel = Ok key \<Longrightarrow> map_of (ps_attempts ps) key = None \<Longrightarrow> guessing pe channel key [] ps"
| guess_fail: "guessing pe channel key H ps \<Longrightarrow> \<forall>t \<in> set H. t \<le> now \<Longrightarrow> pe_upper pe (trim_str c) \<noteq> [] \<Longrightarrow>
    approve pe now channel c ps = (Ok None, ps1) \<Longrightarrow> guessing pe channel key (H @ [now]) ps1"
| guess_other: "guessing pe channel key H ps \<Longrightarrow> map_of (ps_attempts ps1) key = map_of (ps_attempts ps) key \<Longrightarrow>
    guessing pe channel key H ps1"

definition in_window :: "nat \<Rightarrow> nat list \<Rightarrow> nat list" where
  "in_window a = filter (\<lambda>t. a \<le> t \<and> t \<le> a + PAIRING_APPROVE_RATE_WINDOW_SECS)"

text \<open>
  The file holds the failures since the window before the last one; no window holds more than the limit.
\<close>

definition guess_inv :: "string \<Rightarrow> nat list \<Rightarrow> pairing_store \<Rightarrow> bool" where
  "guess_inv key H ps \<longleftrightarrow>
     (case map_of (ps_attempts ps) key of None \<Rightarrow> H = [] | Some f \<Rightarrow> H \<noteq> [] \<and> f = recent_failures (last H) H) \<and>
     (\<forall>t \<in> set H. t \<le> last H) \<and> (\<forall>a. length (in_window a H) \<le> PAIRING_APPROVE_RATE_LIMIT)"

lemma recent_recent:
  "m \<le> n \<Longrightarrow> recent_failures n (recent_failures m H) = recent_failures n H"
  by (auto simp: recent_failures_def intro!: filter_cong)

lemma window_recent:
  assumes "\<forall>t \<in> set H. t \<le> now" and "a \<le> now" "now \<le> a + PAIRING_APPROVE_RATE_WINDOW_SECS"
  shows "length (in_window a H) \<le> length (recent_failures now H)"
proof -
  have "in_window a H = filter (\<lambda>t. a \<le> t) (recent_failures now H)"
    using assms by (auto simp: in_window_def recent_failures_def intro!: filter_cong)
  then show ?thesis by simp
qed

lemma failed_approval:
  assumes "approve pe now channel c ps = (Ok None, ps1)" "safe_channel_key pe channel = Ok key" "pe_upper pe (trim_str c) \<noteq> []"
  shows "\<not> is_approve_rate_limited now key ps" "ps1 = record_failed_approve now key ps"
  using assms by (auto simp: approve_def Let_def split: if_splits option.splits)

lemma guess_inv_fail:
  assumes "guess_inv key H ps" "\<forall>t \<in> set H. t \<le> now" "\<not> is_approve_rate_limited now key ps"
  shows "guess_inv key (H @ [now]) (record_failed_approve now key ps)"
proof -
  have few: "length (recent_failures now H) < PAIRING_APPROVE_RATE_LIMIT"
  proof (cases "map_of (ps_attempts ps) key")
    case None
    with assms(1) show ?thesis by (simp add: guess_inv_def recent_failures_def PAIRING_APPROVE_RATE_LIMIT_def)
  next
    case (Some f)
    with assms have "f = recent_failures (last H) H" "last H \<le> now" by (auto simp: guess_inv_def)
    then show ?thesis using assms(3) Some by (simp add: is_approve_rate_limited_def recent_recent not_le)
  qed
  have stored: "recent_failures now (unwrap_or (map_of (ps_attempts ps) key) [] @ [now]) = recent_failures now (H @ [now])"
  proof (cases "map_of (ps_attempts ps) key")
    case (Some f)
    with assms have "f = recent_failures (last H) H" "last H \<le> now" by (auto simp: guess_inv_def)
    then have "recent_failures now f = recent_failures now H" by (simp add: recent_recent)
    then show ?thesis using Some by (simp add: recent_failures_def unwrap_or_def)
  qed (use assms(1) in \<open>simp add: guess_inv_def unwrap_or_def\<close>)
  have "length (in_window a (H @ [now])) \<le> PAIRING_APPROVE_RATE_LIMIT" for a
  proof (cases "a \<le> now \<and> now \<le> a + PAIRING_APPROVE_RATE_WINDOW_SECS")
    case True
    then show ?thesis using window_recent [OF assms(2), of a] few by (simp add: in_window_def)
  next
    case False
    then show ?thesis using assms(1) by (auto simp: in_window_def guess_inv_def)
  qed
  then show ?thesis using assms(2) stored
    by (auto simp: guess_inv_def record_failed_approve_def update_conv')
qed

lemma guessing_inv: "guessing pe channel key H ps \<Longrightarrow> safe_channel_key pe channel = Ok key \<and> guess_inv key H ps"
proof (induction rule: guessing.induct)
  case (guess_start ps)
  then show ?case by (simp add: guess_inv_def in_window_def)
next
  case (guess_fail H ps now c ps1)
  with failed_approval [OF guess_fail(4)] guess_inv_fail show ?case by blast
qed (auto simp: guess_inv_def)



end
