(* ===== verification/Shell_Guard.thy ===== *)
theory Shell_Guard
  imports Scheduler
begin

text \<open>
  The shell tool of \<open>src/tools/builtin/shell.rs\<close>: blocked and dangerous commands, detection of injection and
  obfuscation, the commands that always need approval, the environment of the child process, the choice
  between sandbox and host, and truncation. The operating system and the sandbox are parameters that run
  a command in the current world; Unicode lower-casing is a parameter.

  Lemmas: the searches with word boundaries equal their declarative readings, a command reaches a process
  only past every check, and the child's environment.
\<close>

subsection \<open>Tables\<close>

definition MAX_OUTPUT_SIZE :: nat where "MAX_OUTPUT_SIZE = 64 * 1024"

definition DEFAULT_TIMEOUT :: duration where "DEFAULT_TIMEOUT = secs 120"

definition BLOCKED_COMMANDS :: "string list" where
  "BLOCKED_COMMANDS =
     [''rm -rf /'', ''rm -rf /*'', '':(){ :|:& };:'', ''dd if=/dev/zero'', ''mkfs'', ''chmod -R 777 /'', ''> /dev/sda'',
      ''curl | sh'', ''wget | sh'', ''curl | bash'', ''wget | bash'']"

definition DANGEROUS_PATTERNS :: "string list" where
  "DANGEROUS_PATTERNS =
     [''sudo '', ''doas '', '' | sh'', '' | bash'', '' | zsh'', ''eval '', ''$(curl'', ''$(wget'', ''/etc/passwd'', ''/etc/shadow'',
      ''~/.ssh'', ''.bash_history'', ''id_rsa'']"

definition NEVER_AUTO_APPROVE_PATTERNS :: "string list" where
  "NEVER_AUTO_APPROVE_PATTERNS =
     [''rm -rf'', ''rm -fr'', ''chmod -r 777'', ''chmod 777'', ''chown -r'', ''shutdown'', ''reboot'', ''poweroff'', ''init 0'',
      ''init 6'', ''iptables'', ''nft '', ''useradd'', ''userdel'', ''passwd'', ''visudo'', ''crontab'', ''systemctl disable'',
      ''launchctl unload'', ''kill -9'', ''killall'', ''pkill'', ''docker rm'', ''docker rmi'', ''docker system prune'',
      ''git push --force'', ''git push -f'', ''git reset --hard'', ''git clean -f'', ''DROP TABLE'', ''DROP DATABASE'',
      ''TRUNCATE'', ''DELETE FROM'']"

definition SAFE_ENV_VARS :: "string list" where
  "SAFE_ENV_VARS =
     [''PATH'', ''HOME'', ''USER'', ''LOGNAME'', ''SHELL'', ''TERM'', ''COLORTERM'', ''LANG'', ''LC_ALL'', ''LC_CTYPE'', ''LC_MESSAGES'',
      ''PWD'', ''TMPDIR'', ''TMP'', ''TEMP'', ''XDG_RUNTIME_DIR'', ''XDG_DATA_HOME'', ''XDG_CONFIG_HOME'', ''XDG_CACHE_HOME'',
      ''CARGO_HOME'', ''RUSTUP_HOME'', ''NODE_PATH'', ''NPM_CONFIG_PREFIX'', ''EDITOR'', ''VISUAL'', ''SystemRoot'', ''SYSTEMROOT'',
      ''ComSpec'', ''PATHEXT'', ''APPDATA'', ''LOCALAPPDATA'', ''USERPROFILE'', ''ProgramFiles'', ''ProgramFiles(x86)'', ''WINDIR'']"

subsection \<open>Searches\<close>

text \<open>\<open>str::match_indices\<close> for a pattern that is not empty: the starts of the matches that do not overlap.\<close>

fun match_from :: "string \<Rightarrow> nat \<Rightarrow> string \<Rightarrow> nat list" where
  "match_from p i [] = []"
| "match_from p i (c # cs) =
     (if p \<noteq> [] \<and> starts_with (c # cs) p then i # match_from p (i + length p) (drop (length p - 1) cs)
      else match_from p (i + 1) cs)"

definition match_indices :: "string \<Rightarrow> string \<Rightarrow> nat list" where
  "match_indices s p = match_from p 0 s"

definition ends_word :: "char \<Rightarrow> bool" where
  "ends_word c \<longleftrightarrow> c \<in> {CHR '' '', CHR 0x09, CHR 0x0A, CHR '';'', CHR ''|'', CHR ''&'', CHR '')''}"

definition has_pipe_to :: "string \<Rightarrow> string \<Rightarrow> bool" where
  "has_pipe_to s shell =
     list_ex (\<lambda>pre. let pattern = pre @ shell in
        list_ex (\<lambda>i. let fin = i + length pattern in length s \<le> fin \<or> ends_word (s ! fin)) (match_indices s pattern))
       [''| '', ''|'']"

definition SHELLS :: "string list" where
  "SHELLS = [''sh'', ''bash'', ''zsh'', ''dash'', ''/bin/sh'', ''/bin/bash'']"

definition contains_shell_pipe :: "string \<Rightarrow> bool" where
  "contains_shell_pipe s = list_ex (has_pipe_to s) SHELLS"

definition has_command_substitution :: "string \<Rightarrow> bool" where
  "has_command_substitution s \<longleftrightarrow> contains_str s ''$('' \<or> contains_str s ''`''"

definition starts_word :: "char \<Rightarrow> bool" where
  "starts_word c \<longleftrightarrow> c \<in> {CHR '' '', CHR 0x09, CHR ''|'', CHR '';'', CHR ''&'', CHR 0x0A, CHR ''(''}"

definition has_command_token :: "string \<Rightarrow> string \<Rightarrow> bool" where
  "has_command_token s tok = list_ex (\<lambda>i. i = 0 \<or> starts_word (s ! (i - 1))) (match_indices s tok)"

subsection \<open>Checks\<close>

definition requires_explicit_approval :: "(string \<Rightarrow> string) \<Rightarrow> string \<Rightarrow> bool" where
  "requires_explicit_approval lc cmd = list_ex (\<lambda>p. contains_str (lc cmd) (lc p)) NEVER_AUTO_APPROVE_PATTERNS"

definition detect_command_injection :: "(string \<Rightarrow> string) \<Rightarrow> string \<Rightarrow> string option" where
  "detect_command_injection lc cmd =
     (if CHR 0x00 \<in> set cmd then Some ''null byte in command''
      else let s = lc cmd in
      if (contains_str s ''base64 -d'' \<or> contains_str s ''base64 --decode'') \<and> contains_shell_pipe s
      then Some ''base64 decode piped to shell''
      else if (contains_str s ''printf'' \<or> contains_str s ''echo -e'' \<or> contains_str s (''echo $'' @ [CHR 0x27])) \<and>
              (contains_str s (BSL @ ''x'') \<or> contains_str s (BSL @ ''0'')) \<and> contains_shell_pipe s
      then Some ''encoded escape sequences piped to shell''
      else if (contains_str s ''xxd -r'' \<or> has_command_token s ''od '') \<and> contains_shell_pipe s
      then Some ''binary decode piped to shell''
      else if (has_command_token s ''dig '' \<or> has_command_token s ''nslookup '' \<or> has_command_token s ''host '') \<and>
              has_command_substitution s
      then Some ''potential DNS exfiltration via command substitution''
      else if (has_command_token s ''nc '' \<or> has_command_token s ''ncat '' \<or> has_command_token s ''netcat '') \<and>
              (CHR ''|'' \<in> set s \<or> CHR ''<'' \<in> set s)
      then Some ''netcat with data piping''
      else if contains_str s ''curl'' \<and>
              (contains_str s ''-d @'' \<or> contains_str s ''-d@'' \<or> contains_str s ''--data @'' \<or>
               contains_str s ''--data-binary @'' \<or> contains_str s ''--upload-file'')
      then Some ''curl posting file contents''
      else if contains_str s ''wget'' \<and> contains_str s ''--post-file'' then Some ''wget posting file contents''
      else if (contains_str s ''| rev'' \<or> contains_str s ''|rev'') \<and> contains_shell_pipe s
      then Some ''string reversal piped to shell''
      else None)"

subsection \<open>The tool\<close>

text \<open>What running a command gives: output and exit code, an error, or nothing within the time limit.\<close>

datatype run_end = RunDone string int | RunFailed string | RunTimeout

text \<open>
  A process that ran to its end: standard output and standard error, each read up to a limit and decoded,
  and the exit code.
\<close>

datatype child_end = ChildExited string string "int option" | SpawnFailed string | ChildFailed string | ChildTimeout

record 'w sandbox_manager =
  sbx_initialized :: "'w \<Rightarrow> bool"
  sbx_enabled :: bool
  sbx_run :: "string \<Rightarrow> string \<Rightarrow> duration \<Rightarrow> 'w \<Rightarrow> run_end \<times> 'w"

record 'w shell_tool =
  sh_working_dir :: "string option"
  sh_timeout :: duration
  sh_allow_dangerous :: bool
  sh_sandbox :: "'w sandbox_manager option"

record 'w shell_env =
  sv_lower :: "string \<Rightarrow> string"
  sv_decode :: "string \<Rightarrow> json option"
  sv_env_var :: "string \<Rightarrow> 'w \<Rightarrow> string option"
  sv_current_dir :: "'w \<Rightarrow> string option"
  sv_spawn :: "string \<Rightarrow> string \<Rightarrow> (string, string) hmap \<Rightarrow> duration \<Rightarrow> nat \<Rightarrow> 'w \<Rightarrow> child_end \<times> 'w"

definition shell_new :: "'w shell_tool" where
  "shell_new = \<lparr>sh_working_dir = None, sh_timeout = DEFAULT_TIMEOUT, sh_allow_dangerous = False, sh_sandbox = None\<rparr>"

definition command_blocked :: "(string \<Rightarrow> string) \<Rightarrow> 'w shell_tool \<Rightarrow> string \<Rightarrow> string option" where
  "command_blocked lc sh cmd =
     (if list_ex (contains_str (lc cmd)) BLOCKED_COMMANDS then Some ''Command contains blocked pattern''
      else if \<not> sh_allow_dangerous sh \<and> list_ex (contains_str (lc cmd)) DANGEROUS_PATTERNS
      then Some ''Command contains potentially dangerous pattern''
      else None)"

definition truncate_output :: "string \<Rightarrow> string" where
  "truncate_output s =
     (if length s \<le> MAX_OUTPUT_SIZE then s
      else
        let half = MAX_OUTPUT_SIZE div 2;
            head_end = floor_char_boundary s half;
            tail_start = floor_char_boundary s (length s - half) in
        take head_end s @ [CHR 0x0A, CHR 0x0A] @ ''... [truncated '' @ show_nat (length s - MAX_OUTPUT_SIZE) @ '' bytes] ...'' @
        [CHR 0x0A, CHR 0x0A] @ drop tail_start s)"

definition truncate_for_error :: "string \<Rightarrow> string" where
  "truncate_for_error s =
     (if length (str_chars s) \<le> 100 then s else concat (take 100 (str_chars s)) @ ''...'')"

definition execute_sandboxed ::
  "'w sandbox_manager \<Rightarrow> string \<Rightarrow> string \<Rightarrow> duration \<Rightarrow> 'w \<Rightarrow> (ToolRunError, string \<times> int) result \<times> 'w" where
  "execute_sandboxed sb cmd workdir tmo w =
     (case sbx_run sb cmd workdir tmo w of
        (RunDone out ec, w1) \<Rightarrow> (Ok (truncate_output out, ec), w1)
      | (RunFailed e, w1) \<Rightarrow> (Err (TrExecutionFailed (''Sandbox error: '' @ e)), w1)
      | (RunTimeout, w1) \<Rightarrow> (Err (TrTimeout tmo), w1))"

text \<open>The environment of the child: the known safe variables that are set, then the extra ones.\<close>

definition child_environment :: "'w shell_env \<Rightarrow> (string, string) hmap \<Rightarrow> 'w \<Rightarrow> (string, string) hmap" where
  "child_environment sv extra w =
     fold (\<lambda>(k, v). AList.update k v) extra
       (List.map_filter (\<lambda>k. map_option (Pair k) (sv_env_var sv k w)) SAFE_ENV_VARS)"

definition combine_output :: "string \<Rightarrow> string \<Rightarrow> string" where
  "combine_output out err =
     (if err = [] then out else if out = [] then err
      else out @ [CHR 0x0A, CHR 0x0A] @ ''--- stderr ---'' @ [CHR 0x0A] @ err)"

definition execute_direct ::
  "'w shell_env \<Rightarrow> string \<Rightarrow> string \<Rightarrow> duration \<Rightarrow> (string, string) hmap \<Rightarrow> 'w \<Rightarrow> (ToolRunError, string \<times> int) result \<times> 'w" where
  "execute_direct sv cmd workdir tmo extra w =
     (case sv_spawn sv cmd workdir (child_environment sv extra w) tmo MAX_OUTPUT_SIZE w of
        (SpawnFailed e, w1) \<Rightarrow> (Err (TrExecutionFailed (''Failed to spawn command: '' @ e)), w1)
      | (ChildFailed e, w1) \<Rightarrow> (Err (TrExecutionFailed (''Command execution failed: '' @ e)), w1)
      | (ChildTimeout, w1) \<Rightarrow> (Err (TrTimeout tmo), w1)
      | (ChildExited out err ec, w1) \<Rightarrow>
          (Ok (truncate_output (combine_output out err), unwrap_or ec (-1)), w1))"

definition execute_command ::
  "'w shell_env \<Rightarrow> 'w shell_tool \<Rightarrow> string \<Rightarrow> string option \<Rightarrow> u64 option \<Rightarrow> (string, string) hmap \<Rightarrow> 'w
     \<Rightarrow> (ToolRunError, string \<times> int) result \<times> 'w" where
  "execute_command sv sh cmd workdir tmo extra w =
     (case command_blocked (sv_lower sv) sh cmd of
        Some reason \<Rightarrow> (Err (TrNotAuthorized (reason @ '': '' @ truncate_for_error cmd)), w)
      | None \<Rightarrow>
      (case detect_command_injection (sv_lower sv) cmd of
        Some reason \<Rightarrow>
          (Err (TrNotAuthorized (''Command injection detected ('' @ reason @ ''): '' @ truncate_for_error cmd)), w)
      | None \<Rightarrow>
      let cwd = (case workdir of
                   Some d \<Rightarrow> d
                 | None \<Rightarrow> (case sh_working_dir sh of Some d \<Rightarrow> d | None \<Rightarrow> unwrap_or (sv_current_dir sv w) ''.''));
          limit = (case tmo of Some n \<Rightarrow> secs (unat n) | None \<Rightarrow> sh_timeout sh) in
      (case sh_sandbox sh of
        Some sb \<Rightarrow>
          if sbx_initialized sb w \<or> sbx_enabled sb then execute_sandboxed sb cmd cwd limit w
          else execute_direct sv cmd cwd limit extra w
      | None \<Rightarrow> execute_direct sv cmd cwd limit extra w)))"

definition show_exit :: "int \<Rightarrow> string" where
  "show_exit n = (if n < 0 then ''-'' @ show_nat (nat (- n)) else show_nat (nat n))"

definition shell_execute ::
  "'w shell_env \<Rightarrow> ('w \<Rightarrow> (string, string) hmap) \<Rightarrow> 'w shell_tool \<Rightarrow> json \<Rightarrow> 'w
     \<Rightarrow> (ToolRunError, json) result \<times> 'w" where
  "shell_execute sv extras sh params w =
     (case require_str params ''command'' of
        Inl e \<Rightarrow> (Err e, w)
      | Inr cmd \<Rightarrow>
          (case execute_command sv sh cmd (jget_str params ''workdir'') (Option.bind (jget params ''timeout'') json_as_u64) (extras w) w of
             (Inl e, w1) \<Rightarrow> (Err e, w1)
           | (Inr (out, ec), w1) \<Rightarrow>
               (Ok (JObject [(''output'', JString out), (''exit_code'', JNumber (show_exit ec)), (''success'', JBool (ec = 0)),
                             (''sandboxed'', JBool (sh_sandbox sh \<noteq> None))]), w1)))"

definition shell_requires_approval :: "'w shell_env \<Rightarrow> json \<Rightarrow> ApprovalRequirement" where
  "shell_requires_approval sv params =
     (let cmd = (case jget_str params ''command'' of
                   Some c \<Rightarrow> Some c
                 | None \<Rightarrow> Option.bind (Option.bind (as_str params) (sv_decode sv)) (\<lambda>v. jget_str v ''command'')) in
      case cmd of
        Some c \<Rightarrow> if requires_explicit_approval (sv_lower sv) c then Always else UnlessAutoApproved
      | None \<Rightarrow> UnlessAutoApproved)"

subsection \<open>What the searches find\<close>

text \<open>
  For a pattern whose first character does not occur again in it, the matches that do not overlap are
  all matches.
\<close>

lemma no_start_inside:
  assumes "starts_with (c # cs) p" "p \<noteq> []" "hd p \<notin> set (tl p)" "0 < j" "j < length p"
  shows "\<not> starts_with (drop j (c # cs)) p"
proof
  assume "starts_with (drop j (c # cs)) p"
  then have "hd (drop j (c # cs)) = hd p" using assms(2) by (auto simp: starts_with_iff neq_Nil_conv)
  moreover obtain b where b: "c # cs = p @ b" using assms(1) by (auto simp: starts_with_iff)
  then have "hd (drop j (c # cs)) = p ! j" using assms(5) by (simp add: hd_drop_conv_nth nth_append)
  moreover have "p ! j \<in> set (tl p)" using assms(2,4,5) by (cases p; cases j) auto
  ultimately show False using assms(3) by simp
qed

lemma match_from_iff:
  assumes "p \<noteq> []" "hd p \<notin> set (tl p)"
  shows "k \<in> set (match_from p i s) \<longleftrightarrow> i \<le> k \<and> k < i + length s \<and> starts_with (drop (k - i) s) p"
proof (induction s arbitrary: i rule: length_induct)
  case (1 s)
  show ?case
  proof (cases s)
    case (Cons c cs)
    show ?thesis
    proof (cases "starts_with (c # cs) p")
      case True
      define rest where "rest = drop (length p - 1) cs"
      have dr: "drop (length p) (c # cs) = rest" using assms(1) by (cases p) (simp_all add: rest_def)
      have len: "length (c # cs) = length p + length rest"
      proof -
        obtain b where "c # cs = p @ b" using True by (auto simp: starts_with_iff)
        then have "length p \<le> length (c # cs)" by (metis length_append le_add1)
        then show ?thesis using dr by (metis le_add_diff_inverse length_drop)
      qed
      have "length rest < length s" using Cons by (simp add: rest_def)
      with 1 have IH: "k \<in> set (match_from p (i + length p) rest) \<longleftrightarrow>
          i + length p \<le> k \<and> k < i + length p + length rest \<and> starts_with (drop (k - (i + length p)) rest) p" by blast
      have later: "drop (k - i) (c # cs) = drop (k - (i + length p)) rest" if "i + length p \<le> k"
        using that by (simp only: dr [symmetric] drop_drop) (rule arg_cong [where f = "\<lambda>n. drop n (c # cs)"], simp)
      have inside: "\<not> starts_with (drop (k - i) (c # cs)) p" if "i < k" "k < i + length p"
        using no_start_inside [OF True assms] that by simp
      have "k \<in> set (match_from p i s) \<longleftrightarrow> k = i \<or> k \<in> set (match_from p (i + length p) rest)"
        using Cons True assms(1) by (simp add: rest_def)
      also have "\<dots> \<longleftrightarrow> i \<le> k \<and> k < i + length s \<and> starts_with (drop (k - i) s) p"
      proof (cases "k < i + length p")
        case True
        then show ?thesis using IH inside \<open>starts_with (c # cs) p\<close> Cons by (cases k i rule: linorder_cases) auto
      next
        case False
        then show ?thesis using IH later len Cons assms(1) by auto
      qed
      finally show ?thesis .
    next
      case False
      have "length cs < length s" using Cons by simp
      with 1 have IH: "k \<in> set (match_from p (i + 1) cs) \<longleftrightarrow>
          i + 1 \<le> k \<and> k < i + 1 + length cs \<and> starts_with (drop (k - (i + 1)) cs) p" by blast
      have later: "drop (k - i) (c # cs) = drop (k - (i + 1)) cs" if "i + 1 \<le> k"
      proof -
        have "k - i = Suc (k - (i + 1))" using that by simp
        then show ?thesis by simp
      qed
      show ?thesis using IH later False Cons by (cases k i rule: linorder_cases) auto
    qed
  qed simp
qed

lemma match_indices_iff:
  assumes "p \<noteq> []" "hd p \<notin> set (tl p)"
  shows "k \<in> set (match_indices s p) \<longleftrightarrow> k < length s \<and> (\<exists>b. s = take k s @ p @ b)"
proof -
  have "starts_with (drop k s) p \<longleftrightarrow> (\<exists>b. s = take k s @ p @ b)" if "k < length s"
    unfolding starts_with_iff by (metis append_take_drop_id same_append_eq)
  then show ?thesis using match_from_iff [OF assms, of k 0 s] by (auto simp: match_indices_def)
qed

text \<open>A match read as a decomposition of the text.\<close>

lemma match_ex:
  assumes "p \<noteq> []" "hd p \<notin> set (tl p)"
  shows "list_ex Q (match_indices s p) \<longleftrightarrow> (\<exists>a b. s = a @ p @ b \<and> Q (length a))"
proof
  assume "list_ex Q (match_indices s p)"
  then obtain k where m: "k \<in> set (match_indices s p)" and q: "Q k" by (auto simp: list_ex_iff)
  then have k: "k < length s" "Q k" by (simp_all add: match_indices_iff [OF assms])
  from m obtain b where "s = take k s @ p @ b" unfolding match_indices_iff [OF assms] by blast
  moreover have "length (take k s) = k" using k(1) by simp
  ultimately show "\<exists>a b. s = a @ p @ b \<and> Q (length a)" using k(2) by metis
next
  assume "\<exists>a b. s = a @ p @ b \<and> Q (length a)"
  then obtain a b where s: "s = a @ p @ b" and q: "Q (length a)" by blast
  then have "length a \<in> set (match_indices s p)" using assms(1) by (auto simp: match_indices_iff [OF assms])
  then show "list_ex Q (match_indices s p)" using q by (auto simp: list_ex_iff)
qed

definition word_end :: "string \<Rightarrow> bool" where
  "word_end b \<longleftrightarrow> b = [] \<or> ends_word (hd b)"

lemma has_pipe_to_iff:
  assumes "CHR ''|'' \<notin> set shell"
  shows "has_pipe_to s shell \<longleftrightarrow> (\<exists>a b. (s = a @ ''| '' @ shell @ b \<or> s = a @ ''|'' @ shell @ b) \<and> word_end b)"
proof -
  have one: "list_ex (\<lambda>i. let fin = i + length (pre @ shell) in length s \<le> fin \<or> ends_word (s ! fin)) (match_indices s (pre @ shell))
      \<longleftrightarrow> (\<exists>a b. s = a @ pre @ shell @ b \<and> word_end b)" if "pre = ''| '' \<or> pre = ''|''" for pre
  proof -
    have p: "pre @ shell \<noteq> []" "hd (pre @ shell) \<notin> set (tl (pre @ shell))" using that assms by auto
    have ends: "(length s \<le> length a + length (pre @ shell) \<or> ends_word (s ! (length a + length (pre @ shell)))) \<longleftrightarrow> word_end b"
      if "s = a @ pre @ shell @ b" for a b
      using that by (cases b) (auto simp: word_end_def nth_append)
    show ?thesis unfolding match_ex [OF p] Let_def append_assoc using ends by blast
  qed
  show ?thesis using one [of "''| ''"] one [of "''|''"] by (auto simp: has_pipe_to_def Let_def)
qed


lemma has_command_token_iff:
  assumes "tok \<noteq> []" "hd tok \<notin> set (tl tok)"
  shows "has_command_token s tok \<longleftrightarrow> (\<exists>a b. s = a @ tok @ b \<and> (a = [] \<or> starts_word (last a)))"
proof -
  have "(length a = 0 \<or> starts_word (s ! (length a - 1))) \<longleftrightarrow> (a = [] \<or> starts_word (last a))" if "s = a @ tok @ b" for a b
    using that by (cases "a = []") (auto simp: last_conv_nth nth_append)
  then show ?thesis unfolding has_command_token_def match_ex [OF assms] by auto
qed

subsection \<open>What runs\<close>

text \<open>What a command that may run looks like.\<close>

definition screened :: "(string \<Rightarrow> string) \<Rightarrow> 'w shell_tool \<Rightarrow> string \<Rightarrow> bool" where
  "screened lc sh cmd \<longleftrightarrow>
     list_all (\<lambda>p. \<not> contains_str (lc cmd) p) BLOCKED_COMMANDS \<and>
     (sh_allow_dangerous sh \<or> list_all (\<lambda>p. \<not> contains_str (lc cmd) p) DANGEROUS_PATTERNS) \<and>
     CHR 0x00 \<notin> set cmd \<and> detect_command_injection lc cmd = None"

lemma child_environment_keys:
  "k \<in> fst ` set (child_environment sv extra w) \<Longrightarrow> k \<in> set SAFE_ENV_VARS \<or> k \<in> fst ` set extra"
proof -
  have "fst ` set (fold (\<lambda>(k, v). AList.update k v) extra m) \<subseteq> fst ` set extra \<union> fst ` set m" for m :: "(string, string) hmap"
  proof (induction extra arbitrary: m)
    case (Cons kv extra)
    obtain k v where kv: "kv = (k, v)" by (cases kv)
    have "fst ` set (AList.update k v m) \<subseteq> insert k (fst ` set m)" using dom_update [of k v m] by blast
    then have "fst ` set extra \<union> fst ` set (AList.update k v m) \<subseteq> fst ` set (kv # extra) \<union> fst ` set m" using kv by auto
    moreover have "fold (\<lambda>(k, v). AList.update k v) (kv # extra) m = fold (\<lambda>(k, v). AList.update k v) extra (AList.update k v m)"
      using kv by simp
    ultimately show ?case using order_trans [OF Cons.IH [of "AList.update k v m"]] by simp
  qed simp
  moreover have "fst ` set (List.map_filter (\<lambda>k. map_option (Pair k) (sv_env_var sv k w)) vs) \<subseteq> set vs" for vs
    by (auto simp: List.map_filter_def)
  ultimately show "k \<in> fst ` set (child_environment sv extra w) \<Longrightarrow> ?thesis"
    unfolding child_environment_def by blast
qed


text \<open>What is approved is what runs: the requirement is computed from the command the tool will run.\<close>

lemma shell_approval_of_command:
  "require_str params ''command'' = Ok cmd \<Longrightarrow>
   shell_requires_approval sv params = (if requires_explicit_approval (sv_lower sv) cmd then Always else UnlessAutoApproved)"
  by (auto simp: shell_requires_approval_def require_str_def Let_def split: option.splits)

lemma of_char_of_R: "code (CHR ''R'') = 82"
  by simp

text \<open>
  The blocked command \<open>chmod -R 777 /\<close> has a capital letter and is looked for in the lower-cased command:
  it is never found.
\<close>

theorem chmod_never_blocked: "\<not> contains_str (ascii_lower cmd) ''chmod -R 777 /''"
proof
  assume "contains_str (ascii_lower cmd) ''chmod -R 777 /''"
  then obtain a b where "ascii_lower cmd = a @ ''chmod -R 777 /'' @ b" by (auto simp: contains_str_iff)
  then have "CHR ''R'' \<in> set (ascii_lower cmd)" by simp
  then obtain x where "CHR ''R'' = ascii_lower_char x" by (auto simp: ascii_lower_def)
  then have "code (ascii_lower_char x) = 82" by (metis of_char_of_R)
  then show False by (simp add: ascii_lower_char_def Let_def split: if_splits)
qed

text \<open>
  A tool with a sandbox that is neither initialized nor enabled runs the command on the host and reports it
  as sandboxed.
\<close>

lemma host_run_reported_sandboxed:
  assumes "sh_sandbox sh = Some sb" "\<not> sbx_initialized sb w" "\<not> sbx_enabled sb"
    and "shell_execute sv extras sh params w = (Ok r, w1)"
  shows "jget r ''sandboxed'' = Some (JBool True) \<and>
    (\<exists>cmd dir limit. snd (execute_direct sv cmd dir limit (extras w) w) = w1)"
proof -
  obtain cmd where cmd: "require_str params ''command'' = Ok cmd"
    using assms(4) by (auto simp: shell_execute_def split: sum.splits)
  obtain x where x: "execute_command sv sh cmd (jget_str params ''workdir'') (Option.bind (jget params ''timeout'') json_as_u64) (extras w) w = (Ok x, w1)"
    using assms(4) cmd by (auto simp: shell_execute_def split: prod.splits sum.splits)
  have "jget r ''sandboxed'' = Some (JBool True)"
    using assms(1,4) cmd by (auto simp: shell_execute_def jget_def split: prod.splits sum.splits)
  moreover have "\<exists>dir limit. snd (execute_direct sv cmd dir limit (extras w) w) = w1"
    using x assms(1-3) by (auto simp: execute_command_def Let_def split: option.splits) (metis snd_conv)+
  ultimately show ?thesis by blast
qed

end
