(* ===== verification/Spec2Isabelle.thy ===== *)
theory Spec2Isabelle
  imports Context_Manager Thread_Commands Response_Cache Domain_Policy Rate_Limiter Cost_Guard Safety_Layer Token_Store Skill_Selection Hooks Schema_Check Message_Loop Job_Worker Pairing Shell_Guard
begin

text \<open>
  A verification library for the agent in \<open>src/\<close> (the Rust crate whose sources are in
  \<open>src/src/\<close>; file names below are relative to the crate).

  \<^bold>\<open>The program.\<close>  Users talk to the agent over channels.  A message is parsed into a submission
  (\<open>src/agent/submission.rs\<close>), resolved to a session and a thread (\<open>session_manager.rs\<close>, \<open>session.rs\<close>),
  hydrated from the database when it refers to a stored conversation, screened by the safety layer and the
  inbound hooks, checkpointed for undo and answered in a turn (\<open>agent_loop.rs\<close>, \<open>thread_ops.rs\<close>, \<open>undo.rs\<close>).
  A turn runs the agentic loop (\<open>agentic_loop.rs\<close>) with the chat delegate (\<open>dispatcher.rs\<close>): it selects skills
  and attenuates the tool list (\<open>src/skills\<close>), asks the cost guard (\<open>cost_guard.rs\<close>), calls the model through a
  chain of decorators (\<open>src/llm\<close>), cleans what the model says (\<open>reasoning.rs\<close>) and runs the tool calls, some of
  them only after the user's approval.  A tool call is coerced to its schema, validated, rate limited and
  run with a time limit (\<open>src/tools\<close>), and its output passes the leak detector, the policy and the sanitizer
  (\<open>crates/ironclaw_safety\<close>).  WASM tools reach the network through an endpoint allowlist
  (\<open>src/tools/wasm/allowlist.rs\<close>) and sandboxed processes through the proxy's policy (\<open>src/sandbox/proxy\<close>).
  Background work runs as jobs, with a state machine, a memory and a shared registry (\<open>src/context\<close>), started
  and stopped by the scheduler (\<open>src/agent/scheduler.rs\<close>) on behalf of the job commands (\<open>commands.rs\<close>), each in
  a worker (\<open>src/worker/job.rs\<close>) that runs the same loop with a delegate of its own;
  job containers call back with per-job tokens (\<open>src/orchestrator/auth.rs\<close>).

  \<^bold>\<open>The theories, in the order of their imports.\<close>

  \<^item> \<open>Claw_Prelude\<close>: types (words, clock readings, hash maps as association lists, results as sums,
    JSON), string functions of the standard library, the locale \<open>hash_map\<close> and its interpretation.
  \<^item> \<open>Job_State\<close> (\<open>src/context/state.rs\<close>): states, transition table, job record, transitions with the
    capped history, stamps, token budget, recovery.  Any sequence of operations keeps an unbroken chain of
    legal transitions; terminal states are absorbing; the token budget is exact without overflow.
  \<^item> \<open>Chat_Message\<close> (\<open>src/llm/provider.rs\<close>): roles, messages, tool calls and definitions.
  \<^item> \<open>Job_Memory\<close> (\<open>src/context/memory.rs\<close>): action records and the bounded conversation.  Eviction
    never drops a leading system message or the newest message; sequence numbers are distinct.
  \<^item> \<open>Context_Manager\<close> (\<open>src/context/manager.rs\<close>): every operation of the registry, split into the phases
    that run under one lock.  The step relation \<open>cm_step\<close> interleaves the phases of concurrent calls: the
    slot limit and the job invariant hold in every reachable state, while the two maps agree only under
    sequential use.
  \<^item> \<open>Undo_Manager\<close> (\<open>src/agent/undo.rs\<close>): checkpoints and the two stacks.  The locale
    \<open>reversible_history\<close> states what undo and redo promise and is interpreted on them: undos followed by as
    many redos return to the start.  The two stacks together are bounded.
  \<^item> \<open>Session_Thread\<close> (\<open>src/agent/session.rs\<close>): sessions, threads, turns, tool calls, the message list of
    a thread and its restoration, preview truncation.  Restoring inverts the message list; thread invariant
    by rule induction over all operations.
  \<^item> \<open>Session_Manager\<close> (\<open>src/agent/session_manager.rs\<close>): sessions and undo managers are shared objects, so
    they live in stores and the maps hold references.  Resolution is isolated per scope and stable; pruning
    is exact.
  \<^item> \<open>Thread_Commands\<close> (\<open>src/agent/thread_ops.rs\<close>): persistence rows and rebuilding, hydration, the start
    and end of a turn, undo, redo, interrupt, clear, new and switched threads, resume.  The commands undo
    and redo restore the conversations they name; hydration requires ownership.
  \<^item> \<open>Llm_Provider\<close> (\<open>src/llm/provider.rs\<close>, \<open>error.rs\<close>): errors, requests, responses, a call as a function
    of the world, and the locale \<open>llm_decorator\<close>: what a decorator returns was returned by the provider it
    wraps, for the same request.
  \<^item> \<open>Retry\<close>, \<open>Circuit_Breaker\<close>, \<open>Failover\<close>, \<open>Response_Cache\<close> (the files of those names in \<open>src/llm\<close>,
    and \<open>build_provider_chain\<close> of \<open>mod.rs\<close>): one theory per decorator.  Retry, breaker and failover
    interpret \<open>llm_decorator\<close>; the last theory composes the chain and shows that an answer always comes
    from a raw provider for this request or one with the same cache key.
  \<^item> \<open>Endpoint_Allowlist\<close> (\<open>src/tools/wasm/allowlist.rs\<close>, \<open>capabilities.rs\<close>) and \<open>Domain_Policy\<close>
    (\<open>src/sandbox/proxy/allowlist.rs\<close>, \<open>policy.rs\<close>, \<open>src/secrets/types.rs\<close>): the two network gates.  The
    program has four independent host matchers; the locale \<open>host_matcher\<close> states the contract (a host is
    accepted only if it is the domain or below it by whole labels) and is interpreted on each of them.
  \<^item> \<open>Rate_Limiter\<close> (\<open>src/tools/rate_limiter.rs\<close>): fixed windows per user and tool; in any span of a window's
    length at most twice the limit passes, whatever the order of calls.
  \<^item> \<open>Cost_Guard\<close> (\<open>src/agent/cost_guard.rs\<close>): daily budget and hourly rate, cost formula and counters.
  \<^item> \<open>Token_Store\<close> (\<open>src/orchestrator/auth.rs\<close>): tokens, grants and the middleware, which accepts exactly
    the token last issued for the job in the path.
  \<^item> \<open>Skill_Selection\<close> (\<open>src/skills/mod.rs\<close>, \<open>selector.rs\<close>, \<open>attenuation.rs\<close>): scoring, selection under the
    context budget and the tool ceiling; trust levels are a \<open>linorder\<close> as in the source.
  \<^item> \<open>Hooks\<close> (\<open>src/hooks/hook.rs\<close>, \<open>registry.rs\<close>): registration by priority and the run of matching hooks: it
    continues exactly when every hook passes, changes only the content, and fails closed or open as each hook
    asks.
  \<^item> \<open>Tool_Interface\<close> (\<open>src/tools/tool.rs\<close>, \<open>redaction.rs\<close>, \<open>autonomy.rs\<close>): tools as records of functions,
    approval requirements, parameter redaction (exact: two values have the same redacted form iff they differ
    only below sensitive keys) and the scope of autonomous runs.
  \<^item> \<open>Coercion\<close> (\<open>src/tools/coercion.rs\<close>) and \<open>Schema_Check\<close> (\<open>tool.rs\<close>, \<open>schema_validator.rs\<close>): arguments
    are coerced only to types the schema allows; the strict schema check compared with the lenient one.
  \<^item> \<open>Text_Ops\<close>, \<open>Leak_Detector\<close>, \<open>Input_Validator\<close>, \<open>Safety_Layer\<close> (\<open>crates/ironclaw_safety/src\<close>): string
    search and replacement, the prefix automaton and its equivalence with running every pattern, redaction,
    validation of input and of parameters, the wrapping of tool output, and the pipeline of a tool output.
  \<^item> \<open>Response_Cleaning\<close>, \<open>Reasoning\<close> (\<open>src/llm/reasoning.rs\<close>): stripping of reasoning tags, recovery of tool
    calls written as text, and the calls of the model made from them.  Cleaning ends for every text.
  \<^item> \<open>Message_Sanitizer\<close> (\<open>src/llm/provider.rs\<close>, \<open>src/util.rs\<close>): the repair of tool messages before a request
    is sent, after which every tool result has a call before it.
  \<^item> \<open>Tool_Execution\<close> (\<open>src/tools/execute.rs\<close>): look-up, preparation, validation, time limit and result of one
    call.  Nothing but the registered tool on validated parameters has an effect.
  \<^item> \<open>Agentic_Loop\<close> (\<open>src/agent/agentic_loop.rs\<close>): the loop over a delegate (a record of functions), with a locale
    for what a delegate promises.
  \<^item> \<open>Chat_Text\<close>, \<open>Chat_Delegate\<close> (\<open>src/agent/dispatcher.rs\<close>): the delegate of a chat turn: signals, cost
    guard, forced text, the preflight with hooks and approval, parallel execution, results in order.  The loop
    never reaches its hard limit; a round keeps the tool protocol; an unapproved tool never runs.
  \<^item> \<open>Approval\<close> (\<open>thread_ops.rs\<close>): approvals, rejections, deferred calls and the authentication mode.
  \<^item> \<open>Submissions\<close> (\<open>submission.rs\<close>, \<open>router.rs\<close>): the command grammar; approvals are explicit.
  \<^item> \<open>Floats\<close>, \<open>Compaction\<close> (\<open>context_monitor.rs\<close>, \<open>compaction.rs\<close>): the double arithmetic the token estimate
    needs, and the three compaction strategies.
  \<^item> \<open>Scheduler\<close> (\<open>scheduler.rs\<close>, \<open>task.rs\<close>): dispatch, start, stop, messages, reaping and sub-tasks, with a step
    relation over the operations, workers and reapers; no more jobs run than configured.
  \<^item> \<open>Job_Commands\<close> (\<open>commands.rs\<close>): status, cancel, list, help, summaries, system commands and model switches.
  \<^item> \<open>Message_Loop\<close> (\<open>agent_loop.rs\<close>, \<open>thread_ops.rs\<close>): the handling of one message and the main loop.  Input has
    an effect only after screening; a turn that returns never leaves its thread in the processing state.
  \<^item> \<open>Job_Worker\<close> (\<open>src/worker/job.rs\<close>, \<open>src/context/fallback.rs\<close>): the worker of a job, with plans, the job delegate,
    tool execution and the marks at the end.  The world of a job holds what it shares with other tasks, so
    what they do while it waits is covered.  A run has effects only through permitted tool calls, and never leaves its
    job in progress.
  \<^item> \<open>Pairing\<close> (\<open>src/pairing/store.rs\<close>): codes and allowed senders.  A sender is admitted only by a live code, and
    guesses are bounded in every window.
  \<^item> \<open>Shell_Guard\<close> (\<open>src/tools/builtin/shell.rs\<close>): the checks of a command, with the boundary-aware searches shown
    equal to their declarative reading; only screened commands run, with a scrubbed environment.

  \<^bold>\<open>How the model corresponds to the code.\<close>  A struct is a record and an enum a datatype with the source's
  variants.  A method on \<open>&mut self\<close> is a function that also returns the new state.  Errors are the left side
  of a sum.  Clock readings, fresh identifiers and random bytes are arguments, one per reading where the code
  reads more than once.  Integers are words wherever the code can wrap or saturate.  Log statements are left
  out.  Shared objects behind \<open>Arc<Mutex<..>>\<close> are indices into a store.  Where calls can interleave at an
  \<open>await\<close> or between two locks, the phases are separate definitions and a step relation interleaves them.

  \<^bold>\<open>Parameters.\<close>  Code outside the repository is an argument of the definitions: URL parsing, percent
  decoding, Unicode case mapping, UUID parsing, SHA-256 and JSON printing, decimal arithmetic, regular
  expressions, raw model providers and the conversation database.  A theorem that relies on documented
  behaviour of one states it as a hypothesis and has a witness at a concrete instance.

  \<^bold>\<open>Termination.\<close>  Every loop is structural recursion, bounded by a count the code has (attempts, providers,
  iterations), or carries a measure (cache eviction and conversation trimming shrink the collection, restoring
  a thread consumes messages, decimal printing shrinks the number, collapsing newlines and stripping tags
  shorten the text).  No definition uses fuel, so every modelled operation returns.

  \<^bold>\<open>Floating point.\<close>  The code uses doubles in two places that matter here.  The token estimate of the context
  monitor is modelled with rational numbers rounded to 53 significant bits (\<open>Floats\<close>) and shown equal to an integer
  formula; elsewhere (relevance scores, percentages, temperatures) a double is a rational or a value that is only handed on,
  as the definition says.

  \<^bold>\<open>What modelling showed.\<close>  The manifest's findings name the source line of each.  Among them, in the
  registry and the sessions: \<open>concurrent_remove_orphans_memory\<close>, \<open>prune_drops_used_session\<close>; in the model
  chain: \<open>success_while_open\<close>, \<open>budget_never_renewed\<close>; in the safety crate: a secret hidden by an
  overlapping prefix, a nested redaction that copies bytes twice, an escape undone by the removal of null bytes; in the agent:
  \<open>silent_reply_ends_loop\<close>, \<open>zero_request_escapes_limit\<close>, \<open>stored_jobs_shown_to_everyone\<close>,
  \<open>help_never_restarts\<close>, \<open>stopped_job_is_completed\<close>, \<open>later_messages_lost\<close>, \<open>approval_forgets_others\<close>,
  \<open>chmod_never_blocked\<close>, and the deferred calls of an approval that skip the hooks.

  \<^bold>\<open>Not modelled.\<close>  Transports, servers, databases, file system, containers, cryptography, the WASM run time,
  remote model clients, command line, set-up and configuration loading: input and output around the modelled
  core.  Of the pure logic, the parts left out are the workspace's chunking and rank fusion, smart routing of models,
  routines, and the guards of the other built-in tools.
\<close>

end
